theory Spec2Isabelle
  imports Main "HOL-Library.AList" "HOL-Library.Char_ord" "HOL-Library.List_Lexorder"
    "HOL-Library.Product_Lexorder"
begin

section \<open>KeepNote notebook data layer (keepnote/notebook.py)\<close>

text \<open>
  A shallow embedding of \<^verbatim>\<open>src/keepnote/notebook.py\<close>. Python strings are
  \<^typ>\<open>string\<close>, Python integers are \<^typ>\<open>int\<close>, exceptions are values of the
  datatype \<open>error\<close>, and every method that mutates an object takes the program state
  and returns the state it leaves behind next to its result, also when it raises.
\<close>

subsection \<open>Constants\<close>

definition NOTEBOOK_FORMAT_VERSION :: int where
  "NOTEBOOK_FORMAT_VERSION = 2"

definition NODE_META_FILE :: string where
  "NODE_META_FILE = ''node.xml''"

definition PAGE_DATA_FILE :: string where
  "PAGE_DATA_FILE = ''page.html''"

definition PREF_FILE :: string where
  "PREF_FILE = ''notebook.nbk''"

definition NOTEBOOK_META_DIR :: string where
  "NOTEBOOK_META_DIR = ''__NOTEBOOK__''"

definition TRASH_DIR :: string where
  "TRASH_DIR = ''__TRASH__''"

definition TRASH_NAME :: string where
  "TRASH_NAME = ''Trash''"

definition DEFAULT_FONT :: string where
  "DEFAULT_FONT = ''Sans 10''"

definition CONTENT_TYPE_PAGE :: string where
  "CONTENT_TYPE_PAGE = ''text/xhtml+xml''"

definition CONTENT_TYPE_TRASH :: string where
  "CONTENT_TYPE_TRASH = ''application/x-notebook-trash''"

definition CONTENT_TYPE_DIR :: string where
  "CONTENT_TYPE_DIR = ''application/x-notebook-dir''"

definition INFO_SORT_NONE :: int where
  "INFO_SORT_NONE = 0"

text \<open>\<^verbatim>\<open>sys.maxint\<close> of a 64-bit CPython 2.\<close>

definition sys_maxint :: int where
  "sys_maxint = 9223372036854775807"

subsection \<open>Exceptions\<close>

text \<open>
  The exceptions the program raises or lets through. \<open>NoteBookError msg cause\<close> is
  \<^verbatim>\<open>NoteBookError(msg, error)\<close>; \<open>NoteBookVersionError\<close> is its subclass.
  \<open>NoReturn\<close> is not an exception: it stands for a call whose loop never ends.
\<close>

datatype error =
    NoteBookError string "error option"
  | NoteBookVersionError int int
  | OSError
  | IOError
  | XmlError
  | ExpatError
  | AssertionError
  | AttributeError
  | KeyError
  | ValueError
  | TypeError
  | OverflowError
  | CorruptMetaFile
  | NoReturn

text \<open>What \<^verbatim>\<open>except NoteBookError\<close> catches.\<close>

fun is_NoteBookError :: "error \<Rightarrow> bool" where
  "is_NoteBookError (NoteBookError m c) = True"
| "is_NoteBookError (NoteBookVersionError v r) = True"
| "is_NoteBookError e = False"

subsection \<open>Python string primitives\<close>

text \<open>\<^verbatim>\<open>s.startswith(p)\<close>.\<close>

fun startswith :: "string \<Rightarrow> string \<Rightarrow> bool" where
  "startswith s [] = True"
| "startswith [] (p # ps) = False"
| "startswith (c # cs) (p # ps) = (c = p \<and> startswith cs ps)"

text \<open>\<^verbatim>\<open>s.strip(chars)\<close>: drop the characters of \<open>chars\<close> from both ends.\<close>

definition strip :: "string \<Rightarrow> string \<Rightarrow> string" where
  "strip chars s =
     rev (dropWhile (\<lambda>c. c \<in> set chars) (rev (dropWhile (\<lambda>c. c \<in> set chars) s)))"

text \<open>\<^verbatim>\<open>s.lower()\<close> on the ASCII letters (a Python 2 byte string in the C locale).\<close>

definition lower_char :: "char \<Rightarrow> char" where
  "lower_char c =
     (let n = (of_char c :: nat) in if 65 \<le> n \<and> n \<le> 90 then char_of (n + 32) else c)"

definition lower :: "string \<Rightarrow> string" where
  "lower s = map lower_char s"

text \<open>\<^verbatim>\<open>str(i)\<close> of an integer: decimal digits, a minus sign when negative.\<close>

definition digit_char :: "nat \<Rightarrow> char" where
  "digit_char d = ''0123456789'' ! d"

fun str_nat :: "nat \<Rightarrow> string" where
  "str_nat n = (if n < 10 then [digit_char n] else str_nat (n div 10) @ [digit_char (n mod 10)])"

declare str_nat.simps [simp del]

definition str_int :: "int \<Rightarrow> string" where
  "str_int i = (if i < 0 then CHR ''-'' # str_nat (nat (- i)) else str_nat (nat i))"

subsection \<open>POSIX path primitives (\<^verbatim>\<open>os.path\<close>)\<close>

text \<open>\<^verbatim>\<open>posixpath.join(a, b)\<close> for two components.\<close>

definition os_path_join :: "string \<Rightarrow> string \<Rightarrow> string" where
  "os_path_join a b =
     (if startswith b ''/'' then b
      else if a = [] \<or> last a = CHR ''/'' then a @ b
      else a @ ''/'' @ b)"

text \<open>\<^verbatim>\<open>os.path.join(*path_list)\<close>: the components joined from left to right.\<close>

fun os_path_join_list :: "string list \<Rightarrow> string" where
  "os_path_join_list [] = []"
| "os_path_join_list (p # ps) = foldl os_path_join p ps"

text \<open>\<^verbatim>\<open>posixpath.basename(p)\<close>: what follows the last slash.\<close>

definition os_path_basename :: "string \<Rightarrow> string" where
  "os_path_basename p = rev (takeWhile (\<lambda>c. c \<noteq> CHR ''/'') (rev p))"

text \<open>
  \<^verbatim>\<open>posixpath.dirname(p)\<close>: what precedes the last slash, with its trailing slashes
  removed unless it consists of slashes only.
\<close>

definition os_path_dirname :: "string \<Rightarrow> string" where
  "os_path_dirname p =
     (let head = rev (dropWhile (\<lambda>c. c \<noteq> CHR ''/'') (rev p)) in
      if head \<noteq> [] \<and> \<not> (\<forall>c \<in> set head. c = CHR ''/'')
      then rev (dropWhile (\<lambda>c. c = CHR ''/'') (rev head))
      else head)"

subsection \<open>The file system\<close>

text \<open>
  The file system is the environment of the program. It is a finite table from paths to
  directories and files; paths are compared as strings. \<open>EFile\<close> is a file with its
  text; \<open>EPref v f\<close> is a well-formed preferences document with its \<^verbatim>\<open>version\<close> and
  \<^verbatim>\<open>default_font\<close> elements, where present (see \<open>xmlo_read\<close> below). \<open>denied\<close> lists the paths on
  which the operating system refuses a modification (a permission failure), so that
  every \<^verbatim>\<open>OSError\<close> and \<^verbatim>\<open>IOError\<close> branch of the program can be reached.
\<close>

datatype fs_entry = EDir | EFile string | EPref "int option" "string option"

record filesystem =
  entries :: "(string \<times> fs_entry) list"
  denied :: "string list"

definition os_path_exists :: "filesystem \<Rightarrow> string \<Rightarrow> bool" where
  "os_path_exists fs p = (map_of (entries fs) p \<noteq> None)"

definition os_path_isdir :: "filesystem \<Rightarrow> string \<Rightarrow> bool" where
  "os_path_isdir fs p = (map_of (entries fs) p = Some EDir)"

subsection \<open>Filename creation functions\<close>

definition slash_chars :: string where
  "slash_chars = [CHR ''/'', CHR 0x5C]"

definition bad_chars :: string where
  "bad_chars = [CHR ''?'', CHR 0x27, CHR ''&'', CHR ''<'', CHR ''>'', CHR ''|'', CHR 0x60,
     CHR '':'', CHR '';'']"

text \<open>
  \<^verbatim>\<open>get_valid_filename(filename, default="folder")\<close>: slashes become dashes, the
  blocked characters are removed, tabs become blanks, blanks, tabs and dots are stripped
  from both ends, one leading \<^verbatim>\<open>__\<close> is cut off, the empty name is replaced by the
  default, and the result is lower-cased.
\<close>

definition get_valid_filename :: "string \<Rightarrow> string \<Rightarrow> string" where
  "get_valid_filename filename dflt =
     (let f1 = map (\<lambda>c. if c \<in> set slash_chars then CHR ''-'' else c) filename;
          f2 = filter (\<lambda>c. c \<notin> set bad_chars) f1;
          f3 = map (\<lambda>c. if c = CHR 0x09 then CHR '' '' else c) f2;
          f4 = strip [CHR '' '', CHR 0x09, CHR ''.''] f3;
          f5 = (if startswith f4 ''__'' then drop 2 f4 else f4);
          f6 = (if f5 = [] then dflt else f5)
      in lower f6)"

text \<open>
  The \<^verbatim>\<open>while True\<close> loop of \<^verbatim>\<open>get_unique_filename\<close>: the first \<open>i\<close>, counting
  upwards, whose numbered name does not exist. The loop ends because the table of the
  file system is finite: a name that exists is no longer than the table's names together,
  and the decimal numeral of \<open>i\<close> grows with \<open>i\<close>.
\<close>

function unique_loop ::
  "filesystem \<Rightarrow> string \<Rightarrow> string \<Rightarrow> string \<Rightarrow> string \<Rightarrow> int \<Rightarrow> string" where
  "unique_loop fs path filename ext sep i =
     (let newname = os_path_join path (filename @ sep @ str_int i @ ext) in
      if \<not> os_path_exists fs newname then newname
      else unique_loop fs path filename ext sep (i + 1))"
  by pat_completeness auto

lemma str_nat_bound: "n < 10 ^ length (str_nat n)"
proof (induction n rule: str_nat.induct)
  case (1 n)
  show ?case
  proof (cases "n < 10")
    case True
    then show ?thesis by (subst str_nat.simps) simp
  next
    case False
    with 1 have ih: "n div 10 < 10 ^ length (str_nat (n div 10))" by simp
    have "length (str_nat n) = Suc (length (str_nat (n div 10)))"
      using False by (subst str_nat.simps) simp
    moreover have "n < 10 * 10 ^ length (str_nat (n div 10))"
      using ih by linarith
    ultimately show ?thesis by simp
  qed
qed

lemma str_int_bound: "i < 10 ^ length (str_int i)"
proof (cases "i < 0")
  case True
  have "(0::int) < 10 ^ length (str_int i)" by simp
  with True show ?thesis by linarith
next
  case False
  then have "str_int i = str_nat (nat i)" by (simp add: str_int_def)
  moreover have "int (nat i) < int (10 ^ length (str_nat (nat i)))"
    using str_nat_bound[of "nat i"] by linarith
  ultimately show ?thesis using False by simp
qed

lemma length_os_path_join: "length b \<le> length (os_path_join a b)"
  by (simp add: os_path_join_def)

definition names_length :: "filesystem \<Rightarrow> nat" where
  "names_length fs = sum_list (map (\<lambda>e. length (fst e)) (entries fs))"

lemma member_length_le:
  "(p, e) \<in> set xs \<Longrightarrow> length p \<le> sum_list (map (\<lambda>e. length (fst e)) xs)"
  by (induction xs) auto

lemma exists_length: "os_path_exists fs p \<Longrightarrow> length p \<le> names_length fs"
  by (auto simp: os_path_exists_def names_length_def dest!: map_of_SomeD member_length_le)

lemma exists_bound:
  assumes "os_path_exists fs (os_path_join path (filename @ sep @ str_int i @ ext))"
  shows "i < 10 ^ names_length fs"
proof -
  have "length (str_int i) \<le> length (os_path_join path (filename @ sep @ str_int i @ ext))"
    using length_os_path_join[of "filename @ sep @ str_int i @ ext" path] by simp
  also have "\<dots> \<le> names_length fs" using assms by (rule exists_length)
  finally have "(10::int) ^ length (str_int i) \<le> 10 ^ names_length fs"
    by (simp add: power_increasing)
  with str_int_bound[of i] show ?thesis by linarith
qed

termination unique_loop
proof (relation "measure (\<lambda>(fs, path, filename, ext, sep, i). nat (10 ^ names_length fs - i))")
  show "wf (measure (\<lambda>(fs, path, filename, ext, sep, i). nat (10 ^ names_length fs - i)))"
    by simp
next
  fix fs path filename ext sep i x
  assume "x = os_path_join path (filename @ sep @ str_int i @ ext)"
    and "\<not> \<not> os_path_exists fs x"
  then have "i < 10 ^ names_length fs" using exists_bound by blast
  then show "((fs, path, filename, ext, sep, i + 1), fs, path, filename, ext, sep, i)
     \<in> measure (\<lambda>(fs, path, filename, ext, sep, i). nat (10 ^ names_length fs - i))"
    by simp
qed

declare unique_loop.simps [simp del]

text \<open>
  \<^verbatim>\<open>get_unique_filename(path, filename, ext="", sep=" ", number=2)\<close>. The assertion
  fails when a non-empty \<open>path\<close> does not exist. The result is a path: the name joined
  to \<open>path\<close>.
\<close>

definition get_unique_filename ::
  "filesystem \<Rightarrow> string \<Rightarrow> string \<Rightarrow> string \<Rightarrow> string \<Rightarrow> int \<Rightarrow> error + string" where
  "get_unique_filename fs path filename ext sep number =
     (if path \<noteq> [] \<and> \<not> os_path_exists fs path then Inl AssertionError
      else
        let newname = os_path_join path (filename @ ext) in
        if \<not> os_path_exists fs newname then Inr newname
        else Inr (unique_loop fs path filename ext sep number))"

text \<open>\<^verbatim>\<open>get_valid_unique_filename(path, filename, ext="", sep=" ", number=2)\<close>.\<close>

definition get_valid_unique_filename ::
  "filesystem \<Rightarrow> string \<Rightarrow> string \<Rightarrow> string \<Rightarrow> string \<Rightarrow> int \<Rightarrow> error + string" where
  "get_valid_unique_filename fs path filename ext sep number =
     get_unique_filename fs path (get_valid_filename filename ''folder'') ext sep number"

subsection \<open>Attribute values and the attribute schema\<close>

text \<open>
  The values a node dictionary holds: \<^verbatim>\<open>None\<close>, booleans, integers and text. Python
  compares \<^verbatim>\<open>True\<close> and \<^verbatim>\<open>1\<close> as equal; \<open>py_key\<close> is the order CPython 2 puts on
  values of mixed types (\<^verbatim>\<open>None\<close> first, then the numbers, then the strings).
\<close>

datatype val = VNone | VBool bool | VInt int | VText string

definition py_key :: "val \<Rightarrow> nat \<times> int \<times> string" where
  "py_key v =
     (case v of
        VNone \<Rightarrow> (0, 0, [])
      | VBool b \<Rightarrow> (1, (if b then 1 else 0), [])
      | VInt i \<Rightarrow> (1, i, [])
      | VText s \<Rightarrow> (2, 0, s))"

definition py_eq :: "val \<Rightarrow> val \<Rightarrow> bool" where
  "py_eq a b = (py_key a = py_key b)"

definition py_lt :: "val \<Rightarrow> val \<Rightarrow> bool" where
  "py_lt a b = (py_key a < py_key b)"

text \<open>\<^verbatim>\<open>unicode(x)\<close>.\<close>

definition py_unicode :: "val \<Rightarrow> string" where
  "py_unicode v =
     (case v of
        VNone \<Rightarrow> ''None''
      | VBool b \<Rightarrow> (if b then ''True'' else ''False'')
      | VInt i \<Rightarrow> str_int i
      | VText s \<Rightarrow> s)"

text \<open>
  \<^verbatim>\<open>int(s)\<close> of a string: white space around an optional sign and decimal digits;
  anything else is a \<^verbatim>\<open>ValueError\<close>.
\<close>

definition whitespace :: string where
  "whitespace = [CHR '' '', CHR 0x09, CHR 0x0A, CHR 0x0B, CHR 0x0C, CHR 0x0D]"

definition digit_val :: "char \<Rightarrow> nat option" where
  "digit_val c =
     (let n = (of_char c :: nat) in if 48 \<le> n \<and> n \<le> 57 then Some (n - 48) else None)"

fun digits_val :: "string \<Rightarrow> nat \<Rightarrow> nat option" where
  "digits_val [] acc = Some acc"
| "digits_val (c # cs) acc =
     (case digit_val c of None \<Rightarrow> None | Some d \<Rightarrow> digits_val cs (10 * acc + d))"

definition int_of_string :: "string \<Rightarrow> error + int" where
  "int_of_string s =
     (case strip whitespace s of
        [] \<Rightarrow> Inl ValueError
      | c # cs \<Rightarrow>
          if c = CHR ''-'' \<or> c = CHR ''+'' then
            (if cs = [] then Inl ValueError
             else case digits_val cs 0 of
                    None \<Rightarrow> Inl ValueError
                  | Some n \<Rightarrow> Inr (if c = CHR ''-'' then - int n else int n))
          else
            (case digits_val (c # cs) 0 of
               None \<Rightarrow> Inl ValueError
             | Some n \<Rightarrow> Inr (int n)))"

text \<open>\<^verbatim>\<open>int(x)\<close> of a value.\<close>

definition py_int :: "val \<Rightarrow> error + int" where
  "py_int v =
     (case v of
        VNone \<Rightarrow> Inl TypeError
      | VBool b \<Rightarrow> Inr (if b then 1 else 0)
      | VInt i \<Rightarrow> Inr i
      | VText s \<Rightarrow> int_of_string s)"

text \<open>
  \<^verbatim>\<open>NoteBookAttr(name, datatype, key)\<close>. The writer and the reader of an attribute
  are the defaults its constructor picks from the datatype: booleans are written as
  \<^verbatim>\<open>unicode(int(x))\<close> and read as \<^verbatim>\<open>bool(int(x))\<close>, every other datatype is written with
  \<^verbatim>\<open>unicode\<close> and read with the datatype itself.
\<close>

datatype attr_type = TUnicode | TInt | TBool

record NoteBookAttr =
  attr_name :: string
  attr_datatype :: attr_type
  attr_key :: string

definition attr_write :: "NoteBookAttr \<Rightarrow> val \<Rightarrow> error + string" where
  "attr_write a v =
     (if attr_datatype a = TBool then
        (case py_int v of Inl e \<Rightarrow> Inl e | Inr i \<Rightarrow> Inr (str_int i))
      else Inr (py_unicode v))"

definition attr_read :: "NoteBookAttr \<Rightarrow> string \<Rightarrow> error + val" where
  "attr_read a x =
     (case attr_datatype a of
        TBool \<Rightarrow> (case int_of_string x of Inl e \<Rightarrow> Inl e | Inr i \<Rightarrow> Inr (VBool (i \<noteq> 0)))
      | TInt \<Rightarrow> (case int_of_string x of Inl e \<Rightarrow> Inl e | Inr i \<Rightarrow> Inr (VInt i))
      | TUnicode \<Rightarrow> Inr (VText x))"

definition g_default_attrs :: "NoteBookAttr list" where
  "g_default_attrs =
     [\<lparr>attr_name = ''Title'', attr_datatype = TUnicode, attr_key = ''title''\<rparr>,
      \<lparr>attr_name = ''Content type'', attr_datatype = TUnicode, attr_key = ''content_type''\<rparr>,
      \<lparr>attr_name = ''Order'', attr_datatype = TInt, attr_key = ''order''\<rparr>,
      \<lparr>attr_name = ''Created'', attr_datatype = TInt, attr_key = ''created_time''\<rparr>,
      \<lparr>attr_name = ''Modified'', attr_datatype = TInt, attr_key = ''modified_time''\<rparr>,
      \<lparr>attr_name = ''Expaned'', attr_datatype = TBool, attr_key = ''expanded''\<rparr>,
      \<lparr>attr_name = ''Expanded2'', attr_datatype = TBool, attr_key = ''expanded2''\<rparr>,
      \<lparr>attr_name = ''Folder Sort'', attr_datatype = TInt, attr_key = ''info_sort''\<rparr>,
      \<lparr>attr_name = ''Folder Sort Direction'', attr_datatype = TInt,
        attr_key = ''info_sort_dir''\<rparr>]"

text \<open>
  A Python dictionary is an association list with distinct keys; its order is the order
  in which the dictionary is iterated. \<open>dict_update d e\<close> is \<^verbatim>\<open>d.update(e)\<close>.
\<close>

type_synonym 'v dict = "(string \<times> 'v) list"

definition dict_update :: "'v dict \<Rightarrow> 'v dict \<Rightarrow> 'v dict" where
  "dict_update d e = fold (\<lambda>kv. AList.update (fst kv) (snd kv)) e d"

text \<open>
  \<^verbatim>\<open>self.notebook_attrs\<close> as \<^verbatim>\<open>NoteBook.__init__\<close> fills it from
  \<^verbatim>\<open>g_default_attrs\<close>.
\<close>

definition notebook_attrs_init :: "NoteBookAttr dict" where
  "notebook_attrs_init =
     fold (\<lambda>a d. AList.update (attr_key a) a d) g_default_attrs []"

subsection \<open>File system operations\<close>

text \<open>
  The operations of the operating system the program calls, on the table above. A path
  whose directory part is empty lies in the current directory, which always exists.
  An operation on a denied path fails; \<open>os_rename\<close> and \<open>shutil\<close>-like removals are
  taken as one step.
\<close>

definition parent_ok :: "filesystem \<Rightarrow> string \<Rightarrow> bool" where
  "parent_ok fs p = (os_path_dirname p = [] \<or> os_path_isdir fs (os_path_dirname p))"

text \<open>\<^verbatim>\<open>os.listdir(path)\<close>: the names directly under \<open>path\<close>, in the table's order.\<close>

definition os_listdir :: "filesystem \<Rightarrow> string \<Rightarrow> error + string list" where
  "os_listdir fs path =
     (if \<not> os_path_isdir fs path \<or> path \<in> set (denied fs) then Inl OSError
      else Inr (map os_path_basename
             (filter (\<lambda>k. os_path_basename k \<noteq> [] \<and> k \<noteq> path \<and>
                          k = os_path_join path (os_path_basename k))
                (map fst (entries fs)))))"

text \<open>\<^verbatim>\<open>os.mkdir(path)\<close>.\<close>

definition os_mkdir :: "filesystem \<Rightarrow> string \<Rightarrow> error + filesystem" where
  "os_mkdir fs p =
     (if os_path_exists fs p \<or> \<not> parent_ok fs p \<or> p \<in> set (denied fs) then Inl OSError
      else Inr (fs\<lparr>entries := entries fs @ [(p, EDir)]\<rparr>))"

text \<open>
  \<^verbatim>\<open>os.rename(src, dst)\<close>: \<open>src\<close> and everything below it moves to \<open>dst\<close>. It fails
  when \<open>src\<close> does not exist, when \<open>dst\<close> exists or has no parent directory, and when
  either path is denied.
\<close>

definition rename_key :: "string \<Rightarrow> string \<Rightarrow> string \<Rightarrow> string" where
  "rename_key src dst k =
     (if k = src then dst
      else if startswith k (src @ ''/'') then dst @ drop (length src) k
      else k)"

definition os_rename :: "filesystem \<Rightarrow> string \<Rightarrow> string \<Rightarrow> error + filesystem" where
  "os_rename fs src dst =
     (if \<not> os_path_exists fs src \<or> os_path_exists fs dst \<or> \<not> parent_ok fs dst
         \<or> src \<in> set (denied fs) \<or> dst \<in> set (denied fs)
      then Inl OSError
      else Inr (fs\<lparr>entries := map (\<lambda>ke. (rename_key src dst (fst ke), snd ke)) (entries fs)\<rparr>))"

text \<open>
  Modelled from the spec: \<^verbatim>\<open>keepnote.safefile\<close> is not under \<^verbatim>\<open>src/\<close>. The spec
  has a file written to a temporary location and put in place of the target in one
  step: \<open>safefile_write\<close> replaces the content of the file, or raises \<^verbatim>\<open>IOError\<close> and
  leaves the file system as it was. A file's content is its sequence of characters (the
  UTF-8 codec of the writer and the decoder of the reader undo each other).
\<close>

definition safefile_openable :: "filesystem \<Rightarrow> string \<Rightarrow> bool" where
  "safefile_openable fs p =
     (p \<notin> set (denied fs) \<and> parent_ok fs p \<and> \<not> os_path_isdir fs p)"

definition safefile_write :: "filesystem \<Rightarrow> string \<Rightarrow> string \<Rightarrow> error + filesystem" where
  "safefile_write fs p content =
     (if \<not> safefile_openable fs p then Inl IOError
      else Inr (fs\<lparr>entries := AList.update p (EFile content) (entries fs)\<rparr>))"

text \<open>\<^verbatim>\<open>open(filename, "rb")\<close> and reading the file to its end.\<close>

definition read_file :: "filesystem \<Rightarrow> string \<Rightarrow> error + string" where
  "read_file fs p =
     (case map_of (entries fs) p of
        Some (EFile content) \<Rightarrow> Inr content
      | _ \<Rightarrow> Inl IOError)"

subsection \<open>Writing node meta data\<close>

definition dquote :: char where
  "dquote = CHR 0x22"

definition newline :: char where
  "newline = CHR 0x0A"

definition XML_HEADER :: string where
  "XML_HEADER = ''<?xml version='' @ [dquote] @ ''1.0'' @ [dquote] @ '' encoding='' @ [dquote]
     @ ''UTF-8'' @ [dquote] @ ''?>'' @ [newline]"

text \<open>
  \<^verbatim>\<open>xml.sax.saxutils.escape\<close>: \<^verbatim>\<open>&\<close>, \<^verbatim>\<open>>\<close> and \<^verbatim>\<open><\<close> are replaced by their
  entities (the ampersand first, so that no entity is escaped twice: character by
  character).
\<close>

definition escape_char :: "char \<Rightarrow> string" where
  "escape_char c =
     (if c = CHR ''&'' then ''&amp;''
      else if c = CHR ''>'' then ''&gt;''
      else if c = CHR ''<'' then ''&lt;''
      else [c])"

definition escape :: "string \<Rightarrow> string" where
  "escape s = concat (map escape_char s)"

text \<open>The line \<^verbatim>\<open>'<attr key="%s">%s</attr>\n' % (key, text)\<close>.\<close>

definition attr_line :: "string \<Rightarrow> string \<Rightarrow> string" where
  "attr_line key text =
     ''<attr key='' @ [dquote] @ key @ [dquote] @ ''>'' @ text @ ''</attr>'' @ [newline]"

text \<open>
  The loop of \<^verbatim>\<open>NoteBookNodeMetaData.write\<close> over \<^verbatim>\<open>node.iter_attr()\<close>: an
  attribute of the schema is written through its writer, \<^verbatim>\<open>version\<close> is skipped, any
  other attribute is written when its value is a string and dropped otherwise.
\<close>

fun write_attrs :: "NoteBookAttr dict \<Rightarrow> val dict \<Rightarrow> error + string" where
  "write_attrs schema [] = Inr []"
| "write_attrs schema ((key, v) # rest) =
     (case map_of schema key of
        Some a \<Rightarrow>
          (case attr_write a v of
             Inl e \<Rightarrow> Inl e
           | Inr w \<Rightarrow>
               (case write_attrs schema rest of
                  Inl e \<Rightarrow> Inl e
                | Inr out \<Rightarrow> Inr (attr_line key (escape w) @ out)))
      | None \<Rightarrow>
          if key = ''version'' then write_attrs schema rest
          else
            (case v of
               VText s \<Rightarrow>
                 (case write_attrs schema rest of
                    Inl e \<Rightarrow> Inl e
                  | Inr out \<Rightarrow> Inr (attr_line (escape key) (escape s) @ out))
             | _ \<Rightarrow> write_attrs schema rest))"

definition meta_document :: "val \<Rightarrow> string \<Rightarrow> string" where
  "meta_document version body =
     XML_HEADER @ ''<node>'' @ [newline] @ ''<version>'' @ py_unicode version @ ''</version>''
       @ [newline] @ body @ ''</node>'' @ [newline]"

text \<open>
  \<^verbatim>\<open>NoteBookNodeMetaData.write(filename, node, notebook_attrs)\<close>, with the node given
  by its version and its attributes. Every exception is wrapped.
\<close>

definition MetaData_write ::
  "filesystem \<Rightarrow> string \<Rightarrow> val \<Rightarrow> val dict \<Rightarrow> NoteBookAttr dict \<Rightarrow> error + filesystem" where
  "MetaData_write fs filename version attrs schema =
     (if \<not> safefile_openable fs filename
      then Inl (NoteBookError ''Cannot write meta data'' (Some IOError))
      else
        (case write_attrs schema attrs of
           Inl e \<Rightarrow> Inl (NoteBookError ''Cannot write meta data'' (Some e))
         | Inr body \<Rightarrow>
             (case safefile_write fs filename (meta_document version body) of
                Inl e \<Rightarrow> Inl (NoteBookError ''Cannot write meta data'' (Some e))
              | Inr fs' \<Rightarrow> Inr fs')))"

subsection \<open>The XML parser\<close>

text \<open>
  \<^verbatim>\<open>xml.parsers.expat\<close> is a library outside the repository. It is modelled on the
  documents \<^verbatim>\<open>NoteBookNodeMetaData.write\<close> can produce: processing instructions,
  start tags with quoted attributes, end tags, empty-element tags and character data
  with the five predefined entities. As XML 1.0 requires, a carriage return (alone or
  before a line feed) reaches the handlers as one line feed, a control character other
  than tab, line feed and carriage return is not well-formed, and so are tags that do
  not nest, text outside the root element and a missing root element. Comments,
  \<^verbatim>\<open>DOCTYPE\<close>, \<^verbatim>\<open>CDATA\<close> sections and numeric character references are outside the
  model and are reported as errors. The parser calls the handlers for what precedes
  the first error.
\<close>

datatype xml_event =
    StartElement string "string dict"
  | EndElement string
  | CharacterData string

definition xml_entity :: "string \<Rightarrow> char option" where
  "xml_entity name =
     (if name = ''amp'' then Some (CHR ''&'')
      else if name = ''lt'' then Some (CHR ''<'')
      else if name = ''gt'' then Some (CHR ''>'')
      else if name = ''quot'' then Some dquote
      else if name = ''apos'' then Some (CHR 0x27)
      else None)"

definition xml_char_ok :: "char \<Rightarrow> bool" where
  "xml_char_ok c =
     (let n = (of_char c :: nat) in n = 9 \<or> n = 10 \<or> n = 13 \<or> 32 \<le> n)"

text \<open>\<open>split_on c s\<close>: what precedes the first \<open>c\<close> in \<open>s\<close>, and what follows it.\<close>

fun split_on :: "char \<Rightarrow> string \<Rightarrow> (string \<times> string) option" where
  "split_on c [] = None"
| "split_on c (x # xs) =
     (if x = c then Some ([], xs)
      else case split_on c xs of None \<Rightarrow> None | Some (a, b) \<Rightarrow> Some (x # a, b))"

lemma split_on_length: "split_on c s = Some (a, b) \<Longrightarrow> length b < length s"
  by (induction s arbitrary: a) (auto split: if_splits option.splits)

text \<open>Character data between two tags, as the handler receives it.\<close>

function xml_chardata :: "string \<Rightarrow> string option" where
  "xml_chardata [] = Some []"
| "xml_chardata (c # cs) =
     (if c = CHR ''&'' then
        (case split_on (CHR '';'') cs of
           None \<Rightarrow> None
         | Some (name, rest) \<Rightarrow>
             (case xml_entity name of
                None \<Rightarrow> None
              | Some ch \<Rightarrow> map_option (Cons ch) (xml_chardata rest)))
      else if c = CHR 0x0D then
        (case cs of
           [] \<Rightarrow> Some [newline]
         | d # ds \<Rightarrow>
             if d = newline then map_option (Cons newline) (xml_chardata ds)
             else map_option (Cons newline) (xml_chardata (d # ds)))
      else if xml_char_ok c then map_option (Cons c) (xml_chardata cs)
      else None)"
  by pat_completeness auto

termination xml_chardata
  by (relation "measure length") (auto dest: split_on_length)

text \<open>
  An attribute value between its quotes: entities are replaced and white space
  characters become blanks.
\<close>

function xml_attvalue :: "string \<Rightarrow> string option" where
  "xml_attvalue [] = Some []"
| "xml_attvalue (c # cs) =
     (if c = CHR ''&'' then
        (case split_on (CHR '';'') cs of
           None \<Rightarrow> None
         | Some (name, rest) \<Rightarrow>
             (case xml_entity name of
                None \<Rightarrow> None
              | Some ch \<Rightarrow> map_option (Cons ch) (xml_attvalue rest)))
      else if c = CHR ''<'' then None
      else if c = CHR 0x0D \<or> c = CHR 0x0A \<or> c = CHR 0x09
        then map_option (Cons (CHR '' '')) (xml_attvalue cs)
      else if xml_char_ok c then map_option (Cons c) (xml_attvalue cs)
      else None)"
  by pat_completeness auto

termination xml_attvalue
  by (relation "measure length") (auto dest: split_on_length)

definition xml_space :: string where
  "xml_space = [CHR '' '', CHR 0x09, CHR 0x0A, CHR 0x0D]"

definition xml_name_char :: "char \<Rightarrow> bool" where
  "xml_name_char c =
     (let n = (of_char c :: nat) in
      (65 \<le> n \<and> n \<le> 90) \<or> (97 \<le> n \<and> n \<le> 122) \<or> (48 \<le> n \<and> n \<le> 57)
      \<or> c = CHR ''_'' \<or> c = CHR '':'' \<or> c = CHR ''-'' \<or> c = CHR ''.'' \<or> 128 \<le> n)"

definition xml_name_ok :: "string \<Rightarrow> bool" where
  "xml_name_ok name =
     (case name of
        [] \<Rightarrow> False
      | c # cs \<Rightarrow>
          list_all xml_name_char name \<and> digit_val c = None \<and> c \<noteq> CHR ''-'' \<and> c \<noteq> CHR ''.'')"

text \<open>
  One attribute of a start tag: white space, a name, \<^verbatim>\<open>=\<close>, and the value between
  two quotes of one kind. The result is the attribute and the rest of the tag.
\<close>

definition parse_attr1 :: "string \<Rightarrow> ((string \<times> string) \<times> string) option" where
  "parse_attr1 s =
     (case s of
        [] \<Rightarrow> None
      | c # cs \<Rightarrow>
          if c \<notin> set xml_space then None
          else
            let s1 = dropWhile (\<lambda>x. x \<in> set xml_space) cs;
                name = takeWhile (\<lambda>x. x \<noteq> CHR ''='' \<and> x \<notin> set xml_space) s1;
                r1 = dropWhile (\<lambda>x. x \<in> set xml_space)
                       (dropWhile (\<lambda>x. x \<noteq> CHR ''='' \<and> x \<notin> set xml_space) s1)
            in
              (case r1 of
                 [] \<Rightarrow> None
               | e # r2 \<Rightarrow>
                   if e \<noteq> CHR ''='' \<or> \<not> xml_name_ok name then None
                   else
                     (case dropWhile (\<lambda>x. x \<in> set xml_space) r2 of
                        [] \<Rightarrow> None
                      | q # r4 \<Rightarrow>
                          if q \<noteq> dquote \<and> q \<noteq> CHR 0x27 then None
                          else
                            (case split_on q r4 of
                               None \<Rightarrow> None
                             | Some (raw, r5) \<Rightarrow>
                                 (case xml_attvalue raw of
                                    None \<Rightarrow> None
                                  | Some v \<Rightarrow> Some ((name, v), r5))))))"

lemma parse_attr1_length: "parse_attr1 s = Some (kv, rest) \<Longrightarrow> length rest < length s"
proof -
  assume a: "parse_attr1 s = Some (kv, rest)"
  then obtain c cs where s: "s = c # cs" by (cases s) (simp_all add: parse_attr1_def)
  define s1 where "s1 = dropWhile (\<lambda>x. x \<in> set xml_space) cs"
  define nm where "nm = takeWhile (\<lambda>x. x \<noteq> CHR ''='' \<and> x \<notin> set xml_space) s1"
  define r1 where "r1 = dropWhile (\<lambda>x. x \<in> set xml_space)
                       (dropWhile (\<lambda>x. x \<noteq> CHR ''='' \<and> x \<notin> set xml_space) s1)"
  have b: "(case r1 of
                 [] \<Rightarrow> None
               | e # r2 \<Rightarrow>
                   if e \<noteq> CHR ''='' \<or> \<not> xml_name_ok nm then None
                   else
                     (case dropWhile (\<lambda>x. x \<in> set xml_space) r2 of
                        [] \<Rightarrow> None
                      | q # r4 \<Rightarrow>
                          if q \<noteq> dquote \<and> q \<noteq> CHR 0x27 then None
                          else
                            (case split_on q r4 of
                               None \<Rightarrow> None
                             | Some (raw, r5) \<Rightarrow>
                                 (case xml_attvalue raw of
                                    None \<Rightarrow> None
                                  | Some v \<Rightarrow> Some ((nm, v), r5))))) = Some (kv, rest)"
    using a unfolding s parse_attr1_def s1_def nm_def r1_def Let_def
    by (simp split: if_splits)
  then obtain e r2 q r4 raw where r1: "r1 = e # r2"
    and r3: "dropWhile (\<lambda>x. x \<in> set xml_space) r2 = q # r4"
    and sp: "split_on q r4 = Some (raw, rest)"
    by (auto split: list.splits if_splits option.splits prod.splits)
  have "length rest < length r4" using sp by (rule split_on_length)
  also have "length r4 < length (dropWhile (\<lambda>x. x \<in> set xml_space) r2)" using r3 by simp
  also have "\<dots> \<le> length r2" by (rule length_dropWhile_le)
  also have "length r2 < length r1" using r1 by simp
  also have "length r1 \<le> length s1"
    unfolding r1_def using length_dropWhile_le order_trans by blast
  also have "length s1 \<le> length cs" unfolding s1_def by (rule length_dropWhile_le)
  finally show ?thesis using s by simp
qed

function parse_attrs :: "string \<Rightarrow> string dict option" where
  "parse_attrs s =
     (if dropWhile (\<lambda>x. x \<in> set xml_space) s = [] then Some []
      else
        (case parse_attr1 s of
           None \<Rightarrow> None
         | Some (kv, rest) \<Rightarrow> map_option (Cons kv) (parse_attrs rest)))"
  by pat_completeness auto

termination parse_attrs
proof (relation "measure length")
  show "wf (measure length)" by simp
next
  fix s :: string and x2 x y
  assume "parse_attr1 s = Some x2" and "(x, y) = x2"
  then have "length y < length s" using parse_attr1_length by blast
  then show "(y, s) \<in> measure length" by simp
qed

declare parse_attrs.simps [simp del]

text \<open>What stands between \<^verbatim>\<open><\<close> and \<^verbatim>\<open>>\<close>, as the events it stands for.\<close>

definition parse_tag :: "string \<Rightarrow> xml_event list option" where
  "parse_tag body =
     (case body of
        [] \<Rightarrow> None
      | c # cs \<Rightarrow>
          if c = CHR ''?'' then (if cs \<noteq> [] \<and> last cs = CHR ''?'' then Some [] else None)
          else if c = CHR ''!'' then None
          else if c = CHR ''/'' then
            (let name = rev (dropWhile (\<lambda>x. x \<in> set xml_space) (rev cs)) in
             if xml_name_ok name then Some [EndElement name] else None)
          else
            (let empty = (last body = CHR ''/'');
                 b = (if empty then butlast body else body);
                 name = takeWhile (\<lambda>x. x \<notin> set xml_space) b;
                 rest = dropWhile (\<lambda>x. x \<notin> set xml_space) b
             in
               if \<not> xml_name_ok name then None
               else
                 (case parse_attrs rest of
                    None \<Rightarrow> None
                  | Some attrs \<Rightarrow>
                      if \<not> distinct (map fst attrs) then None
                      else Some (StartElement name attrs
                                 # (if empty then [EndElement name] else [])))))"

text \<open>
  The end of a tag: the first \<^verbatim>\<open>>\<close> outside a quoted attribute value. The result is
  the tag's text and what follows the tag.
\<close>

fun scan_tag :: "string \<Rightarrow> char option \<Rightarrow> (string \<times> string) option" where
  "scan_tag [] q = None"
| "scan_tag (c # cs) None =
     (if c = CHR ''>'' then Some ([], cs)
      else if c = CHR ''<'' then None
      else
        (case scan_tag cs (if c = dquote \<or> c = CHR 0x27 then Some c else None) of
           None \<Rightarrow> None
         | Some (a, b) \<Rightarrow> Some (c # a, b)))"
| "scan_tag (c # cs) (Some q) =
     (if c = CHR ''<'' then None
      else
        (case scan_tag cs (if c = q then None else Some q) of
           None \<Rightarrow> None
         | Some (a, b) \<Rightarrow> Some (c # a, b)))"

lemma scan_tag_length: "scan_tag s q = Some (a, b) \<Longrightarrow> length b < length s"
  by (induction s q arbitrary: a rule: scan_tag.induct)
     (auto split: if_splits option.splits)

text \<open>
  The tokens of a document, and whether the whole text could be read; after an error the
  tokens are those before it.
\<close>

definition prepend :: "'a list \<Rightarrow> 'a list \<times> bool \<Rightarrow> 'a list \<times> bool" where
  "prepend xs r = (xs @ fst r, snd r)"

function expat_tokens :: "string \<Rightarrow> xml_event list \<times> bool" where
  "expat_tokens [] = ([], True)"
| "expat_tokens (c # cs) =
     (if c = CHR ''<'' then
        (case scan_tag cs None of
           None \<Rightarrow> ([], False)
         | Some (body, rest) \<Rightarrow>
             (case parse_tag body of
                None \<Rightarrow> ([], False)
              | Some evs \<Rightarrow> prepend evs (expat_tokens rest)))
      else
        (case xml_chardata (takeWhile (\<lambda>x. x \<noteq> CHR ''<'') (c # cs)) of
           None \<Rightarrow> ([], False)
         | Some d \<Rightarrow>
             prepend [CharacterData d] (expat_tokens (dropWhile (\<lambda>x. x \<noteq> CHR ''<'') cs))))"
  by pat_completeness auto

lemma scan_tag_shorter:
  "scan_tag cs q = Some x \<Longrightarrow> (a, b) = x \<Longrightarrow> (b, c # cs) \<in> measure length"
  using scan_tag_length[of cs q a b] by auto

lemma dropWhile_shorter: "(dropWhile P cs, c # cs) \<in> measure length"
  by (simp add: le_imp_less_Suc length_dropWhile_le)

termination expat_tokens
  apply (relation "measure length")
    apply (rule wf_measure)
   apply (blast intro: scan_tag_shorter)
  apply (rule dropWhile_shorter)
  done

declare expat_tokens.simps [simp del]

text \<open>
  Nesting: the stack of open elements and whether the root element has been closed.
  White space outside the root element is not passed to the character data handler.
\<close>

fun expat_nesting :: "xml_event list \<Rightarrow> string list \<Rightarrow> bool \<Rightarrow> xml_event list \<times> bool" where
  "expat_nesting [] stack closed = ([], stack = [] \<and> closed)"
| "expat_nesting (StartElement n a # es) stack closed =
     (if stack = [] \<and> closed then ([], False)
      else prepend [StartElement n a] (expat_nesting es (n # stack) closed))"
| "expat_nesting (EndElement n # es) stack closed =
     (case stack of
        [] \<Rightarrow> ([], False)
      | m # st \<Rightarrow>
          if m \<noteq> n then ([], False)
          else prepend [EndElement n] (expat_nesting es st (closed \<or> st = [])))"
| "expat_nesting (CharacterData d # es) stack closed =
     (if stack = [] then
        (if list_all (\<lambda>x. x \<in> set xml_space) d then expat_nesting es stack closed
         else ([], False))
      else prepend [CharacterData d] (expat_nesting es stack closed))"

definition expat_parse :: "string \<Rightarrow> xml_event list \<times> bool" where
  "expat_parse text =
     (let toks = expat_tokens text; evs = expat_nesting (fst toks) [] False
      in (fst evs, snd toks \<and> snd evs))"

subsection \<open>Reading node meta data\<close>

text \<open>
  The fields of \<^verbatim>\<open>NoteBookNodeMetaData\<close> the handlers work on: \<^verbatim>\<open>__meta_root\<close>,
  \<^verbatim>\<open>__meta_data\<close>, \<^verbatim>\<open>__meta_tag\<close>, \<^verbatim>\<open>__meta_attr\<close> and \<^verbatim>\<open>attr\<close>.
\<close>

record meta_state =
  meta_root :: bool
  meta_data :: "string option"
  meta_tag :: "string option"
  meta_attr :: "string dict option"
  attr :: "val dict"

text \<open>\<^verbatim>\<open>__meta_start_element(name, attrs)\<close>.\<close>

definition meta_start_element ::
  "meta_state \<Rightarrow> string \<Rightarrow> string dict \<Rightarrow> error + meta_state" where
  "meta_start_element ms name attrs =
     (if meta_root ms then
        (if meta_tag ms \<noteq> None then Inl CorruptMetaFile
         else Inr (ms\<lparr>meta_tag := Some name, meta_attr := Some attrs, meta_data := Some []\<rparr>))
      else if name = ''node'' then Inr (ms\<lparr>meta_root := True\<rparr>)
      else Inr ms)"

text \<open>
  \<^verbatim>\<open>__meta_end_element(name)\<close>. \<^verbatim>\<open>int(None)\<close> is a \<^verbatim>\<open>TypeError\<close> and
  \<^verbatim>\<open>None.get\<close> an \<^verbatim>\<open>AttributeError\<close>.
\<close>

definition meta_end_element ::
  "NoteBookAttr dict \<Rightarrow> meta_state \<Rightarrow> string \<Rightarrow> error + meta_state" where
  "meta_end_element schema ms0 name =
     (let ms = (if name = ''node'' then ms0\<lparr>meta_root := False\<rparr> else ms0);
          cleared = ms\<lparr>meta_tag := None, meta_attr := None, meta_data := None\<rparr>
      in
        if \<not> meta_root ms then Inr ms
        else if meta_tag ms = Some ''version'' then
          (case meta_data ms of
             None \<Rightarrow> Inl TypeError
           | Some d \<Rightarrow>
               (case int_of_string d of
                  Inl e \<Rightarrow> Inl e
                | Inr i \<Rightarrow>
                    Inr (cleared\<lparr>attr := AList.update ''version'' (VInt i) (attr ms)\<rparr>)))
        else if meta_tag ms = Some ''attr'' then
          (case meta_attr ms of
             None \<Rightarrow> Inl AttributeError
           | Some tag_attrs \<Rightarrow>
               (case map_of tag_attrs ''key'' of
                  None \<Rightarrow> Inr cleared
                | Some key \<Rightarrow>
                    (case map_of schema key of
                       Some a \<Rightarrow>
                         (case meta_data ms of
                            None \<Rightarrow> Inl TypeError
                          | Some d \<Rightarrow>
                              (case attr_read a d of
                                 Inl e \<Rightarrow> Inl e
                               | Inr v \<Rightarrow>
                                   Inr (cleared\<lparr>attr := AList.update key v (attr ms)\<rparr>)))
                     | None \<Rightarrow>
                         (case meta_data ms of
                            None \<Rightarrow> Inr (cleared\<lparr>attr := AList.update key VNone (attr ms)\<rparr>)
                          | Some d \<Rightarrow>
                              Inr (cleared\<lparr>attr := AList.update key (VText d) (attr ms)\<rparr>)))))
        else Inr cleared)"

text \<open>\<^verbatim>\<open>__meta_char_data(data)\<close>.\<close>

definition meta_char_data :: "meta_state \<Rightarrow> string \<Rightarrow> meta_state" where
  "meta_char_data ms data =
     (case meta_data ms of
        None \<Rightarrow> ms
      | Some d \<Rightarrow> ms\<lparr>meta_data := Some (d @ data)\<rparr>)"

text \<open>The parser calling the handlers, event by event, until one raises.\<close>

fun meta_events :: "NoteBookAttr dict \<Rightarrow> meta_state \<Rightarrow> xml_event list \<Rightarrow> error + meta_state" where
  "meta_events schema ms [] = Inr ms"
| "meta_events schema ms (StartElement n a # es) =
     (case meta_start_element ms n a of
        Inl e \<Rightarrow> Inl e
      | Inr ms' \<Rightarrow> meta_events schema ms' es)"
| "meta_events schema ms (EndElement n # es) =
     (case meta_end_element schema ms n of
        Inl e \<Rightarrow> Inl e
      | Inr ms' \<Rightarrow> meta_events schema ms' es)"
| "meta_events schema ms (CharacterData d # es) =
     meta_events schema (meta_char_data ms d) es"

text \<open>
  \<^verbatim>\<open>NoteBookNodeMetaData.read(filename, notebook_attrs)\<close>: the attributes read, or
  the wrapped exception. \<open>now\<close> is what \<^verbatim>\<open>get_timestamp()\<close> returns.
\<close>

definition meta_defaults :: "int \<Rightarrow> val dict \<Rightarrow> val dict" where
  "meta_defaults now d =
     (let d1 = (if map_of d ''created_time'' = Some VNone
                then AList.update ''created_time'' (VInt now) d else d)
      in if map_of d1 ''modified_time'' = Some VNone
         then AList.update ''modified_time'' (VInt now) d1 else d1)"

definition MetaData_read ::
  "filesystem \<Rightarrow> int \<Rightarrow> string \<Rightarrow> NoteBookAttr dict \<Rightarrow> error + val dict" where
  "MetaData_read fs now filename schema =
     (case read_file fs filename of
        Inl e \<Rightarrow> Inl (NoteBookError ''Cannot read meta data'' (Some e))
      | Inr text \<Rightarrow>
          (case meta_events schema
                  \<lparr>meta_root = False, meta_data = None, meta_tag = None, meta_attr = None,
                   attr = [(''created_time'', VNone), (''modified_time'', VNone)]\<rparr>
                  (fst (expat_parse text)) of
             Inl e \<Rightarrow> Inl (NoteBookError ''Cannot read meta data'' (Some e))
           | Inr ms \<Rightarrow>
               if \<not> snd (expat_parse text)
               then Inl (NoteBookError ''Cannot read meta data'' (Some ExpatError))
               else Inr (meta_defaults now (attr ms))))"

subsection \<open>Nodes, the notebook and the program state\<close>

text \<open>
  A node object is a record; \<open>n_class\<close> is its Python class, which decides the method
  an overridden call reaches. Objects are referred to by their identity, a number, and
  \<open>heap\<close> maps the identities to the objects; \<open>next_id\<close> is the next fresh identity,
  above those of all objects. A state holds one notebook: its fields \<^verbatim>\<open>pref\<close>,
  \<^verbatim>\<open>_dirty\<close>, \<^verbatim>\<open>_trash\<close>, \<^verbatim>\<open>_trash_path\<close> and \<^verbatim>\<open>notebook_attrs\<close> are fields of
  the state, and a node's \<^verbatim>\<open>_notebook\<close> is \<^verbatim>\<open>None\<close> or this notebook. The set
  \<^verbatim>\<open>_dirty\<close> is a duplicate-free list, in the order in which it is iterated. Every
  node has a string as its basename (the notebook is made with a root directory).
  \<open>clock\<close> is what \<^verbatim>\<open>get_timestamp()\<close> returns, and \<open>notified\<close> records the calls of
  \<^verbatim>\<open>node_changed.notify(nodes, recurse)\<close>.
\<close>

datatype node_class = CPage | CDir | CTrash | CNoteBook

record node =
  n_class :: node_class
  n_notebook :: "nat option"
  n_parent :: "nat option"
  n_basename :: string
  n_children :: "nat list option"
  n_valid :: bool
  n_version :: val
  n_meta :: "val dict"
  n_attr :: "val dict"

record preferences =
  pref_version :: int
  pref_default_font :: string

record state =
  heap :: "nat \<Rightarrow> node"
  next_id :: nat
  nb_pref :: preferences
  nb_dirty :: "nat list"
  nb_trash :: "nat option"
  nb_trash_path :: string
  nb_notebook_attrs :: "NoteBookAttr dict"
  files :: filesystem
  clock :: int
  notified :: "(nat list \<times> bool) list"

text \<open>
  The result of a call: the exception raised or the value returned, and the state the
  call leaves behind. \<open>then_do\<close> runs the next statement unless the call raised.
\<close>

definition then_do ::
  "(error + 'a) \<times> state \<Rightarrow> ('a \<Rightarrow> state \<Rightarrow> (error + 'b) \<times> state) \<Rightarrow> (error + 'b) \<times> state" where
  "then_do r f = (case r of (Inl e, s) \<Rightarrow> (Inl e, s) | (Inr a, s) \<Rightarrow> f a s)"

definition node_upd :: "state \<Rightarrow> nat \<Rightarrow> (node \<Rightarrow> node) \<Rightarrow> state" where
  "node_upd s n f = s\<lparr>heap := (heap s)(n := f (heap s n))\<rparr>"

definition set_attr_raw :: "state \<Rightarrow> nat \<Rightarrow> string \<Rightarrow> val \<Rightarrow> state" where
  "set_attr_raw s n name v = node_upd s n (\<lambda>x. x\<lparr>n_attr := AList.update name v (n_attr x)\<rparr>)"

subsection \<open>File naming scheme\<close>

definition get_node_meta_file :: "string \<Rightarrow> string" where
  "get_node_meta_file nodepath = os_path_join nodepath NODE_META_FILE"

definition get_page_data_file :: "string \<Rightarrow> string" where
  "get_page_data_file pagepath = os_path_join pagepath PAGE_DATA_FILE"

definition get_pref_file :: "string \<Rightarrow> string" where
  "get_pref_file nodepath = os_path_join nodepath PREF_FILE"

definition get_pref_dir :: "string \<Rightarrow> string" where
  "get_pref_dir nodepath = os_path_join nodepath NOTEBOOK_META_DIR"

definition get_trash_dir :: "string \<Rightarrow> string" where
  "get_trash_dir nodepath = os_path_join nodepath TRASH_DIR"

subsection \<open>Dirty tracking\<close>

text \<open>\<^verbatim>\<open>NoteBook._set_dirty_node(node, dirty)\<close>.\<close>

definition NoteBook_set_dirty_node :: "state \<Rightarrow> nat \<Rightarrow> bool \<Rightarrow> state" where
  "NoteBook_set_dirty_node s node d =
     (if d then
        s\<lparr>nb_dirty := (if node \<in> set (nb_dirty s) then nb_dirty s else nb_dirty s @ [node])\<rparr>
      else s\<lparr>nb_dirty := removeAll node (nb_dirty s)\<rparr>)"

text \<open>\<^verbatim>\<open>NoteBook._is_dirty_node(node)\<close>.\<close>

definition NoteBook_is_dirty_node :: "state \<Rightarrow> nat \<Rightarrow> bool" where
  "NoteBook_is_dirty_node s node = (node \<in> set (nb_dirty s))"

text \<open>\<^verbatim>\<open>NoteBook.save_needed()\<close>.\<close>

definition save_needed :: "state \<Rightarrow> bool" where
  "save_needed s = (length (nb_dirty s) > 0)"

text \<open>
  \<^verbatim>\<open>NoteBookNode._set_dirty(dirty)\<close>: an \<^verbatim>\<open>AttributeError\<close> when the node has no
  notebook.
\<close>

definition Node_set_dirty :: "state \<Rightarrow> nat \<Rightarrow> bool \<Rightarrow> (error + unit) \<times> state" where
  "Node_set_dirty s n d =
     (case n_notebook (heap s n) of
        None \<Rightarrow> (Inl AttributeError, s)
      | Some nb \<Rightarrow> (Inr (), NoteBook_set_dirty_node s n d))"

text \<open>\<^verbatim>\<open>NoteBookNode._is_dirty()\<close>.\<close>

definition Node_is_dirty :: "state \<Rightarrow> nat \<Rightarrow> (error + bool) \<times> state" where
  "Node_is_dirty s n =
     (case n_notebook (heap s n) of
        None \<Rightarrow> (Inl AttributeError, s)
      | Some nb \<Rightarrow> (Inr (NoteBook_is_dirty_node s n), s))"

subsection \<open>Paths and attributes of a node\<close>

text \<open>
  The loop of \<^verbatim>\<open>get_path\<close> up the parents, from the node to the root. It ends unless
  the parents form a cycle; among objects with identities below \<open>next_id\<close> a walk of
  more than \<open>next_id\<close> steps has met one object twice, so with that many steps allowed
  \<open>None\<close> stands for the loop that never ends.
\<close>

fun path_list :: "nat \<Rightarrow> (nat \<Rightarrow> node) \<Rightarrow> nat option \<Rightarrow> string list option" where
  "path_list k h None = Some []"
| "path_list 0 h (Some p) = None"
| "path_list (Suc k) h (Some p) =
     (case path_list k h (n_parent (h p)) of
        None \<Rightarrow> None
      | Some l \<Rightarrow> Some (n_basename (h p) # l))"

text \<open>\<^verbatim>\<open>NoteBookNode.get_path()\<close>.\<close>

definition get_path :: "state \<Rightarrow> nat \<Rightarrow> error + string" where
  "get_path s n =
     (case path_list (next_id s) (heap s) (Some n) of
        None \<Rightarrow> Inl NoReturn
      | Some l \<Rightarrow> Inr (os_path_join_list (rev l)))"

text \<open>\<^verbatim>\<open>NoteBookNode._set_basename(path)\<close>.\<close>

definition Node_set_basename :: "state \<Rightarrow> nat \<Rightarrow> string \<Rightarrow> state" where
  "Node_set_basename s n path =
     node_upd s n
       (\<lambda>x. x\<lparr>n_basename := (if n_parent x = None then path else os_path_basename path)\<rparr>)"

text \<open>\<^verbatim>\<open>NoteBookNode.get_meta_file()\<close>.\<close>

definition get_meta_file :: "state \<Rightarrow> nat \<Rightarrow> error + string" where
  "get_meta_file s n =
     (case get_path s n of Inl e \<Rightarrow> Inl e | Inr p \<Rightarrow> Inr (get_node_meta_file p))"

text \<open>\<^verbatim>\<open>NoteBookNode.clear_attr(title, content_type)\<close>: the dictionary it builds.\<close>

definition clear_attr :: "val \<Rightarrow> string \<Rightarrow> val dict" where
  "clear_attr title content_type =
     [(''title'', title),
      (''content_type'', VText content_type),
      (''order'', VInt sys_maxint),
      (''created_time'', VNone),
      (''modified_time'', VNone),
      (''expanded'', VBool False),
      (''expanded2'', VBool False),
      (''info_sort'', VInt INFO_SORT_NONE),
      (''info_sort_dir'', VInt 1)]"

text \<open>\<^verbatim>\<open>NoteBookNode.set_attr(name, value)\<close>.\<close>

definition Node_set_attr :: "state \<Rightarrow> nat \<Rightarrow> string \<Rightarrow> val \<Rightarrow> (error + unit) \<times> state" where
  "Node_set_attr s n name v = Node_set_dirty (set_attr_raw s n name v) n True"

text \<open>\<^verbatim>\<open>NoteBookNode.del_attr(name)\<close>: a \<^verbatim>\<open>KeyError\<close> when the attribute is missing.\<close>

definition Node_del_attr :: "state \<Rightarrow> nat \<Rightarrow> string \<Rightarrow> (error + unit) \<times> state" where
  "Node_del_attr s n name =
     (if map_of (n_attr (heap s n)) name = None then (Inl KeyError, s)
      else (Inr (), node_upd s n (\<lambda>x. x\<lparr>n_attr := AList.delete name (n_attr x)\<rparr>)))"

text \<open>\<^verbatim>\<open>NoteBookNode.set_attr_timestamp(name, timestamp=None)\<close>.\<close>

definition Node_set_attr_timestamp ::
  "state \<Rightarrow> nat \<Rightarrow> string \<Rightarrow> val option \<Rightarrow> (error + unit) \<times> state" where
  "Node_set_attr_timestamp s n name timestamp =
     Node_set_dirty
       (set_attr_raw s n name (case timestamp of None \<Rightarrow> VInt (clock s) | Some ts \<Rightarrow> ts)) n True"

text \<open>\<^verbatim>\<open>NoteBookNode.set_info_sort(info, sort_dir)\<close>.\<close>

definition Node_set_info_sort :: "state \<Rightarrow> nat \<Rightarrow> val \<Rightarrow> val \<Rightarrow> (error + unit) \<times> state" where
  "Node_set_info_sort s n info sort_dir =
     Node_set_dirty
       (set_attr_raw (set_attr_raw s n ''info_sort'' info) n ''info_sort_dir'' sort_dir) n True"

text \<open>
  \<^verbatim>\<open>NoteBookNode.__init__(path, title, parent, notebook, content_type)\<close>: the new
  object gets the next identity.
\<close>

definition Node_init ::
  "state \<Rightarrow> node_class \<Rightarrow> string \<Rightarrow> val \<Rightarrow> nat option \<Rightarrow> nat option \<Rightarrow> string \<Rightarrow> nat \<times> state" where
  "Node_init s cls path title parent notebook content_type =
     (let n = next_id s;
          obj = \<lparr>n_class = cls, n_notebook = notebook, n_parent = parent,
                 n_basename = (if parent = None then path else os_path_basename path),
                 n_children = None, n_valid = True,
                 n_version = VInt NOTEBOOK_FORMAT_VERSION, n_meta = [],
                 n_attr = clear_attr title content_type\<rparr>
      in (n, s\<lparr>heap := (heap s)(n := obj), next_id := Suc n\<rparr>))"

text \<open>\<^verbatim>\<open>NoteBookTrash.__init__(name, notebook)\<close>.\<close>

definition Trash_init :: "state \<Rightarrow> string \<Rightarrow> nat \<Rightarrow> (error + nat) \<times> state" where
  "Trash_init s name notebook =
     (case get_path s notebook of
        Inl e \<Rightarrow> (Inl e, s)
      | Inr p \<Rightarrow>
          (let r = Node_init s CTrash (get_trash_dir p) (VText name) (Some notebook)
                     (Some notebook) CONTENT_TYPE_DIR
           in then_do (Node_set_attr (snd r) (fst r) ''content_type'' (VText CONTENT_TYPE_TRASH))
                (\<lambda>u s'. (Inr (fst r), s'))))"

text \<open>
  \<^verbatim>\<open>NoteBookNode.set_meta_data(attr)\<close>: the version comes from the node's own
  \<^verbatim>\<open>_meta.attr\<close>, the attributes from the argument.
\<close>

definition Node_set_meta_data :: "state \<Rightarrow> nat \<Rightarrow> val dict \<Rightarrow> state" where
  "Node_set_meta_data s n a =
     node_upd s n
       (\<lambda>x. x\<lparr>n_version := (case map_of (n_meta x) ''version'' of
                              None \<Rightarrow> VInt NOTEBOOK_FORMAT_VERSION
                            | Some v \<Rightarrow> v),
              n_attr := dict_update (n_attr x) a\<rparr>)"

subsection \<open>Saving a node\<close>

text \<open>\<^verbatim>\<open>NoteBookNode.write_meta_data()\<close>.\<close>

definition Node_write_meta_data :: "state \<Rightarrow> nat \<Rightarrow> (error + unit) \<times> state" where
  "Node_write_meta_data s n =
     (case get_meta_file s n of
        Inl e \<Rightarrow> (Inl e, s)
      | Inr filename \<Rightarrow>
          (case n_notebook (heap s n) of
             None \<Rightarrow> (Inl AttributeError, s)
           | Some nb \<Rightarrow>
               (case MetaData_write (files s) filename (n_version (heap s n))
                       (n_attr (heap s n)) (nb_notebook_attrs s) of
                  Inl e \<Rightarrow> (Inl e, s)
                | Inr fs' \<Rightarrow> (Inr (), s\<lparr>files := fs'\<rparr>))))"

text \<open>
  \<^verbatim>\<open>NoteBookNode.save(force=False)\<close>: \<^verbatim>\<open>self._is_dirty()\<close> is only evaluated when
  \<open>force\<close> is false.
\<close>

definition Node_save :: "state \<Rightarrow> nat \<Rightarrow> bool \<Rightarrow> (error + unit) \<times> state" where
  "Node_save s n force =
     then_do (if force then (Inr True, s) else Node_is_dirty s n)
       (\<lambda>d s1.
          if d \<and> n_valid (heap s1 n) then
            then_do (Node_write_meta_data s1 n) (\<lambda>u s2. Node_set_dirty s2 n False)
          else (Inr (), s1))"

subsection \<open>Change notification\<close>

text \<open>\<^verbatim>\<open>NoteBookNode.notify_change(recurse)\<close> and \<^verbatim>\<open>notify_changes(nodes, recurse)\<close>.\<close>

definition notify_changes :: "state \<Rightarrow> nat \<Rightarrow> nat list \<Rightarrow> bool \<Rightarrow> state" where
  "notify_changes s n nodes recurse =
     (case n_notebook (heap s n) of
        None \<Rightarrow> s
      | Some nb \<Rightarrow> s\<lparr>notified := notified s @ [(nodes, recurse)]\<rparr>)"

definition notify_change :: "state \<Rightarrow> nat \<Rightarrow> bool \<Rightarrow> state" where
  "notify_change s n recurse = notify_changes s n [n] recurse"

subsection \<open>The node factory\<close>

text \<open>
  \<^verbatim>\<open>NoteBookNodeFactory.read_node(notebook, parent, path)\<close> with the three makers
  \<^verbatim>\<open>NoteBook.__init__\<close> registers. The maker of the trash type ignores the path and the
  parent it is given. The result is the new node, or \<^verbatim>\<open>None\<close> when the directory has
  no meta file or its content type has no maker.
\<close>

definition NoteBook_read_node ::
  "state \<Rightarrow> nat \<Rightarrow> nat \<Rightarrow> string \<Rightarrow> (error + nat option) \<times> state" where
  "NoteBook_read_node s notebook parent path =
     (let metafile = get_node_meta_file path in
      if os_path_exists (files s) metafile then
        (case MetaData_read (files s) (clock s) metafile (nb_notebook_attrs s) of
           Inl e \<Rightarrow> (Inl e, s)
         | Inr a \<Rightarrow>
             (let content_type =
                    (case map_of a ''content_type'' of
                       None \<Rightarrow> VText CONTENT_TYPE_DIR
                     | Some v \<Rightarrow> v)
              in
                if content_type = VText CONTENT_TYPE_DIR then
                  (let r = Node_init s CDir path (VText []) (Some parent) (Some notebook)
                             CONTENT_TYPE_DIR
                   in (Inr (Some (fst r)), Node_set_meta_data (snd r) (fst r) a))
                else if content_type = VText CONTENT_TYPE_PAGE then
                  (let r = Node_init s CPage path (VText []) (Some parent) (Some notebook)
                             CONTENT_TYPE_PAGE
                   in (Inr (Some (fst r)), Node_set_meta_data (snd r) (fst r) a))
                else if content_type = VText CONTENT_TYPE_TRASH then
                  then_do (Trash_init s TRASH_NAME notebook)
                    (\<lambda>node s1. (Inr (Some node), Node_set_meta_data s1 node a))
                else (Inr None, s)))
      else (Inr None, s))"

subsection \<open>Children\<close>

text \<open>
  The loop of \<^verbatim>\<open>_set_child_order\<close> over \<^verbatim>\<open>enumerate(self._children)\<close>: a child
  whose \<^verbatim>\<open>order\<close> differs from its position gets the position and is marked dirty.
\<close>

fun set_child_order_loop :: "state \<Rightarrow> nat list \<Rightarrow> int \<Rightarrow> (error + unit) \<times> state" where
  "set_child_order_loop s [] i = (Inr (), s)"
| "set_child_order_loop s (child # rest) i =
     (case map_of (n_attr (heap s child)) ''order'' of
        None \<Rightarrow> (Inl KeyError, s)
      | Some v \<Rightarrow>
          if \<not> py_eq v (VInt i) then
            then_do (Node_set_dirty (set_attr_raw s child ''order'' (VInt i)) child True)
              (\<lambda>u s'. set_child_order_loop s' rest (i + 1))
          else set_child_order_loop s rest (i + 1))"

text \<open>\<^verbatim>\<open>NoteBookNode._set_child_order()\<close>.\<close>

definition Node_set_child_order :: "state \<Rightarrow> nat \<Rightarrow> (error + unit) \<times> state" where
  "Node_set_child_order s n =
     (case n_children (heap s n) of
        None \<Rightarrow> (Inl TypeError, s)
      | Some cs \<Rightarrow> set_child_order_loop s cs 0)"

text \<open>
  The loop of \<^verbatim>\<open>_get_children\<close> over the directory listing: a node that is read is
  appended to the children; a \<^verbatim>\<open>NoteBookError\<close> skips the entry.
\<close>

definition append_child :: "state \<Rightarrow> nat \<Rightarrow> nat \<Rightarrow> state" where
  "append_child s n child =
     node_upd s n
       (\<lambda>x. x\<lparr>n_children := (case n_children x of None \<Rightarrow> None | Some cs \<Rightarrow> Some (cs @ [child]))\<rparr>)"

fun load_children :: "state \<Rightarrow> nat \<Rightarrow> string \<Rightarrow> string list \<Rightarrow> (error + unit) \<times> state" where
  "load_children s n path [] = (Inr (), s)"
| "load_children s n path (filename # rest) =
     (case n_notebook (heap s n) of
        None \<Rightarrow> (Inl AttributeError, s)
      | Some notebook \<Rightarrow>
          (case NoteBook_read_node s notebook n (os_path_join path filename) of
             (Inl e, s1) \<Rightarrow>
               if is_NoteBookError e then load_children s1 n path rest else (Inl e, s1)
           | (Inr None, s1) \<Rightarrow> load_children s1 n path rest
           | (Inr (Some node), s1) \<Rightarrow> load_children (append_child s1 n node) n path rest))"

text \<open>
  \<^verbatim>\<open>self._children.sort(key=lambda x: x._attr["order"])\<close>: a stable sort by the
  order of Python on the keys; a child without the attribute is a \<^verbatim>\<open>KeyError\<close>.
\<close>

definition order_key :: "state \<Rightarrow> nat \<Rightarrow> nat \<times> int \<times> string" where
  "order_key s c =
     (case map_of (n_attr (heap s c)) ''order'' of None \<Rightarrow> py_key VNone | Some v \<Rightarrow> py_key v)"

definition sort_children :: "state \<Rightarrow> nat \<Rightarrow> (error + unit) \<times> state" where
  "sort_children s n =
     (case n_children (heap s n) of
        None \<Rightarrow> (Inl AttributeError, s)
      | Some cs \<Rightarrow>
          if list_ex (\<lambda>c. map_of (n_attr (heap s c)) ''order'' = None) cs then (Inl KeyError, s)
          else (Inr (), node_upd s n (\<lambda>x. x\<lparr>n_children := Some (sort_key (order_key s) cs)\<rparr>)))"

text \<open>\<^verbatim>\<open>NoteBookNode._get_children()\<close>.\<close>

definition Node_load_children :: "state \<Rightarrow> nat \<Rightarrow> (error + unit) \<times> state" where
  "Node_load_children s n =
     (let s1 = node_upd s n (\<lambda>x. x\<lparr>n_children := Some []\<rparr>) in
      case get_path s1 n of
        Inl e \<Rightarrow> (Inl e, s1)
      | Inr path \<Rightarrow>
          (case os_listdir (files s1) path of
             Inl e \<Rightarrow>
               (Inl (NoteBookError ''Do not have permission to read folder contents'' (Some e)),
                s1)
           | Inr filenames \<Rightarrow>
               then_do (load_children s1 n path filenames)
                 (\<lambda>u s2. then_do (sort_children s2 n) (\<lambda>u s3. Node_set_child_order s3 n))))"

text \<open>\<^verbatim>\<open>NoteBookNode.get_children()\<close>.\<close>

definition Node_get_children :: "state \<Rightarrow> nat \<Rightarrow> (error + nat list option) \<times> state" where
  "Node_get_children s n =
     then_do (if n_children (heap s n) = None then Node_load_children s n else (Inr (), s))
       (\<lambda>u s1. (Inr (n_children (heap s1 n)), s1))"

text \<open>
  \<^verbatim>\<open>list.insert(index, x)\<close>: the index is converted to a machine word, which
  raises \<^verbatim>\<open>OverflowError\<close> for an integer outside \<^verbatim>\<open>-sys.maxint - 1\<close> ..
  \<^verbatim>\<open>sys.maxint\<close>; a negative index counts from the end, and an index outside the
  list is moved to its nearest end.
\<close>

definition py_insert :: "'a list \<Rightarrow> int \<Rightarrow> 'a \<Rightarrow> error + 'a list" where
  "py_insert xs i x =
     (if i < - sys_maxint - 1 \<or> sys_maxint < i then Inl OverflowError
      else
        (let n = int (length xs);
             j = (if i < 0 then max 0 (i + n) else min i n)
         in Inr (take (nat j) xs @ [x] @ drop (nat j) xs)))"

text \<open>\<^verbatim>\<open>NoteBookNode._add_child(child, index=None)\<close>.\<close>

definition Node_add_child :: "state \<Rightarrow> nat \<Rightarrow> nat \<Rightarrow> int option \<Rightarrow> (error + unit) \<times> state" where
  "Node_add_child s n child index =
     (let s0 = node_upd s child (\<lambda>x. x\<lparr>n_notebook := n_notebook (heap s n)\<rparr>) in
      then_do (if n_children (heap s0 n) = None then Node_load_children s0 n else (Inr (), s0))
        (\<lambda>u s1.
           (case n_children (heap s1 n) of
              None \<Rightarrow> (Inl AttributeError, s1)
            | Some cs \<Rightarrow>
                then_do
                  (case index of
                     Some i \<Rightarrow>
                       (case py_insert cs i child of
                          Inl e \<Rightarrow> (Inl e, s1)
                        | Inr cs' \<Rightarrow>
                            Node_set_child_order
                              (node_upd s1 n (\<lambda>x. x\<lparr>n_children := Some cs'\<rparr>)) n)
                   | None \<Rightarrow>
                       if n_notebook (heap s1 n) \<noteq> None \<and> length cs > 0
                          \<and> Some (last cs) = nb_trash s1
                       then
                         (case py_insert cs (int (length cs) - 1) child of
                            Inl e \<Rightarrow> (Inl e, s1)
                          | Inr cs' \<Rightarrow>
                              Node_set_child_order
                                (node_upd s1 n (\<lambda>x. x\<lparr>n_children := Some cs'\<rparr>)) n)
                       else
                         (Inr (),
                          node_upd (set_attr_raw s1 child ''order'' (VInt (int (length cs)))) n
                            (\<lambda>x. x\<lparr>n_children := Some (cs @ [child])\<rparr>)))
                  (\<lambda>u s2. Node_set_dirty s2 child True))))"

text \<open>
  \<^verbatim>\<open>NoteBookNode._remove_child(child)\<close>: \<^verbatim>\<open>list.remove\<close> takes out the first
  occurrence and raises \<^verbatim>\<open>ValueError\<close> when there is none.
\<close>

definition Node_remove_child :: "state \<Rightarrow> nat \<Rightarrow> nat \<Rightarrow> (error + unit) \<times> state" where
  "Node_remove_child s n child =
     then_do (if n_children (heap s n) = None then Node_load_children s n else (Inr (), s))
       (\<lambda>u s1.
          (case n_children (heap s1 n) of
             None \<Rightarrow> (Inl AttributeError, s1)
           | Some cs \<Rightarrow>
               if child \<notin> set cs then (Inl ValueError, s1)
               else (Inr (), node_upd s1 n (\<lambda>x. x\<lparr>n_children := Some (remove1 child cs)\<rparr>))))"

subsection \<open>Preferences\<close>

text \<open>
  Modelled from the spec: \<^verbatim>\<open>keepnote.xmlobject\<close> is not under \<^verbatim>\<open>src/\<close>. The spec
  has the preferences file hold a version element (an integer) and a default-font
  element (a text); \<^verbatim>\<open>g_notebook_pref_parser\<close> declares the two tags with
  \<^verbatim>\<open>getobj=("version", int)\<close> and \<^verbatim>\<open>getobj=("default_font", str)\<close>, and
  \<^verbatim>\<open>get_notebook_version\<close> reads the version of the file from the object it passed to
  \<^verbatim>\<open>read\<close>. So \<open>xmlo_read\<close> stores each element the document has in the field of the
  preferences object it names; a missing file is an \<^verbatim>\<open>IOError\<close> and a file that is
  not a preferences document an \<^verbatim>\<open>XmlError\<close>. \<open>xmlo_write\<close> writes both elements.
\<close>

definition xmlo_read :: "filesystem \<Rightarrow> preferences \<Rightarrow> string \<Rightarrow> error + preferences" where
  "xmlo_read fs p filename =
     (case map_of (entries fs) filename of
        Some (EPref v f) \<Rightarrow>
          Inr (p\<lparr>pref_version := (case v of None \<Rightarrow> pref_version p | Some x \<Rightarrow> x),
                 pref_default_font := (case f of None \<Rightarrow> pref_default_font p | Some x \<Rightarrow> x)\<rparr>)
      | Some (EFile text) \<Rightarrow> Inl XmlError
      | _ \<Rightarrow> Inl IOError)"

definition xmlo_write :: "filesystem \<Rightarrow> preferences \<Rightarrow> string \<Rightarrow> error + filesystem" where
  "xmlo_write fs p filename =
     (if \<not> safefile_openable fs filename then Inl IOError
      else Inr (fs\<lparr>entries :=
                  AList.update filename
                    (EPref (Some (pref_version p)) (Some (pref_default_font p))) (entries fs)\<rparr>))"

text \<open>\<^verbatim>\<open>NoteBookPreferences()\<close>.\<close>

definition NoteBookPreferences :: preferences where
  "NoteBookPreferences =
     \<lparr>pref_version = NOTEBOOK_FORMAT_VERSION, pref_default_font = DEFAULT_FONT\<rparr>"

text \<open>
  \<^verbatim>\<open>NoteBook.read_preferences()\<close>: the parser reads into \<^verbatim>\<open>self.pref\<close>, and the
  version it left there is compared with the version the program supports.
\<close>

definition NoteBook_read_preferences :: "state \<Rightarrow> nat \<Rightarrow> (error + unit) \<times> state" where
  "NoteBook_read_preferences s nb =
     (case get_path s nb of
        Inl e \<Rightarrow> (Inl e, s)
      | Inr path \<Rightarrow>
          (case xmlo_read (files s) (nb_pref s) (get_pref_file path) of
             Inl e \<Rightarrow>
               if e = IOError
                 then (Inl (NoteBookError ''Cannot read notebook preferences'' (Some e)), s)
               else if e = XmlError
                 then (Inl (NoteBookError ''Notebook preference data is corrupt'' (Some e)), s)
               else (Inl e, s)
           | Inr p \<Rightarrow>
               (let s1 = s\<lparr>nb_pref := p\<rparr> in
                if pref_version (nb_pref s1) > NOTEBOOK_FORMAT_VERSION
                then (Inl (NoteBookVersionError (pref_version (nb_pref s1))
                             NOTEBOOK_FORMAT_VERSION), s1)
                else (Inr (), s1))))"

text \<open>\<^verbatim>\<open>NoteBook.write_preferences()\<close>.\<close>

definition NoteBook_write_preferences :: "state \<Rightarrow> nat \<Rightarrow> (error + unit) \<times> state" where
  "NoteBook_write_preferences s nb =
     (case get_path s nb of
        Inl e \<Rightarrow> (Inl e, s)
      | Inr path \<Rightarrow>
          (case (if \<not> os_path_exists (files s) (get_pref_dir path)
                 then os_mkdir (files s) (get_pref_dir path) else Inr (files s)) of
             Inl e \<Rightarrow> (Inl (NoteBookError ''Cannot save notebook preferences'' (Some e)), s)
           | Inr fs1 \<Rightarrow>
               (case xmlo_write fs1 (nb_pref s) (get_pref_file path) of
                  Inl e \<Rightarrow>
                    (Inl (NoteBookError ''Cannot save notebook preferences'' (Some e)),
                     s\<lparr>files := fs1\<rparr>)
                | Inr fs2 \<Rightarrow> (Inr (), s\<lparr>files := fs2\<rparr>))))"

subsection \<open>Creating a node on disk\<close>

definition BLANK_NOTE :: string where
  "BLANK_NOTE = XML_HEADER
     @ ''<!DOCTYPE html PUBLIC '' @ [dquote] @ ''-//W3C//DTD XHTML 1.0 Transitional//EN''
     @ [dquote] @ '' '' @ [dquote]
     @ ''http://www.w3.org/TR/xhtml1/DTD/xhtml1-transitional.dtd'' @ [dquote] @ ''>''
     @ [newline] @ ''<html xmlns='' @ [dquote] @ ''http://www.w3.org/1999/xhtml'' @ [dquote]
     @ ''><body></body></html>'' @ [newline]"

text \<open>\<^verbatim>\<open>NoteBookNode.write_empty_data_file()\<close>.\<close>

definition Node_write_empty_data_file :: "state \<Rightarrow> nat \<Rightarrow> (error + unit) \<times> state" where
  "Node_write_empty_data_file s n =
     (case get_path s n of
        Inl e \<Rightarrow> (Inl e, s)
      | Inr path \<Rightarrow>
          (case safefile_write (files s) (get_page_data_file path) BLANK_NOTE of
             Inl e \<Rightarrow>
               (Inl (NoteBookError
                       (''Cannot initialize richtext file '' @ [CHR 0x27]
                          @ get_page_data_file path @ [CHR 0x27]) (Some e)), s)
           | Inr fs' \<Rightarrow> (Inr (), s\<lparr>files := fs'\<rparr>)))"

text \<open>\<^verbatim>\<open>NoteBookNode.create()\<close>.\<close>

definition Node_create :: "state \<Rightarrow> nat \<Rightarrow> (error + unit) \<times> state" where
  "Node_create s n =
     (case get_path s n of
        Inl e \<Rightarrow> (Inl e, s)
      | Inr path \<Rightarrow>
          (case os_mkdir (files s) path of
             Inl e \<Rightarrow> (Inl (NoteBookError ''Cannot create node'' (Some e)), s)
           | Inr fs' \<Rightarrow>
               (let s1 = set_attr_raw
                           (set_attr_raw (s\<lparr>files := fs'\<rparr>) n ''created_time'' (VInt (clock s)))
                           n ''modified_time'' (VInt (clock s))
                in then_do (Node_write_meta_data s1 n)
                     (\<lambda>u s2. then_do (Node_set_dirty s2 n False)
                        (\<lambda>u s3.
                           (case map_of (n_attr (heap s3 n)) ''content_type'' of
                              None \<Rightarrow> (Inl KeyError, s3)
                            | Some ct \<Rightarrow>
                                if py_eq ct (VText CONTENT_TYPE_PAGE)
                                then Node_write_empty_data_file s3 n
                                else (Inr (), s3)))))))"

subsection \<open>The notebook: trash and children\<close>

text \<open>
  The loop of \<^verbatim>\<open>_init_trash\<close> over the children: the first child whose path is
  \<^verbatim>\<open>self._trash_path\<close> (\<^verbatim>\<open>is_trash_dir\<close>).
\<close>

fun find_trash :: "state \<Rightarrow> nat list \<Rightarrow> error + nat option" where
  "find_trash s [] = Inr None"
| "find_trash s (child # rest) =
     (case get_path s child of
        Inl e \<Rightarrow> Inl e
      | Inr p \<Rightarrow> if p = nb_trash_path s then Inr (Some child) else find_trash s rest)"

text \<open>
  \<^verbatim>\<open>NoteBook._init_trash()\<close>: what the \<^verbatim>\<open>try\<close> block raises as a
  \<^verbatim>\<open>NoteBookError\<close> is wrapped.
\<close>

definition NoteBook_init_trash :: "state \<Rightarrow> nat \<Rightarrow> (error + unit) \<times> state" where
  "NoteBook_init_trash s nb =
     (let s0 = s\<lparr>nb_trash := None\<rparr> in
      case n_children (heap s0 nb) of
        None \<Rightarrow> (Inl TypeError, s0)
      | Some cs \<Rightarrow>
          (case find_trash s0 cs of
             Inl e \<Rightarrow> (Inl e, s0)
           | Inr (Some child) \<Rightarrow> (Inr (), s0\<lparr>nb_trash := Some child\<rparr>)
           | Inr None \<Rightarrow>
               (case then_do (Trash_init s0 TRASH_NAME nb)
                       (\<lambda>t s1. then_do (Node_create (s1\<lparr>nb_trash := Some t\<rparr>) t)
                          (\<lambda>u s2. Node_add_child s2 nb t None)) of
                  (Inl e, s3) \<Rightarrow>
                    if is_NoteBookError e
                    then (Inl (NoteBookError ''Cannot create Trash folder'' (Some e)), s3)
                    else (Inl e, s3)
                | (Inr u, s3) \<Rightarrow> (Inr (), s3))))"

text \<open>\<^verbatim>\<open>NoteBook.get_children()\<close>.\<close>

definition NoteBook_get_children :: "state \<Rightarrow> nat \<Rightarrow> (error + nat list option) \<times> state" where
  "NoteBook_get_children s nb =
     then_do
       (if n_children (heap s nb) = None
        then then_do (Node_load_children s nb) (\<lambda>u s1. NoteBook_init_trash s1 nb)
        else (Inr (), s))
       (\<lambda>u s2. (Inr (n_children (heap s2 nb)), s2))"

subsection \<open>Saving the notebook\<close>

text \<open>
  The loops of \<^verbatim>\<open>NoteBook.save\<close>: \<^verbatim>\<open>node.save(force)\<close> for every node of a list.
  The nodes are not the notebook (it has left the dirty set before the loop, and it is
  not among its own children), so the method is \<^verbatim>\<open>NoteBookNode.save\<close>.
\<close>

fun save_nodes :: "state \<Rightarrow> nat list \<Rightarrow> bool \<Rightarrow> (error + unit) \<times> state" where
  "save_nodes s [] force = (Inr (), s)"
| "save_nodes s (node # rest) force =
     then_do (Node_save s node force) (\<lambda>u s1. save_nodes s1 rest force)"

text \<open>\<^verbatim>\<open>NoteBook.save(force=False)\<close>.\<close>

definition NoteBook_save :: "state \<Rightarrow> nat \<Rightarrow> bool \<Rightarrow> (error + unit) \<times> state" where
  "NoteBook_save s nb force =
     then_do
       (if force \<or> nb \<in> set (nb_dirty s)
        then then_do (Node_write_meta_data s nb) (\<lambda>u s1. NoteBook_write_preferences s1 nb)
        else (Inr (), s))
       (\<lambda>u s2.
          then_do (Node_set_dirty s2 nb False)
            (\<lambda>u s3.
               then_do
                 (if force then
                    then_do (NoteBook_get_children s3 nb)
                      (\<lambda>cs s4.
                         (case cs of
                            None \<Rightarrow> (Inl TypeError, s4)
                          | Some nodes \<Rightarrow> save_nodes s4 nodes force))
                  else save_nodes s3 (nb_dirty s3) False)
                 (\<lambda>u s5. (Inr (), s5\<lparr>nb_dirty := []\<rparr>))))"

text \<open>The method \<^verbatim>\<open>save\<close> of a node, by its class.\<close>

definition save_method :: "state \<Rightarrow> nat \<Rightarrow> bool \<Rightarrow> (error + unit) \<times> state" where
  "save_method s n force =
     (if n_class (heap s n) = CNoteBook then NoteBook_save s n force else Node_save s n force)"

subsection \<open>Moving and renaming\<close>

text \<open>
  The on-disk part of \<^verbatim>\<open>move\<close>, taken when the parent changes. A title that is not
  a string makes \<^verbatim>\<open>re.sub\<close> raise \<^verbatim>\<open>TypeError\<close>.
\<close>

definition move_on_disk :: "state \<Rightarrow> nat \<Rightarrow> nat \<Rightarrow> string \<Rightarrow> (error + unit) \<times> state" where
  "move_on_disk s n parent path =
     (case get_path s parent of
        Inl e \<Rightarrow> (Inl e, s)
      | Inr pp \<Rightarrow>
          (let parent_path = os_path_dirname (os_path_join pp (n_basename (heap s n))) in
           case map_of (n_attr (heap s n)) ''title'' of
             None \<Rightarrow> (Inl KeyError, s)
           | Some (VText title) \<Rightarrow>
               (case get_valid_unique_filename (files s) parent_path title [] '' '' 2 of
                  Inl e \<Rightarrow> (Inl e, s)
                | Inr path2 \<Rightarrow>
                    (case os_rename (files s) path path2 of
                       Inl e \<Rightarrow>
                         (Inl (NoteBookError ''Do not have permission for move'' (Some e)), s)
                     | Inr fs' \<Rightarrow> (Inr (), Node_set_basename (s\<lparr>files := fs'\<rparr>) n path2)))
           | Some other \<Rightarrow> (Inl TypeError, s)))"

text \<open>
  \<^verbatim>\<open>self._attr["order"] < index\<close>: \<^verbatim>\<open>None\<close> is below every value, so the
  comparison is false when no index is given.
\<close>

definition order_below_index :: "val \<Rightarrow> int option \<Rightarrow> bool" where
  "order_below_index order index =
     (case index of None \<Rightarrow> False | Some i \<Rightarrow> py_lt order (VInt i))"

text \<open>\<^verbatim>\<open>NoteBookNode.move(parent, index=None)\<close>.\<close>

definition Node_move :: "state \<Rightarrow> nat \<Rightarrow> nat \<Rightarrow> int option \<Rightarrow> (error + unit) \<times> state" where
  "Node_move s n parent index =
     (if n = parent then (Inl AssertionError, s)
      else
        (case get_path s n of
           Inl e \<Rightarrow> (Inl e, s)
         | Inr path \<Rightarrow>
             (let old_parent = n_parent (heap s n) in
              then_do (if old_parent \<noteq> Some parent then move_on_disk s n parent path
                       else (Inr (), s))
                (\<lambda>u s1.
                   (case n_parent (heap s1 n) of
                      None \<Rightarrow> (Inl AttributeError, s1)
                    | Some op \<Rightarrow>
                        then_do (Node_remove_child s1 op n)
                          (\<lambda>u s2.
                             then_do
                               (if op \<noteq> parent then
                                  then_do (Node_set_child_order s2 op)
                                    (\<lambda>u s3.
                                       Node_add_child
                                         (node_upd s3 n (\<lambda>x. x\<lparr>n_parent := Some parent\<rparr>))
                                         parent n index)
                                else
                                  (case map_of (n_attr (heap s2 n)) ''order'' of
                                     None \<Rightarrow> (Inl KeyError, s2)
                                   | Some order \<Rightarrow>
                                       Node_add_child s2 op n
                                         (if order_below_index order index
                                          then map_option (\<lambda>i. i - 1) index else index)))
                               (\<lambda>u s4.
                                  then_do (Node_set_dirty s4 n True)
                                    (\<lambda>u s5.
                                       then_do (save_method s5 n True)
                                         (\<lambda>u s6.
                                            (Inr (),
                                             if Some parent \<noteq> old_parent
                                             then notify_changes s6 n [op, parent] True
                                             else notify_change s6 op True))))))))))"

text \<open>
  The \<^verbatim>\<open>try\<close> block of \<^verbatim>\<open>rename\<close>: the directory is renamed, then the title
  and the basename are set, then the node is saved.
\<close>

definition rename_try ::
  "state \<Rightarrow> nat \<Rightarrow> string \<Rightarrow> string \<Rightarrow> string \<Rightarrow> (error + unit) \<times> state" where
  "rename_try s n path path2 title =
     (case os_rename (files s) path path2 of
        Inl e \<Rightarrow> (Inl e, s)
      | Inr fs' \<Rightarrow>
          save_method
            (Node_set_basename (set_attr_raw (s\<lparr>files := fs'\<rparr>) n ''title'' (VText title)) n path2)
            n True)"

definition rename_message :: "string \<Rightarrow> string \<Rightarrow> string" where
  "rename_message path path2 =
     ''Cannot rename '' @ [CHR 0x27] @ path @ [CHR 0x27] @ '' to '' @ [CHR 0x27] @ path2
       @ [CHR 0x27]"

text \<open>\<^verbatim>\<open>NoteBookNode.rename(title)\<close>.\<close>

definition Node_rename :: "state \<Rightarrow> nat \<Rightarrow> string \<Rightarrow> (error + unit) \<times> state" where
  "Node_rename s n title =
     (case map_of (n_attr (heap s n)) ''title'' of
        None \<Rightarrow> (Inl KeyError, s)
      | Some current \<Rightarrow>
          if py_eq (VText title) current then (Inr (), s)
          else if n_parent (heap s n) = None then
            Node_set_dirty (set_attr_raw s n ''title'' (VText title)) n True
          else
            (case get_path s n of
               Inl e \<Rightarrow> (Inl e, s)
             | Inr path \<Rightarrow>
                 (case get_valid_unique_filename (files s) (os_path_dirname path) title []
                         '' '' 2 of
                    Inl e \<Rightarrow> (Inl e, s)
                  | Inr path2 \<Rightarrow>
                      (case rename_try s n path path2 title of
                         (Inl e, s1) \<Rightarrow>
                           if e = OSError \<or> is_NoteBookError e
                           then (Inl (NoteBookError (rename_message path path2) (Some e)), s1)
                           else (Inl e, s1)
                       | (Inr u, s1) \<Rightarrow> (Inr (), notify_change s1 n False)))))"

subsection \<open>The trash folder\<close>

text \<open>\<^verbatim>\<open>NoteBookTrash.move(parent, index=None)\<close>.\<close>

definition Trash_move :: "state \<Rightarrow> nat \<Rightarrow> nat \<Rightarrow> int option \<Rightarrow> (error + unit) \<times> state" where
  "Trash_move s n parent index =
     (if Some parent = n_notebook (heap s n) then
        (if Some parent \<noteq> n_parent (heap s n) then (Inl AssertionError, s)
         else Node_move s n parent index)
      else (Inl (NoteBookError ''The Trash folder must be a top-level folder.'' None), s))"

text \<open>\<^verbatim>\<open>NoteBookTrash.delete()\<close>.\<close>

definition Trash_delete :: "state \<Rightarrow> nat \<Rightarrow> (error + unit) \<times> state" where
  "Trash_delete s n = (Inl (NoteBookError ''The Trash folder cannot be deleted.'' None), s)"

text \<open>The method \<^verbatim>\<open>move\<close> of a node, by its class.\<close>

definition move_method :: "state \<Rightarrow> nat \<Rightarrow> nat \<Rightarrow> int option \<Rightarrow> (error + unit) \<times> state" where
  "move_method s n parent index =
     (if n_class (heap s n) = CTrash then Trash_move s n parent index
      else Node_move s n parent index)"

subsection \<open>Example states\<close>

text \<open>
  A notebook in the directory \<^verbatim>\<open>nb\<close>: the root (object 0) has the folder
  \<^verbatim>\<open>proj\<close> (object 1) and the trash folder (object 2) as children, and the folder has
  the pages \<^verbatim>\<open>a\<close>, \<^verbatim>\<open>b\<close> and \<^verbatim>\<open>c\<close> (objects 3, 4 and 5) with the orders 0, 1
  and 2. All children lists but those of the pages are loaded, and no node is dirty.
\<close>

definition example_node ::
  "node_class \<Rightarrow> nat option \<Rightarrow> string \<Rightarrow> nat list option \<Rightarrow> string \<Rightarrow> string \<Rightarrow> int \<Rightarrow> node" where
  "example_node cls parent basename children title content_type order =
     \<lparr>n_class = cls, n_notebook = Some 0, n_parent = parent, n_basename = basename,
      n_children = children, n_valid = True, n_version = VInt NOTEBOOK_FORMAT_VERSION,
      n_meta = [],
      n_attr = AList.update ''order'' (VInt order) (clear_attr (VText title) content_type)\<rparr>"

definition example_heap :: "nat \<Rightarrow> node" where
  "example_heap i =
     (if i = 0 then example_node CNoteBook None ''nb'' (Some [1, 2]) ''nb'' CONTENT_TYPE_DIR 0
      else if i = 1 then example_node CDir (Some 0) ''proj'' (Some [3, 4, 5]) ''Proj''
                           CONTENT_TYPE_DIR 0
      else if i = 2 then example_node CTrash (Some 0) TRASH_DIR (Some []) TRASH_NAME
                           CONTENT_TYPE_TRASH 1
      else if i = 3 then example_node CPage (Some 1) ''a'' None ''A'' CONTENT_TYPE_PAGE 0
      else if i = 4 then example_node CPage (Some 1) ''b'' None ''B'' CONTENT_TYPE_PAGE 1
      else example_node CPage (Some 1) ''c'' None ''C'' CONTENT_TYPE_PAGE 2)"

definition example_files :: filesystem where
  "example_files =
     \<lparr>entries =
        [(''nb'', EDir),
         (''nb/notebook.nbk'', EPref (Some 2) (Some DEFAULT_FONT)),
         (''nb/proj'', EDir),
         (''nb/__TRASH__'', EDir),
         (''nb/proj/a'', EDir),
         (''nb/proj/b'', EDir),
         (''nb/proj/c'', EDir)],
      denied = []\<rparr>"

definition example_state :: state where
  "example_state =
     \<lparr>heap = example_heap, next_id = 6, nb_pref = NoteBookPreferences, nb_dirty = [],
      nb_trash = Some 2, nb_trash_path = ''nb/__TRASH__'',
      nb_notebook_attrs = notebook_attrs_init, files = example_files, clock = 1000,
      notified = []\<rparr>"

text \<open>
  Two directories that hold exactly \<^verbatim>\<open>notes\<close>, \<^verbatim>\<open>notes 2\<close> and \<^verbatim>\<open>notes 3\<close>: the
  directory \<^verbatim>\<open>nb\<close>, and the current directory.
\<close>

definition notes_files :: filesystem where
  "notes_files =
     \<lparr>entries = [(''nb'', EDir), (''nb/notes'', EDir), (''nb/notes 2'', EDir),
                 (''nb/notes 3'', EDir)],
      denied = []\<rparr>"

definition cwd_notes_files :: filesystem where
  "cwd_notes_files =
     \<lparr>entries = [(''notes'', EDir), (''notes 2'', EDir), (''notes 3'', EDir)], denied = []\<rparr>"

text \<open>
  The example state with a preferences file of the newer format version 3.
\<close>

definition newer_pref_state :: state where
  "newer_pref_state =
     example_state\<lparr>files := (files example_state)\<lparr>entries :=
        AList.update ''nb/notebook.nbk'' (EPref (Some 3) (Some ''Serif 12''))
          (entries (files example_state))\<rparr>\<rparr>"

text \<open>
  The example state after the page \<^verbatim>\<open>a\<close> (object 3) was deleted while it was dirty:
  the node is invalid and still in the dirty set.
\<close>

definition invalid_dirty_state :: state where
  "invalid_dirty_state =
     (node_upd example_state 3 (\<lambda>x. x\<lparr>n_valid := False\<rparr>))\<lparr>nb_dirty := [3]\<rparr>"

text \<open>
  The example state on a file system that refuses to write \<^verbatim>\<open>nb/proj/z/node.xml\<close>.
\<close>

definition save_denied_state :: state where
  "save_denied_state =
     example_state\<lparr>files := (files example_state)\<lparr>denied := [''nb/proj/z/node.xml'']\<rparr>\<rparr>"

text \<open>
  The example state on a file system that refuses to create \<^verbatim>\<open>nb/proj/z\<close>.
\<close>

definition rename_denied_state :: state where
  "rename_denied_state =
     example_state\<lparr>files := (files example_state)\<lparr>denied := [''nb/proj/z'']\<rparr>\<rparr>"

subsection \<open>Integers and their numerals\<close>

text \<open>The decimal digits.\<close>

definition digit_chars :: "char set" where
  "digit_chars = set ''0123456789''"

text \<open>
  The end-of-line handling of XML on a text: a carriage return, alone or before a line
  feed, is one line feed.
\<close>

fun xml_newlines :: "string \<Rightarrow> string" where
  "xml_newlines [] = []"
| "xml_newlines (c # cs) =
     (if c = CHR 0x0D then
        (case cs of
           [] \<Rightarrow> [newline]
         | d # ds \<Rightarrow> if d = newline then newline # xml_newlines ds else newline # xml_newlines cs)
      else c # xml_newlines cs)"

text \<open>
  The events of one written attribute line, for the key and the text the handlers
  receive, and the events of the lines of a list of attributes.
\<close>

definition line_events :: "string \<times> string \<Rightarrow> xml_event list" where
  "line_events kt =
     [StartElement ''attr'' [(''key'', fst kt)]]
     @ (if snd kt = [] then [] else [CharacterData (snd kt)])
     @ [EndElement ''attr'', CharacterData [newline]]"

text \<open>
  The values of the registered types: a text of characters that XML allows for
  \<^verbatim>\<open>unicode\<close>, an integer for \<^verbatim>\<open>int\<close> (a timestamp is an integer), a boolean for
  \<^verbatim>\<open>bool\<close>. \<open>registered schema k v\<close>: the key has a schema entry and the value is of
  its type.
\<close>

fun value_of_type :: "attr_type \<Rightarrow> val \<Rightarrow> bool" where
  "value_of_type TUnicode (VText s) = list_all xml_char_ok s"
| "value_of_type TInt (VInt i) = True"
| "value_of_type TBool (VBool b) = True"
| "value_of_type t v = False"

definition registered :: "NoteBookAttr dict \<Rightarrow> string \<Rightarrow> val \<Rightarrow> bool" where
  "registered schema k v =
     (case map_of schema k of None \<Rightarrow> False | Some a \<Rightarrow> value_of_type (attr_datatype a) v)"

text \<open>A value without a carriage return in its text.\<close>

definition no_carriage_return :: "val \<Rightarrow> bool" where
  "no_carriage_return v = (case v of VText s \<Rightarrow> CHR 0x0D \<notin> set s | _ \<Rightarrow> True)"

text \<open>A value after the end-of-line handling of XML.\<close>

definition xml_value :: "val \<Rightarrow> val" where
  "xml_value v = (case v of VText s \<Rightarrow> VText (xml_newlines s) | _ \<Rightarrow> v)"

text \<open>The text the writer of a registered attribute produces for a value of its type.\<close>

definition written_text :: "val \<Rightarrow> string" where
  "written_text v =
     (case v of
        VText s \<Rightarrow> s
      | VInt i \<Rightarrow> str_int i
      | VBool b \<Rightarrow> str_int (if b then 1 else 0)
      | VNone \<Rightarrow> [])"

definition body_text :: "(string \<times> string) list \<Rightarrow> string" where
  "body_text L = concat (map (\<lambda>kw. attr_line (fst kw) (escape (snd kw))) L)"

text \<open>The state of the handlers between two elements under the root element.\<close>

definition meta_open :: "val dict \<Rightarrow> meta_state" where
  "meta_open A =
     \<lparr>meta_root = True, meta_data = None, meta_tag = None, meta_attr = None, attr = A\<rparr>"

text \<open>The text of the XML declaration between \<^verbatim>\<open><\<close> and \<^verbatim>\<open>>\<close>.\<close>

definition header_tag :: string where
  "header_tag = ''?xml version='' @ [dquote] @ ''1.0'' @ [dquote] @ '' encoding='' @ [dquote]
     @ ''UTF-8'' @ [dquote] @ ''?''"

text \<open>
  The tokens of a written document with the given version and attribute lines, and the
  events the handlers receive for it.
\<close>

definition document_tokens :: "int \<Rightarrow> (string \<times> string) list \<Rightarrow> xml_event list" where
  "document_tokens ver M =
     [CharacterData [newline], StartElement ''node'' [], CharacterData [newline],
      StartElement ''version'' [], CharacterData (str_int ver), EndElement ''version'',
      CharacterData [newline]]
     @ concat (map line_events M)
     @ [EndElement ''node'', CharacterData [newline]]"

definition document_events :: "int \<Rightarrow> (string \<times> string) list \<Rightarrow> xml_event list" where
  "document_events ver M =
     [StartElement ''node'' [], CharacterData [newline],
      StartElement ''version'' [], CharacterData (str_int ver), EndElement ''version'',
      CharacterData [newline]]
     @ concat (map line_events M)
     @ [EndElement ''node'']"

text \<open>
  Attributes of the registered types for the examples: a title with markup characters,
  and a title with a carriage return.
\<close>

definition markup_attrs :: "val dict" where
  "markup_attrs =
     [(''title'', VText ''Tom & Jerry <1>''),
      (''content_type'', VText CONTENT_TYPE_PAGE),
      (''order'', VInt (- 3)),
      (''created_time'', VInt 1000),
      (''modified_time'', VInt 2000),
      (''expanded'', VBool True),
      (''expanded2'', VBool False),
      (''info_sort'', VInt 0),
      (''info_sort_dir'', VInt 1)]"

definition cr_attrs :: "val dict" where
  "cr_attrs = [(''title'', VText [CHR ''x'', CHR 0x0D, CHR ''y'']), (''order'', VInt 0)]"

text \<open>
  The first part of \<^verbatim>\<open>_get_children\<close>, up to the end of the loop over the directory
  listing: the state it leaves holds the children as they were read, in the order of the
  listing, each with the order its meta file stores.
\<close>

definition read_children :: "state \<Rightarrow> nat \<Rightarrow> (error + unit) \<times> state" where
  "read_children s n =
     (let s1 = node_upd s n (\<lambda>x. x\<lparr>n_children := Some []\<rparr>) in
      case get_path s1 n of
        Inl e \<Rightarrow> (Inl e, s1)
      | Inr path \<Rightarrow>
          (case os_listdir (files s1) path of
             Inl e \<Rightarrow>
               (Inl (NoteBookError ''Do not have permission to read folder contents'' (Some e)),
                s1)
           | Inr filenames \<Rightarrow> load_children s1 n path filenames))"

text \<open>
  The meta file of a node as the writer writes it, with the content type and the order
  only.
\<close>

definition stored_attrs :: "string \<Rightarrow> int \<Rightarrow> val dict" where
  "stored_attrs content_type order =
     [(''content_type'', VText content_type), (''order'', VInt order)]"

definition stored_document :: "string \<Rightarrow> int \<Rightarrow> string" where
  "stored_document content_type order =
     meta_document (VInt 2)
       (body_text (map (\<lambda>kv. (fst kv, written_text (snd kv)))
                     (stored_attrs content_type order)))"

text \<open>
  A folder on disk with the pages \<^verbatim>\<open>a\<close>, \<^verbatim>\<open>b\<close> and \<^verbatim>\<open>c\<close>, whose meta files store
  the orders \<open>oa\<close>, \<open>ob\<close> and \<open>oc\<close>. In the state the notebook (object 0) has the folder
  (object 1) as its child, the children of the folder are not loaded, and no node is
  dirty.
\<close>

definition stored_files :: "int \<Rightarrow> int \<Rightarrow> int \<Rightarrow> filesystem" where
  "stored_files oa ob oc =
     \<lparr>entries =
        [(''nb'', EDir),
         (''nb/proj'', EDir),
         (''nb/proj/a'', EDir),
         (''nb/proj/a/node.xml'', EFile (stored_document CONTENT_TYPE_PAGE oa)),
         (''nb/proj/b'', EDir),
         (''nb/proj/b/node.xml'', EFile (stored_document CONTENT_TYPE_PAGE ob)),
         (''nb/proj/c'', EDir),
         (''nb/proj/c/node.xml'', EFile (stored_document CONTENT_TYPE_PAGE oc))],
      denied = []\<rparr>"

definition stored_state :: "int \<Rightarrow> int \<Rightarrow> int \<Rightarrow> state" where
  "stored_state oa ob oc =
     \<lparr>heap = (\<lambda>i. if i = 0
                   then example_node CNoteBook None ''nb'' (Some [1]) ''nb'' CONTENT_TYPE_DIR 0
                   else example_node CDir (Some 0) ''proj'' None ''Proj'' CONTENT_TYPE_DIR 0),
      next_id = 2, nb_pref = NoteBookPreferences, nb_dirty = [],
      nb_trash = None, nb_trash_path = ''nb/__TRASH__'',
      nb_notebook_attrs = notebook_attrs_init, files = stored_files oa ob oc,
      clock = 1000, notified = []\<rparr>"

text \<open>
  A notebook directory that holds the saved trash folder only, with the order 0, and
  the notebook object before its children are loaded.
\<close>

definition trash_files :: filesystem where
  "trash_files =
     \<lparr>entries =
        [(''nb'', EDir),
         (''nb/__TRASH__'', EDir),
         (''nb/__TRASH__/node.xml'', EFile (stored_document CONTENT_TYPE_TRASH 0))],
      denied = []\<rparr>"

definition unloaded_state :: state where
  "unloaded_state =
     \<lparr>heap = (\<lambda>i. example_node CNoteBook None ''nb'' None ''nb'' CONTENT_TYPE_DIR 0),
      next_id = 1, nb_pref = NoteBookPreferences, nb_dirty = [],
      nb_trash = None, nb_trash_path = ''nb/__TRASH__'',
      nb_notebook_attrs = notebook_attrs_init, files = trash_files,
      clock = 1000, notified = []\<rparr>"

section \<open>Properties\<close>

subsection \<open>Filename policy\<close>

lemma valid_notes: "get_valid_filename ''Notes'' ''folder'' = ''notes''"
  by code_simp

lemma str_int_2: "str_int 2 = ''2''"
  by code_simp

lemma str_int_3: "str_int 3 = ''3''"
  by code_simp

lemma str_int_4: "str_int 4 = ''4''"
  by code_simp

text \<open>
  C9. Sanitization cuts off one leading \<^verbatim>\<open>__\<close> only, so it is not idempotent: the
  sanitized form of \<^verbatim>\<open>____x\<close> is \<^verbatim>\<open>__x\<close>, which still begins with the reserved
  prefix, and sanitizing it once more gives the different name \<^verbatim>\<open>x\<close>.
\<close>

theorem get_valid_filename_not_idempotent:
  "get_valid_filename ''____x'' ''folder'' = ''__x''
   \<and> startswith (get_valid_filename ''____x'' ''folder'') ''__''
   \<and> get_valid_filename (get_valid_filename ''____x'' ''folder'') ''folder'' = ''x''
   \<and> get_valid_filename (get_valid_filename ''____x'' ''folder'') ''folder''
       \<noteq> get_valid_filename ''____x'' ''folder''"
  by code_simp

theorem get_valid_filename_not_idempotent_witness:
  "\<exists>f. startswith (get_valid_filename f ''folder'') ''__''
       \<and> get_valid_filename (get_valid_filename f ''folder'') ''folder''
           \<noteq> get_valid_filename f ''folder''"
  using get_valid_filename_not_idempotent by blast

text \<open>
  C4, as the code has it. In a directory \<open>path\<close> that holds \<^verbatim>\<open>notes\<close>, \<^verbatim>\<open>notes 2\<close>
  and \<^verbatim>\<open>notes 3\<close> and not \<^verbatim>\<open>notes 4\<close>, \<^verbatim>\<open>get_valid_unique_filename\<close> for the title
  \<^verbatim>\<open>Notes\<close> with an empty extension returns the path of \<^verbatim>\<open>notes 4\<close> in that
  directory, \<^verbatim>\<open>os.path.join(path, "notes 4")\<close>: the title is lower-cased, and the
  base name and the suffixes 2 and 3 are taken. The result is the bare name
  \<^verbatim>\<open>notes 4\<close> only for the empty \<open>path\<close>.
\<close>

theorem valid_unique_notes:
  assumes "path = [] \<or> os_path_exists fs path"
    and "os_path_exists fs (os_path_join path ''notes'')"
    and "os_path_exists fs (os_path_join path ''notes 2'')"
    and "os_path_exists fs (os_path_join path ''notes 3'')"
    and "\<not> os_path_exists fs (os_path_join path ''notes 4'')"
  shows "get_valid_unique_filename fs path ''Notes'' [] '' '' 2 = Inr (os_path_join path ''notes 4'')"
proof -
  have "unique_loop fs path ''notes'' [] '' '' 4 = os_path_join path ''notes 4''"
    using assms(5) by (subst unique_loop.simps) (simp add: str_int_4)
  then have "unique_loop fs path ''notes'' [] '' '' 3 = os_path_join path ''notes 4''"
    using assms(4) by (subst unique_loop.simps) (simp add: str_int_3)
  then have "unique_loop fs path ''notes'' [] '' '' 2 = os_path_join path ''notes 4''"
    using assms(3) by (subst unique_loop.simps) (simp add: str_int_2)
  then show ?thesis
    using assms(1,2)
    by (auto simp: get_valid_unique_filename_def get_unique_filename_def valid_notes)
qed

theorem valid_unique_notes_witness:
  "get_valid_unique_filename cwd_notes_files [] ''Notes'' [] '' '' 2 = Inr ''notes 4''
   \<and> get_valid_unique_filename notes_files ''nb'' ''Notes'' [] '' '' 2 = Inr ''nb/notes 4''"
proof -
  have a: "get_valid_unique_filename cwd_notes_files [] ''Notes'' [] '' '' 2
           = Inr (os_path_join [] ''notes 4'')"
    by (rule valid_unique_notes)
       (simp_all add: cwd_notes_files_def os_path_exists_def os_path_join_def)
  have b: "get_valid_unique_filename notes_files ''nb'' ''Notes'' [] '' '' 2
           = Inr (os_path_join ''nb'' ''notes 4'')"
    by (rule valid_unique_notes)
       (simp_all add: notes_files_def os_path_exists_def os_path_join_def)
  from a b show ?thesis by (simp add: os_path_join_def)
qed

text \<open>
  C4 as stated fails: for the directory \<^verbatim>\<open>nb\<close> the result is not the name
  \<^verbatim>\<open>notes 4\<close> (it is \<^verbatim>\<open>nb/notes 4\<close>, by the witness above).
\<close>

theorem valid_unique_notes_counterexample:
  "get_valid_unique_filename notes_files ''nb'' ''Notes'' [] '' '' 2 \<noteq> Inr ''notes 4''"
  by code_simp

subsection \<open>Basic facts\<close>

lemma then_do_Inl [simp]: "then_do (Inl e, s) f = (Inl e, s)"
  by (simp add: then_do_def)

lemma then_do_Inr [simp]: "then_do (Inr a, s) f = f a s"
  by (simp add: then_do_def)

lemma example_path_0: "get_path example_state 0 = Inr ''nb''"
  by (simp add: get_path_def example_state_def example_heap_def example_node_def
      eval_nat_numeral)

subsection \<open>Preferences: the version gate\<close>

text \<open>
  C1, as the code has it. If the parser decodes the preferences file into a record
  \<open>p\<close> whose version is above \<^verbatim>\<open>NOTEBOOK_FORMAT_VERSION\<close>, then
  \<^verbatim>\<open>read_preferences\<close> raises \<^verbatim>\<open>NoteBookVersionError\<close> with that version, and
  the notebook's \<^verbatim>\<open>pref\<close> holds the decoded record afterwards: the parser has read
  into \<^verbatim>\<open>self.pref\<close> before the version is checked. Nothing else of the state changes.
\<close>

theorem read_preferences_version_gate:
  assumes "get_path s nb = Inr path"
    and "xmlo_read (files s) (nb_pref s) (get_pref_file path) = Inr p"
    and "pref_version p > NOTEBOOK_FORMAT_VERSION"
  shows "NoteBook_read_preferences s nb
         = (Inl (NoteBookVersionError (pref_version p) NOTEBOOK_FORMAT_VERSION),
            s\<lparr>nb_pref := p\<rparr>)"
  using assms by (simp add: NoteBook_read_preferences_def)

lemma newer_pref_read:
  "xmlo_read (files newer_pref_state) (nb_pref newer_pref_state) (get_pref_file ''nb'')
   = Inr \<lparr>pref_version = 3, pref_default_font = ''Serif 12''\<rparr>"
  by (simp add: xmlo_read_def newer_pref_state_def example_state_def example_files_def
      get_pref_file_def PREF_FILE_def os_path_join_def NoteBookPreferences_def)

lemma newer_pref_path: "get_path newer_pref_state 0 = Inr ''nb''"
  using example_path_0 by (simp add: get_path_def newer_pref_state_def)

theorem read_preferences_version_gate_witness:
  "NoteBook_read_preferences newer_pref_state 0
   = (Inl (NoteBookVersionError 3 2),
      newer_pref_state\<lparr>nb_pref := \<lparr>pref_version = 3, pref_default_font = ''Serif 12''\<rparr>\<rparr>)"
  using read_preferences_version_gate [OF newer_pref_path newer_pref_read]
  by (simp add: NOTEBOOK_FORMAT_VERSION_def)

text \<open>
  C1 as stated fails: a notebook with the preferences of a new notebook (version 2,
  \<^verbatim>\<open>Sans 10\<close>) reads a file of version 3; the call raises the version error and
  leaves the file's version and font in \<^verbatim>\<open>pref\<close>.
\<close>

theorem read_preferences_counterexample:
  "fst (NoteBook_read_preferences newer_pref_state 0) = Inl (NoteBookVersionError 3 2)
   \<and> nb_pref newer_pref_state = \<lparr>pref_version = 2, pref_default_font = ''Sans 10''\<rparr>
   \<and> nb_pref (snd (NoteBook_read_preferences newer_pref_state 0))
       = \<lparr>pref_version = 3, pref_default_font = ''Serif 12''\<rparr>
   \<and> nb_pref (snd (NoteBook_read_preferences newer_pref_state 0)) \<noteq> nb_pref newer_pref_state"
  by (simp add: NoteBook_read_preferences_def newer_pref_path newer_pref_read
      NOTEBOOK_FORMAT_VERSION_def)
     (simp add: newer_pref_state_def example_state_def NoteBookPreferences_def
      NOTEBOOK_FORMAT_VERSION_def DEFAULT_FONT_def)

subsection \<open>Attribute mutation and the dirty set\<close>

text \<open>
  The three setters mark the node dirty (for a node that has a notebook).
\<close>

lemma setters_mark_dirty:
  assumes "n_notebook (heap s n) \<noteq> None"
  shows "fst (Node_set_attr s n name v) = Inr ()
         \<and> NoteBook_is_dirty_node (snd (Node_set_attr s n name v)) n"
    and "fst (Node_set_attr_timestamp s n name ts) = Inr ()
         \<and> NoteBook_is_dirty_node (snd (Node_set_attr_timestamp s n name ts)) n"
    and "fst (Node_set_info_sort s n info sort_dir) = Inr ()
         \<and> NoteBook_is_dirty_node (snd (Node_set_info_sort s n info sort_dir)) n"
  using assms
  by (auto simp: Node_set_attr_def Node_set_attr_timestamp_def Node_set_info_sort_def
      Node_set_dirty_def set_attr_raw_def node_upd_def NoteBook_set_dirty_node_def
      NoteBook_is_dirty_node_def split: option.splits)

text \<open>
  C3 fails for \<^verbatim>\<open>del_attr\<close>: it removes the attribute and does not call
  \<^verbatim>\<open>_set_dirty\<close>. In the example state the page \<^verbatim>\<open>a\<close> is clean; after
  \<^verbatim>\<open>del_attr("expanded")\<close> the attribute is gone and the page is still not in the
  dirty set.
\<close>

theorem del_attr_not_dirty:
  "map_of (n_attr (heap example_state 3)) ''expanded'' = Some (VBool False)
   \<and> fst (Node_del_attr example_state 3 ''expanded'') = Inr ()
   \<and> map_of (n_attr (heap (snd (Node_del_attr example_state 3 ''expanded'')) 3)) ''expanded''
       = None
   \<and> \<not> NoteBook_is_dirty_node (snd (Node_del_attr example_state 3 ''expanded'')) 3"
  by (simp add: Node_del_attr_def example_state_def example_heap_def example_node_def
      clear_attr_def node_upd_def NoteBook_is_dirty_node_def)

subsection \<open>The trash folder\<close>

text \<open>
  C7. For the Trash node, \<^verbatim>\<open>delete()\<close> always raises and leaves the whole state
  (tree and file system) as it was; \<^verbatim>\<open>move(parent, index)\<close> with a parent other than
  the notebook raises before anything is touched and leaves the whole state as it was;
  and a move under the notebook, of which the Trash node is a child, is the move of
  \<^verbatim>\<open>NoteBookNode\<close>.
\<close>

theorem trash_move_delete:
  "Trash_delete s n = (Inl (NoteBookError ''The Trash folder cannot be deleted.'' None), s)
   \<and> (n_class (heap s n) = CTrash \<and> Some parent \<noteq> n_notebook (heap s n) \<longrightarrow>
        move_method s n parent index
        = (Inl (NoteBookError ''The Trash folder must be a top-level folder.'' None), s))
   \<and> (n_class (heap s n) = CTrash \<and> Some parent = n_notebook (heap s n)
        \<and> n_parent (heap s n) = Some parent \<longrightarrow>
        move_method s n parent index = Node_move s n parent index)"
  by (simp add: Trash_delete_def move_method_def Trash_move_def)

theorem trash_move_delete_witness:
  "Trash_delete example_state 2
   = (Inl (NoteBookError ''The Trash folder cannot be deleted.'' None), example_state)
   \<and> move_method example_state 2 1 (Some 0)
       = (Inl (NoteBookError ''The Trash folder must be a top-level folder.'' None),
          example_state)
   \<and> move_method example_state 2 0 (Some 0) = Node_move example_state 2 0 (Some 0)"
proof -
  have c: "n_class (heap example_state 2) = CTrash"
    and nb: "n_notebook (heap example_state 2) = Some 0"
    and p: "n_parent (heap example_state 2) = Some 0"
    by (simp_all add: example_state_def example_heap_def example_node_def)
  show ?thesis
    using trash_move_delete [of example_state 2 1 "Some 0"]
      trash_move_delete [of example_state 2 0 "Some 0"] c nb p
    by simp
qed

subsection \<open>Saving the notebook\<close>

lemma save_nodes_invalid:
  "\<forall>n \<in> set ns. \<not> n_valid (heap s n) \<and> n_notebook (heap s n) \<noteq> None \<Longrightarrow>
   save_nodes s ns False = (Inr (), s)"
  by (induction ns) (auto simp: Node_save_def Node_is_dirty_def split: option.splits)

lemma save_nodes_result:
  "NoteBook_save s nb False = (Inr u, s') \<Longrightarrow> nb_dirty s' = []"
  by (auto simp: NoteBook_save_def then_do_def split: prod.splits sum.splits if_splits)

text \<open>
  C10. When \<^verbatim>\<open>NoteBook.save(force=False)\<close> returns, the dirty set is empty and
  \<^verbatim>\<open>save_needed()\<close> is false. This is so even when the dirty set held invalid
  nodes: if every dirty node is invalid (and the notebook itself is not dirty), the call
  returns with the dirty set emptied and nothing else changed, so nothing was written.
\<close>

theorem notebook_save_clears_dirty:
  "(NoteBook_save s nb False = (Inr u, s') \<longrightarrow> nb_dirty s' = [] \<and> \<not> save_needed s')
   \<and> (n_notebook (heap s nb) \<noteq> None \<and> nb \<notin> set (nb_dirty s)
        \<and> (\<forall>n \<in> set (nb_dirty s). \<not> n_valid (heap s n) \<and> n_notebook (heap s n) \<noteq> None) \<longrightarrow>
        NoteBook_save s nb False = (Inr (), s\<lparr>nb_dirty := []\<rparr>))"
proof (intro conjI impI)
  assume "NoteBook_save s nb False = (Inr u, s')"
  then show "nb_dirty s' = []" by (rule save_nodes_result)
  then show "\<not> save_needed s'" by (simp add: save_needed_def)
next
  assume a: "n_notebook (heap s nb) \<noteq> None \<and> nb \<notin> set (nb_dirty s)
        \<and> (\<forall>n \<in> set (nb_dirty s). \<not> n_valid (heap s n) \<and> n_notebook (heap s n) \<noteq> None)"
  then have d: "Node_set_dirty s nb False = (Inr (), s)"
    by (auto simp: Node_set_dirty_def NoteBook_set_dirty_node_def split: option.splits)
  from a have "save_nodes s (nb_dirty s) False = (Inr (), s)"
    by (intro save_nodes_invalid) simp
  with a d show "NoteBook_save s nb False = (Inr (), s\<lparr>nb_dirty := []\<rparr>)"
    by (simp add: NoteBook_save_def)
qed

theorem notebook_save_clears_dirty_witness:
  "NoteBook_is_dirty_node invalid_dirty_state 3
   \<and> \<not> n_valid (heap invalid_dirty_state 3)
   \<and> NoteBook_save invalid_dirty_state 0 False = (Inr (), invalid_dirty_state\<lparr>nb_dirty := []\<rparr>)
   \<and> files (snd (NoteBook_save invalid_dirty_state 0 False)) = files invalid_dirty_state
   \<and> \<not> save_needed (snd (NoteBook_save invalid_dirty_state 0 False))"
proof -
  have h: "n_notebook (heap invalid_dirty_state 0) \<noteq> None \<and> 0 \<notin> set (nb_dirty invalid_dirty_state)
        \<and> (\<forall>n \<in> set (nb_dirty invalid_dirty_state).
              \<not> n_valid (heap invalid_dirty_state n) \<and> n_notebook (heap invalid_dirty_state n) \<noteq> None)"
    by (simp add: invalid_dirty_state_def node_upd_def example_state_def example_heap_def
        example_node_def)
  have r: "NoteBook_save invalid_dirty_state 0 False
           = (Inr (), invalid_dirty_state\<lparr>nb_dirty := []\<rparr>)"
    using notebook_save_clears_dirty [of invalid_dirty_state 0 "()"] h by blast
  show ?thesis
    using r h by (simp add: save_needed_def NoteBook_is_dirty_node_def)
       (simp add: invalid_dirty_state_def node_upd_def)
qed

subsection \<open>What the operations leave alone\<close>

lemma Node_set_dirty_heap: "heap (snd (Node_set_dirty s n d)) = heap s"
  by (simp add: Node_set_dirty_def NoteBook_set_dirty_node_def split: option.splits)

lemma Node_write_meta_data_heap: "heap (snd (Node_write_meta_data s n)) = heap s"
  by (simp add: Node_write_meta_data_def split: sum.splits option.splits)

lemma Node_save_heap: "heap (snd (Node_save s n force)) = heap s"
proof -
  have a: "heap (snd (then_do (Node_write_meta_data s1 n) (\<lambda>u s2. Node_set_dirty s2 n False)))
           = heap s1" for s1
    using Node_write_meta_data_heap [of s1 n]
    by (cases "Node_write_meta_data s1 n") (auto simp: then_do_def Node_set_dirty_heap split: sum.splits)
  show ?thesis
    by (auto simp: Node_save_def Node_is_dirty_def a split: option.splits)
qed

lemma Node_save_failure: "Node_save s n True = (Inl e, s') \<Longrightarrow> s' = s"
  by (auto simp: Node_save_def Node_write_meta_data_def Node_set_dirty_def then_do_def
      split: if_splits sum.splits option.splits)

lemma notify_changes_heap: "heap (notify_changes s n ns r) = heap s"
  by (simp add: notify_changes_def split: option.splits)

lemma notify_change_heap: "heap (notify_change s n r) = heap s"
  by (simp add: notify_change_def notify_changes_heap)

lemma set_child_order_loop_children:
  "n_children (heap (snd (set_child_order_loop s cs i)) p) = n_children (heap s p)"
proof (induction cs arbitrary: s i)
  case Nil
  then show ?case by simp
next
  case (Cons c cs)
  show ?case
  proof (cases "map_of (n_attr (heap s c)) ''order''")
    case None
    then show ?thesis by simp
  next
    case (Some v)
    show ?thesis
    proof (cases "py_eq v (VInt i)")
      case True
      with Some Cons show ?thesis by simp
    next
      case False
      show ?thesis
      proof (cases "n_notebook (heap (set_attr_raw s c ''order'' (VInt i)) c)")
        case None
        with Some False show ?thesis
          by (simp add: Node_set_dirty_def set_attr_raw_def node_upd_def)
      next
        case (Some nb)
        with \<open>map_of (n_attr (heap s c)) ''order'' = Some v\<close> False Cons show ?thesis
          by (simp add: Node_set_dirty_def NoteBook_set_dirty_node_def set_attr_raw_def
              node_upd_def)
      qed
    qed
  qed
qed

lemma Node_set_child_order_children:
  "n_children (heap (snd (Node_set_child_order s n)) p) = n_children (heap s p)"
  by (simp add: Node_set_child_order_def set_child_order_loop_children split: option.splits)

subsection \<open>Moving within the parent\<close>

lemma set_child_order_loop_class:
  "n_class (heap (snd (set_child_order_loop s cs i)) p) = n_class (heap s p)"
proof (induction cs arbitrary: s i)
  case Nil
  then show ?case by simp
next
  case (Cons c cs)
  show ?case
  proof (cases "map_of (n_attr (heap s c)) ''order''")
    case None
    then show ?thesis by simp
  next
    case (Some v)
    show ?thesis
    proof (cases "py_eq v (VInt i)")
      case True
      with Some Cons show ?thesis by simp
    next
      case False
      show ?thesis
      proof (cases "n_notebook (heap (set_attr_raw s c ''order'' (VInt i)) c)")
        case None
        with Some False show ?thesis
          by (simp add: Node_set_dirty_def set_attr_raw_def node_upd_def)
      next
        case (Some nb)
        with \<open>map_of (n_attr (heap s c)) ''order'' = Some v\<close> False Cons show ?thesis
          by (simp add: Node_set_dirty_def NoteBook_set_dirty_node_def set_attr_raw_def
              node_upd_def)
      qed
    qed
  qed
qed

lemma Node_set_child_order_class:
  "n_class (heap (snd (Node_set_child_order s n)) p) = n_class (heap s p)"
  by (simp add: Node_set_child_order_def set_child_order_loop_class split: option.splits)

lemma order_key_Some: "map_of (n_attr (heap s c)) ''order'' = Some v \<Longrightarrow> order_key s c = py_key v"
  by (simp add: order_key_def)

lemma set_child_order_loop_renumber:
  assumes "distinct cs"
    and "\<forall>c\<in>set cs. n_notebook (heap s c) \<noteq> None \<and> map_of (n_attr (heap s c)) ''order'' \<noteq> None"
  shows "\<exists>h d. set_child_order_loop s cs i = (Inr (), s\<lparr>heap := h, nb_dirty := d\<rparr>)
      \<and> (\<forall>p. p \<notin> set cs \<longrightarrow> h p = heap s p)
      \<and> (\<forall>k<length cs. h (cs ! k)
            = (if order_key s (cs ! k) = py_key (VInt (i + int k)) then heap s (cs ! k)
               else (heap s (cs ! k))\<lparr>n_attr := AList.update ''order'' (VInt (i + int k))
                                                 (n_attr (heap s (cs ! k)))\<rparr>))
      \<and> (\<forall>p. p \<in> set d \<longleftrightarrow>
               p \<in> set (nb_dirty s)
               \<or> (\<exists>k<length cs. p = cs ! k \<and> order_key s (cs ! k) \<noteq> py_key (VInt (i + int k))))"
  using assms
proof (induction cs arbitrary: s i)
  case Nil
  show ?case by (intro exI [of _ "heap s"] exI [of _ "nb_dirty s"]) simp
next
  case (Cons c cs)
  from Cons.prems obtain v nb where v: "map_of (n_attr (heap s c)) ''order'' = Some v"
    and nb: "n_notebook (heap s c) = Some nb" by auto
  have ok: "order_key s c = py_key v" by (rule order_key_Some [OF v])
  have notin: "c \<notin> set cs" and dist: "distinct cs" using Cons.prems(1) by simp_all
  have e: "i + 1 + int k = i + int (Suc k)" for k by simp
  show ?case
  proof (cases "py_eq v (VInt i)")
    case True
    have step: "set_child_order_loop s (c # cs) i = set_child_order_loop s cs (i + 1)"
      using v True by simp
    have pre: "\<forall>c\<in>set cs. n_notebook (heap s c) \<noteq> None \<and> map_of (n_attr (heap s c)) ''order'' \<noteq> None"
      using Cons.prems(2) by simp
    from Cons.IH [OF dist pre, of "i + 1"] obtain h d where
      r: "set_child_order_loop s cs (i + 1) = (Inr (), s\<lparr>heap := h, nb_dirty := d\<rparr>)"
      and out: "\<forall>p. p \<notin> set cs \<longrightarrow> h p = heap s p"
      and at: "\<forall>k<length cs. h (cs ! k)
            = (if order_key s (cs ! k) = py_key (VInt (i + int (Suc k))) then heap s (cs ! k)
               else (heap s (cs ! k))\<lparr>n_attr := AList.update ''order'' (VInt (i + int (Suc k)))
                                                 (n_attr (heap s (cs ! k)))\<rparr>)"
      and dd: "\<forall>p. p \<in> set d \<longleftrightarrow>
               p \<in> set (nb_dirty s)
               \<or> (\<exists>k<length cs. p = cs ! k \<and> order_key s (cs ! k) \<noteq> py_key (VInt (i + int (Suc k))))"
      unfolding e by blast
    have k0: "order_key s c = py_key (VInt i)" using ok True by (simp add: py_eq_def)
    have hc: "h c = heap s c" using out notin by simp
    show ?thesis
    proof (intro exI [of _ h] exI [of _ d] conjI)
      show "set_child_order_loop s (c # cs) i = (Inr (), s\<lparr>heap := h, nb_dirty := d\<rparr>)"
        using step r by simp
      show "\<forall>p. p \<notin> set (c # cs) \<longrightarrow> h p = heap s p" using out by simp
      show "\<forall>k<length (c # cs). h ((c # cs) ! k)
            = (if order_key s ((c # cs) ! k) = py_key (VInt (i + int k)) then heap s ((c # cs) ! k)
               else (heap s ((c # cs) ! k))\<lparr>n_attr := AList.update ''order'' (VInt (i + int k))
                                                 (n_attr (heap s ((c # cs) ! k)))\<rparr>)"
        using at hc k0 by (simp add: All_less_Suc2 del: of_nat_Suc)
      show "\<forall>p. p \<in> set d \<longleftrightarrow>
               p \<in> set (nb_dirty s)
               \<or> (\<exists>k<length (c # cs). p = (c # cs) ! k
                     \<and> order_key s ((c # cs) ! k) \<noteq> py_key (VInt (i + int k)))"
        using dd k0 by (simp add: Ex_less_Suc2 del: of_nat_Suc)
    qed
  next
    case False
    define s1 where "s1 = NoteBook_set_dirty_node (set_attr_raw s c ''order'' (VInt i)) c True"
    have h1: "heap s1 = (heap s)(c := (heap s c)\<lparr>n_attr := AList.update ''order'' (VInt i) (n_attr (heap s c))\<rparr>)"
      by (simp add: s1_def NoteBook_set_dirty_node_def set_attr_raw_def node_upd_def)
    have d1: "set (nb_dirty s1) = insert c (set (nb_dirty s))"
      by (auto simp: s1_def NoteBook_set_dirty_node_def set_attr_raw_def node_upd_def)
    have step: "set_child_order_loop s (c # cs) i = set_child_order_loop s1 cs (i + 1)"
      using v False nb
      by (simp add: Node_set_dirty_def s1_def set_attr_raw_def node_upd_def)
    have same: "heap s1 p = heap s p" if "p \<noteq> c" for p using that h1 by simp
    have same_cs: "heap s1 p = heap s p" if "p \<in> set cs" for p
      by (rule same) (use that notin in auto)
    have pre: "\<forall>c\<in>set cs. n_notebook (heap s1 c) \<noteq> None \<and> map_of (n_attr (heap s1 c)) ''order'' \<noteq> None"
      using Cons.prems(2) same_cs by simp
    have ok1: "order_key s1 p = order_key s p" if "p \<in> set cs" for p
      using same_cs [OF that] by (simp add: order_key_def)
    from Cons.IH [OF dist pre, of "i + 1"] obtain h d where
      r: "set_child_order_loop s1 cs (i + 1) = (Inr (), s1\<lparr>heap := h, nb_dirty := d\<rparr>)"
      and out: "\<forall>p. p \<notin> set cs \<longrightarrow> h p = heap s1 p"
      and at: "\<forall>k<length cs. h (cs ! k)
            = (if order_key s1 (cs ! k) = py_key (VInt (i + int (Suc k))) then heap s1 (cs ! k)
               else (heap s1 (cs ! k))\<lparr>n_attr := AList.update ''order'' (VInt (i + int (Suc k)))
                                                 (n_attr (heap s1 (cs ! k)))\<rparr>)"
      and dd: "\<forall>p. p \<in> set d \<longleftrightarrow>
               p \<in> set (nb_dirty s1)
               \<or> (\<exists>k<length cs. p = cs ! k \<and> order_key s1 (cs ! k) \<noteq> py_key (VInt (i + int (Suc k))))"
      unfolding e by blast
    have at': "\<forall>k<length cs. h (cs ! k)
            = (if order_key s (cs ! k) = py_key (VInt (i + int (Suc k))) then heap s (cs ! k)
               else (heap s (cs ! k))\<lparr>n_attr := AList.update ''order'' (VInt (i + int (Suc k)))
                                                 (n_attr (heap s (cs ! k)))\<rparr>)"
      using at ok1 same_cs by simp
    have dd': "\<forall>p. p \<in> set d \<longleftrightarrow>
               p = c \<or> p \<in> set (nb_dirty s)
               \<or> (\<exists>k<length cs. p = cs ! k \<and> order_key s (cs ! k) \<noteq> py_key (VInt (i + int (Suc k))))"
      using dd ok1 d1 by auto
    have k0: "order_key s c \<noteq> py_key (VInt i)" using ok False by (simp add: py_eq_def)
    have hc: "h c = (heap s c)\<lparr>n_attr := AList.update ''order'' (VInt i) (n_attr (heap s c))\<rparr>"
      using out notin h1 by simp
    have st: "s1\<lparr>heap := h, nb_dirty := d\<rparr> = s\<lparr>heap := h, nb_dirty := d\<rparr>"
      by (simp add: s1_def NoteBook_set_dirty_node_def set_attr_raw_def node_upd_def)
    show ?thesis
    proof (intro exI [of _ h] exI [of _ d] conjI)
      show "set_child_order_loop s (c # cs) i = (Inr (), s\<lparr>heap := h, nb_dirty := d\<rparr>)"
        using step r st by simp
      show "\<forall>p. p \<notin> set (c # cs) \<longrightarrow> h p = heap s p" using out same by simp
      show "\<forall>k<length (c # cs). h ((c # cs) ! k)
            = (if order_key s ((c # cs) ! k) = py_key (VInt (i + int k)) then heap s ((c # cs) ! k)
               else (heap s ((c # cs) ! k))\<lparr>n_attr := AList.update ''order'' (VInt (i + int k))
                                                 (n_attr (heap s ((c # cs) ! k)))\<rparr>)"
        using at' hc k0 by (simp add: All_less_Suc2 del: of_nat_Suc)
      show "\<forall>p. p \<in> set d \<longleftrightarrow>
               p \<in> set (nb_dirty s)
               \<or> (\<exists>k<length (c # cs). p = (c # cs) ! k
                     \<and> order_key s ((c # cs) ! k) \<noteq> py_key (VInt (i + int k)))"
        using dd' k0 by (auto simp add: Ex_less_Suc2 simp del: of_nat_Suc)
    qed
  qed
qed


lemma path_list_frame:
  assumes "\<And>p. n_parent (h' p) = n_parent (h p)"
    and "\<And>p. n_basename (h' p) = n_basename (h p)"
  shows "path_list k h' x = path_list k h x"
proof (induction k arbitrary: x)
  case 0
  show ?case by (cases x) simp_all
next
  case (Suc k)
  show ?case using assms Suc by (cases x) (simp_all split: option.splits)
qed

lemma order_below_index_int: "order_below_index (VInt order) (Some i) = (order < i)"
  by (simp add: order_below_index_def py_lt_def py_key_def)

lemma py_insert_Inr:
  assumes "py_insert xs i x = Inr ys"
  shows "\<exists>j\<le>length xs. ys = take j xs @ [x] @ drop j xs"
proof -
  define j where "j = nat (if i < 0 then max 0 (i + int (length xs)) else min i (int (length xs)))"
  have "j \<le> length xs" by (auto simp: j_def)
  moreover have "ys = take j xs @ [x] @ drop j xs"
    using assms by (simp add: py_insert_def Let_def j_def split: if_splits)
  ultimately show ?thesis by blast
qed

lemma py_insert_set:
  assumes "py_insert xs i x = Inr ys"
  shows "set ys = insert x (set xs)" and "length ys = Suc (length xs)"
    and "distinct xs \<Longrightarrow> x \<notin> set xs \<Longrightarrow> distinct ys"
proof -
  from py_insert_Inr [OF assms] obtain j where j: "j \<le> length xs"
    and ys: "ys = take j xs @ [x] @ drop j xs" by blast
  have s: "set (take j xs) \<union> set (drop j xs) = set xs"
    by (metis append_take_drop_id set_append)
  show "set ys = insert x (set xs)" using s by (auto simp: ys)
  show "length ys = Suc (length xs)" using j by (simp add: ys)
  show "distinct ys" if "distinct xs" "x \<notin> set xs"
  proof -
    have "set (take j xs) \<inter> set (drop j xs) = {}"
      by (rule set_take_disj_set_drop_if_distinct [OF that(1)]) simp
    moreover have "distinct (take j xs)" "distinct (drop j xs)" using that(1) by simp_all
    moreover have "x \<notin> set (take j xs)" "x \<notin> set (drop j xs)" using that(2) s by auto
    ultimately show ?thesis by (auto simp: ys)
  qed
qed

lemma same_parent_move:
  assumes ne: "n \<noteq> parent"
    and par: "n_parent (heap s n) = Some parent"
    and cls: "n_class (heap s n) \<noteq> CNoteBook"
    and path: "get_path s n = Inr path"
    and ch: "n_children (heap s parent) = Some cs"
    and dist: "distinct cs"
    and mem: "n \<in> set cs"
    and pnb: "n_notebook (heap s parent) \<noteq> None"
    and kids: "\<forall>c\<in>set cs. n_notebook (heap s c) \<noteq> None
                 \<and> (\<exists>k. map_of (n_attr (heap s c)) ''order'' = Some (VInt k))"
    and ord: "map_of (n_attr (heap s n)) ''order'' = Some (VInt order)"
    and r: "r = Node_move s n parent (Some i)"
    and idx: "idx = (if order < i then i - 1 else i)"
  shows "case py_insert (remove1 n cs) idx n of
           Inl e \<Rightarrow> fst r = Inl e
         | Inr cs' \<Rightarrow>
             n_children (heap (snd r) parent) = Some cs'
             \<and> (\<forall>k<length cs'.
                   map_of (n_attr (heap (snd r) (cs' ! k))) ''order'' = Some (VInt (int k)))
             \<and> (fst r = Inr () \<longleftrightarrow>
                  (n_valid (heap s n) \<longrightarrow>
                     (\<exists>fs'. MetaData_write (files s) (get_node_meta_file path)
                              (n_version (heap s n)) (n_attr (heap (snd r) n))
                              (nb_notebook_attrs s) = Inr fs')))"
proof -
  define s2 where "s2 = node_upd s parent (\<lambda>x. x\<lparr>n_children := Some (remove1 n cs)\<rparr>)"
  define s0 where "s0 = node_upd s2 n (\<lambda>x. x\<lparr>n_notebook := n_notebook (heap s2 parent)\<rparr>)"
  define tail where "tail = (\<lambda>(u::unit) s4.
      then_do (Node_set_dirty s4 n True)
        (\<lambda>u s5. then_do (save_method s5 n True)
           (\<lambda>u s6. (Inr (), notify_change s6 parent True))))"
  have rm: "Node_remove_child s parent n = (Inr (), s2)"
    using ch mem by (simp add: Node_remove_child_def s2_def)
  have ord2: "map_of (n_attr (heap s2 n)) ''order'' = Some (VInt order)"
    using ne ord by (simp add: s2_def node_upd_def)
  have mv: "r = then_do (Node_add_child s2 parent n (Some idx)) tail"
    using ne par path rm ord2
    by (simp add: r Node_move_def Let_def order_below_index_int idx tail_def)
  have c0: "n_children (heap s0 parent) = Some (remove1 n cs)"
    using ne by (simp add: s0_def s2_def node_upd_def)
  show ?thesis
  proof (cases "py_insert (remove1 n cs) idx n")
    case (Inl e)
    have "Node_add_child s2 parent n (Some idx) = (Inl e, s0)"
      using c0 Inl by (simp add: Node_add_child_def Let_def s0_def [symmetric])
    then have "fst r = Inl e" using mv by simp
    then show ?thesis using Inl by simp
  next
    case (Inr cs')
    define s1 where "s1 = node_upd s0 parent (\<lambda>x. x\<lparr>n_children := Some cs'\<rparr>)"
    have nrest: "n \<notin> set (remove1 n cs)" using dist by simp
    have set': "set cs' = insert n (set (remove1 n cs))"
      by (rule py_insert_set(1) [OF Inr])
    have sub: "set cs' \<subseteq> set cs" using set' mem set_remove1_subset [of n cs] by auto
    have dist': "distinct cs'"
      by (rule py_insert_set(3) [OF Inr]) (use dist nrest in simp_all)
    have attr1: "n_attr (heap s1 c) = n_attr (heap s c)" for c
      by (simp add: s1_def s0_def s2_def node_upd_def)
    have nb1: "n_notebook (heap s1 c)
               = (if c = n then n_notebook (heap s parent) else n_notebook (heap s c))" for c
      using ne by (simp add: s1_def s0_def s2_def node_upd_def)
    have par1: "n_parent (heap s1 c) = n_parent (heap s c)"
      and base1: "n_basename (heap s1 c) = n_basename (heap s c)"
      and cls1: "n_class (heap s1 c) = n_class (heap s c)"
      and val1: "n_valid (heap s1 c) = n_valid (heap s c)"
      and ver1: "n_version (heap s1 c) = n_version (heap s c)" for c
      by (simp_all add: s1_def s0_def s2_def node_upd_def)
    have ch1: "n_children (heap s1 parent) = Some cs'"
      by (simp add: s1_def node_upd_def)
    have kids1: "\<forall>c\<in>set cs'. n_notebook (heap s1 c) \<noteq> None
                   \<and> map_of (n_attr (heap s1 c)) ''order'' \<noteq> None"
      using kids sub pnb by (auto simp: attr1 nb1)
    from set_child_order_loop_renumber [OF dist' kids1, of 0] obtain h d where
      loop: "set_child_order_loop s1 cs' 0 = (Inr (), s1\<lparr>heap := h, nb_dirty := d\<rparr>)"
      and out: "\<forall>p. p \<notin> set cs' \<longrightarrow> h p = heap s1 p"
      and at: "\<forall>k<length cs'. h (cs' ! k)
            = (if order_key s1 (cs' ! k) = py_key (VInt (int k)) then heap s1 (cs' ! k)
               else (heap s1 (cs' ! k))\<lparr>n_attr := AList.update ''order'' (VInt (int k))
                                                 (n_attr (heap s1 (cs' ! k)))\<rparr>)"
      by auto
    define s3 where "s3 = s1\<lparr>heap := h, nb_dirty := d\<rparr>"
    have sco: "Node_set_child_order s1 parent = (Inr (), s3)"
      using ch1 loop by (simp add: Node_set_child_order_def s3_def)
    have frame: "h p = (heap s1 p)\<lparr>n_attr := n_attr (h p)\<rparr>" for p
    proof (cases "p \<in> set cs'")
      case False
      then show ?thesis using out by simp
    next
      case True
      then obtain k where "k < length cs'" "p = cs' ! k" by (auto simp: in_set_conv_nth)
      then show ?thesis using at by simp
    qed
    have nbh: "n_notebook (h c) = n_notebook (heap s1 c)"
      and parh: "n_parent (h c) = n_parent (heap s c)"
      and baseh: "n_basename (h c) = n_basename (heap s c)"
      and clsh: "n_class (h c) = n_class (heap s c)"
      and valh: "n_valid (h c) = n_valid (heap s c)"
      and verh: "n_version (h c) = n_version (heap s c)"
      and chh: "n_children (h c) = n_children (heap s1 c)" for c
      using frame [of c] par1 [of c] base1 [of c] cls1 [of c] val1 [of c] ver1 [of c]
      by (metis node.select_convs node.surjective node.update_convs)+
    obtain nb where nbn: "n_notebook (h n) = Some nb"
      using nbh [of n] nb1 [of n] pnb by auto
    define s4 where "s4 = NoteBook_set_dirty_node s3 n True"
    have heap3: "heap s3 = h" by (simp add: s3_def)
    have heap4: "heap s4 = h" by (simp add: s4_def s3_def NoteBook_set_dirty_node_def)
    have sd3: "Node_set_dirty s3 n True = (Inr (), s4)"
      using nbn by (simp add: Node_set_dirty_def heap3 s4_def)
    have ac: "Node_add_child s2 parent n (Some idx) = (Inr (), s4)"
      using c0 Inr sco sd3
      by (simp add: Node_add_child_def Let_def s0_def [symmetric] s1_def [symmetric])
    define s5 where "s5 = NoteBook_set_dirty_node s4 n True"
    have heap5: "heap s5 = h" by (simp add: s5_def heap4 NoteBook_set_dirty_node_def)
    have rest5: "files s5 = files s" "next_id s5 = next_id s"
      "nb_notebook_attrs s5 = nb_notebook_attrs s"
      by (simp_all add: s5_def s4_def s3_def s1_def s0_def s2_def node_upd_def
          NoteBook_set_dirty_node_def)
    have sd4: "Node_set_dirty s4 n True = (Inr (), s5)"
      using nbn by (simp add: Node_set_dirty_def heap4 s5_def)
    have sm: "save_method s5 n True = Node_save s5 n True"
      using cls clsh [of n] by (simp add: save_method_def heap5)
    have pl: "path_list k h x = path_list k (heap s) x" for k x
      by (rule path_list_frame) (simp_all add: parh baseh)
    have gp: "get_path s5 n = Inr path"
      using path by (simp add: get_path_def heap5 rest5 pl)
    define W where "W = MetaData_write (files s) (get_node_meta_file path)
                          (n_version (heap s n)) (n_attr (h n)) (nb_notebook_attrs s)"
    have wm: "Node_write_meta_data s5 n
              = (case W of Inl e \<Rightarrow> (Inl e, s5) | Inr fs' \<Rightarrow> (Inr (), s5\<lparr>files := fs'\<rparr>))"
      using gp nbn
      by (simp add: Node_write_meta_data_def get_meta_file_def heap5 rest5 verh W_def)
    have sv: "fst (Node_save s5 n True) = Inr () \<longleftrightarrow> (n_valid (heap s n) \<longrightarrow> (\<exists>fs'. W = Inr fs'))"
      using nbn
      by (cases W) (simp_all add: Node_save_def wm heap5 valh Node_set_dirty_def)
    have rt: "r = then_do (Node_save s5 n True) (\<lambda>u s6. (Inr (), notify_change s6 parent True))"
      using mv ac sd4 sm by (simp add: tail_def)
    have fr: "fst r = Inr () \<longleftrightarrow> fst (Node_save s5 n True) = Inr ()"
      unfolding rt by (cases "Node_save s5 n True"; cases "fst (Node_save s5 n True)") simp_all
    have hr: "heap (snd r) = h"
    proof -
      obtain a s6 where x: "Node_save s5 n True = (a, s6)" by (cases "Node_save s5 n True")
      then have "heap s6 = h" using Node_save_heap [of s5 n True] heap5 by simp
      then show ?thesis unfolding rt x by (cases a) (simp_all add: notify_change_heap)
    qed
    have orders: "map_of (n_attr (h (cs' ! k))) ''order'' = Some (VInt (int k))"
      if k: "k < length cs'" for k
    proof -
      have "cs' ! k \<in> set cs" using k sub by auto
      then obtain j where j: "map_of (n_attr (heap s (cs' ! k))) ''order'' = Some (VInt j)"
        using kids by blast
      have ok: "order_key s1 (cs' ! k) = py_key (VInt j)"
        using j by (simp add: order_key_def attr1)
      show ?thesis
      proof (cases "j = int k")
        case True
        then show ?thesis using at k ok j by (simp add: attr1)
      next
        case False
        then have "order_key s1 (cs' ! k) \<noteq> py_key (VInt (int k))"
          using ok by (simp add: py_key_def)
        then show ?thesis using at k by (simp add: update_conv')
      qed
    qed
    have "n_children (heap (snd r) parent) = Some cs'"
      using hr chh [of parent] ch1 by simp
    then show ?thesis
      using Inr orders fr sv hr by (simp add: W_def)
  qed
qed


lemma move_example:
  "(let r = Node_move example_state 5 1 (Some 0) in
      fst r = Inr ()
      \<and> n_children (heap (snd r) 1) = Some [5, 3, 4]
      \<and> map (\<lambda>c. map_of (n_attr (heap (snd r) c)) ''order'') [5, 3, 4]
          = [Some (VInt 0), Some (VInt 1), Some (VInt 2)])"
  by code_simp

lemma move_example_forward: "fst (Node_move example_state 3 1 (Some 2)) = Inr ()"
  by code_simp

lemma example_children:
  "n_children (heap example_state 1) = Some [3, 4, 5]
   \<and> map (\<lambda>c. map_of (n_attr (heap example_state c)) ''order'') [3, 4, 5]
       = [Some (VInt 0), Some (VInt 1), Some (VInt 2)]"
  by (simp add: example_state_def example_heap_def example_node_def clear_attr_def)

lemma example_path_5: "get_path example_state 5 = Inr ''nb/proj/c''"
  by code_simp

lemma example_path_3: "get_path example_state 3 = Inr ''nb/proj/a''"
  by code_simp

text \<open>
  C5. A node \<open>n\<close> with the integer order \<open>order\<close> is moved to the index \<open>i\<close> within its
  parent, whose loaded children \<open>cs\<close> are distinct and have integer orders. The index
  that \<^verbatim>\<open>list.insert\<close> gets is \<open>i - 1\<close> exactly when \<open>order < i\<close>, and \<open>i\<close> otherwise.
  When that index is outside the machine word the call raises what \<^verbatim>\<open>list.insert\<close>
  raises. Otherwise, for the list \<open>cs'\<close> that \<^verbatim>\<open>list.insert\<close> makes of the other
  children: after the call the children are \<open>cs'\<close>, every child has its position in
  \<open>cs'\<close> as its order, and the call returns exactly when the forced save writes the meta
  file of the node (an invalid node is not saved). In particular, for the children
  \<^verbatim>\<open>[a, b, c]\<close> with \<^verbatim>\<open>c\<close> of order 2, \<^verbatim>\<open>c.move(parent, 0)\<close> leaves the children
  \<^verbatim>\<open>[c, a, b]\<close> with the orders 0, 1, 2.
\<close>

theorem move_same_parent:
  assumes "n \<noteq> parent"
    and "n_parent (heap s n) = Some parent"
    and "n_class (heap s n) \<noteq> CNoteBook"
    and "get_path s n = Inr path"
    and "n_children (heap s parent) = Some cs"
    and "distinct cs"
    and "n \<in> set cs"
    and "n_notebook (heap s parent) \<noteq> None"
    and "\<forall>c\<in>set cs. n_notebook (heap s c) \<noteq> None
           \<and> (\<exists>k. map_of (n_attr (heap s c)) ''order'' = Some (VInt k))"
    and "map_of (n_attr (heap s n)) ''order'' = Some (VInt order)"
  shows "(let r = Node_move s n parent (Some i);
              idx = (if order < i then i - 1 else i)
          in case py_insert (remove1 n cs) idx n of
               Inl e \<Rightarrow> fst r = Inl e
             | Inr cs' \<Rightarrow>
                 n_children (heap (snd r) parent) = Some cs'
                 \<and> (\<forall>k<length cs'.
                       map_of (n_attr (heap (snd r) (cs' ! k))) ''order'' = Some (VInt (int k)))
                 \<and> (fst r = Inr () \<longleftrightarrow>
                      (n_valid (heap s n) \<longrightarrow>
                         (\<exists>fs'. MetaData_write (files s) (get_node_meta_file path)
                                  (n_version (heap s n)) (n_attr (heap (snd r) n))
                                  (nb_notebook_attrs s) = Inr fs'))))
         \<and> (\<forall>a b. cs = [a, b, n] \<and> order = 2 \<and> i = 0 \<longrightarrow>
               (let r = Node_move s n parent (Some i) in
                  n_children (heap (snd r) parent) = Some [n, a, b]
                  \<and> map (\<lambda>c. map_of (n_attr (heap (snd r) c)) ''order'') [n, a, b]
                      = [Some (VInt 0), Some (VInt 1), Some (VInt 2)]))"
proof -
  define r where "r = Node_move s n parent (Some i)"
  define idx where "idx = (if order < i then i - 1 else i)"
  note g = same_parent_move [OF assms r_def idx_def]
  have special: "n_children (heap (snd r) parent) = Some [n, a, b]
                  \<and> map (\<lambda>c. map_of (n_attr (heap (snd r) c)) ''order'') [n, a, b]
                      = [Some (VInt 0), Some (VInt 1), Some (VInt 2)]"
    if c: "cs = [a, b, n]" and o: "order = 2" and i: "i = 0" for a b
  proof -
    have ne: "a \<noteq> n" "b \<noteq> n" using assms(6) c by auto
    have ins: "py_insert (remove1 n cs) idx n = Inr [n, a, b]"
      using ne by (simp add: c idx_def o i py_insert_def sys_maxint_def)
    have ch: "n_children (heap (snd r) parent) = Some [n, a, b]"
      and ords: "\<forall>k<length [n, a, b].
                   map_of (n_attr (heap (snd r) ([n, a, b] ! k))) ''order'' = Some (VInt (int k))"
      using g unfolding ins by simp_all
    have "map_of (n_attr (heap (snd r) ([n, a, b] ! 0))) ''order'' = Some (VInt (int 0))"
      "map_of (n_attr (heap (snd r) ([n, a, b] ! 1))) ''order'' = Some (VInt (int 1))"
      "map_of (n_attr (heap (snd r) ([n, a, b] ! 2))) ''order'' = Some (VInt (int 2))"
      using ords by (simp_all add: All_less_Suc)
    then show ?thesis using ch by simp
  qed
  show ?thesis
    apply (rule conjI)
    subgoal using g unfolding Let_def r_def idx_def .
    subgoal using special unfolding r_def by (simp add: Let_def)
    done
qed

theorem move_same_parent_witness:
  "n_children (heap example_state 1) = Some [3, 4, 5]
   \<and> map (\<lambda>c. map_of (n_attr (heap example_state c)) ''order'') [3, 4, 5]
       = [Some (VInt 0), Some (VInt 1), Some (VInt 2)]
   \<and> (let r = Node_move example_state 5 1 (Some 0) in
        fst r = Inr ()
        \<and> n_children (heap (snd r) 1) = Some [5, 3, 4]
        \<and> map (\<lambda>c. map_of (n_attr (heap (snd r) c)) ''order'') [5, 3, 4]
            = [Some (VInt 0), Some (VInt 1), Some (VInt 2)])
   \<and> (let r = Node_move example_state 3 1 (Some 2) in
        fst r = Inr ()
        \<and> n_children (heap (snd r) 1) = Some [4, 3, 5]
        \<and> map (\<lambda>c. map_of (n_attr (heap (snd r) c)) ''order'') [4, 3, 5]
            = [Some (VInt 0), Some (VInt 1), Some (VInt 2)])"
proof -
  have kids: "\<forall>c\<in>set [3, 4, 5]. n_notebook (heap example_state c) \<noteq> None
           \<and> (\<exists>k. map_of (n_attr (heap example_state c)) ''order'' = Some (VInt k))"
    by (simp add: example_state_def example_heap_def example_node_def clear_attr_def)
  have first: "\<forall>a b. [3, 4, 5] = [a, b, 5] \<and> (2::int) = 2 \<and> (0::int) = 0 \<longrightarrow>
               (let r = Node_move example_state 5 1 (Some 0) in
                  n_children (heap (snd r) 1) = Some [5, a, b]
                  \<and> map (\<lambda>c. map_of (n_attr (heap (snd r) c)) ''order'') [5, a, b]
                      = [Some (VInt 0), Some (VInt 1), Some (VInt 2)])"
    using move_same_parent [of 5 1 example_state "''nb/proj/c''" "[3, 4, 5]" 2 0] kids
      example_path_5
    by (simp add: example_state_def example_heap_def example_node_def clear_attr_def)
  have second: "(let r = Node_move example_state 3 1 (Some 2);
              idx = (if (0::int) < 2 then 2 - 1 else 2)
          in case py_insert (remove1 3 [3, 4, 5]) idx 3 of
               Inl e \<Rightarrow> fst r = Inl e
             | Inr cs' \<Rightarrow>
                 n_children (heap (snd r) 1) = Some cs'
                 \<and> (\<forall>k<length cs'.
                       map_of (n_attr (heap (snd r) (cs' ! k))) ''order'' = Some (VInt (int k)))
                 \<and> (fst r = Inr () \<longleftrightarrow>
                      (n_valid (heap example_state 3) \<longrightarrow>
                         (\<exists>fs'. MetaData_write (files example_state)
                                  (get_node_meta_file ''nb/proj/a'')
                                  (n_version (heap example_state 3)) (n_attr (heap (snd r) 3))
                                  (nb_notebook_attrs example_state) = Inr fs'))))"
    using move_same_parent [of 3 1 example_state "''nb/proj/a''" "[3, 4, 5]" 0 2] kids
      example_path_3
    by (simp add: example_state_def example_heap_def example_node_def clear_attr_def)
  have ins: "py_insert [4, 5] 1 (3::nat) = Inr [4, 3, 5]"
    by (simp add: py_insert_def sys_maxint_def)
  have f1: "n_children (heap (snd (Node_move example_state 3 1 (Some 2))) 1) = Some [4, 3, 5]"
    and f2: "\<forall>k<length [4, 3, 5::nat].
               map_of (n_attr (heap (snd (Node_move example_state 3 1 (Some 2))) ([4, 3, 5] ! k)))
                 ''order'' = Some (VInt (int k))"
    using second by (simp_all add: Let_def ins)
  have f3: "map_of (n_attr (heap (snd (Node_move example_state 3 1 (Some 2))) ([4, 3, 5] ! 0)))
                 ''order'' = Some (VInt (int 0))"
    "map_of (n_attr (heap (snd (Node_move example_state 3 1 (Some 2))) ([4, 3, 5] ! 1)))
                 ''order'' = Some (VInt (int 1))"
    "map_of (n_attr (heap (snd (Node_move example_state 3 1 (Some 2))) ([4, 3, 5] ! 2)))
                 ''order'' = Some (VInt (int 2))"
    using f2 by (simp_all add: All_less_Suc)
  show ?thesis
    using example_children move_example move_example_forward first f1 f3
    by (simp add: Let_def)
qed

subsection \<open>Renaming\<close>

lemma os_rename_error: "os_rename fs src dst = Inl e \<Longrightarrow> e = OSError"
  by (simp add: os_rename_def split: if_splits)

text \<open>
  C2, as the code has it. For a node with a parent (and not the notebook object) that
  is renamed to a title different from its current one, where \<open>path\<close> is its path and
  \<open>path2\<close> the new path: if the directory rename fails, \<^verbatim>\<open>rename\<close> raises the rename
  error and leaves the whole state, title and basename included, as it was; if the
  directory rename succeeds and the forced save then fails, \<^verbatim>\<open>rename\<close> raises with
  the title and the basename already set to the new title and the new directory's name,
  in step with the directory on disk.
\<close>

theorem rename_failure:
  assumes "n_parent (heap s n) \<noteq> None"
    and "n_class (heap s n) \<noteq> CNoteBook"
    and "map_of (n_attr (heap s n)) ''title'' = Some current"
    and "\<not> py_eq (VText title) current"
    and "get_path s n = Inr path"
    and "get_valid_unique_filename (files s) (os_path_dirname path) title [] '' '' 2 = Inr path2"
  shows "(os_rename (files s) path path2 = Inl e \<longrightarrow>
            Node_rename s n title = (Inl (NoteBookError (rename_message path path2) (Some e)), s))
       \<and> (os_rename (files s) path path2 = Inr fs'
            \<and> Node_save (Node_set_basename
                            (set_attr_raw (s\<lparr>files := fs'\<rparr>) n ''title'' (VText title)) n path2)
                  n True = (Inl e, s') \<longrightarrow>
            (\<exists>e'. fst (Node_rename s n title) = Inl e')
            \<and> snd (Node_rename s n title)
                = Node_set_basename (set_attr_raw (s\<lparr>files := fs'\<rparr>) n ''title'' (VText title))
                    n path2
            \<and> map_of (n_attr (heap (snd (Node_rename s n title)) n)) ''title''
                = Some (VText title)
            \<and> n_basename (heap (snd (Node_rename s n title)) n) = os_path_basename path2)"
proof (intro conjI impI)
  assume a: "os_rename (files s) path path2 = Inl e"
  then have "e = OSError" by (rule os_rename_error)
  with a assms show "Node_rename s n title
      = (Inl (NoteBookError (rename_message path path2) (Some e)), s)"
    by (auto simp: Node_rename_def rename_try_def)
next
  define mid where
    "mid = Node_set_basename (set_attr_raw (s\<lparr>files := fs'\<rparr>) n ''title'' (VText title)) n path2"
  assume "os_rename (files s) path path2 = Inr fs'
      \<and> Node_save (Node_set_basename
                      (set_attr_raw (s\<lparr>files := fs'\<rparr>) n ''title'' (VText title)) n path2)
            n True = (Inl e, s')"
  then have r: "os_rename (files s) path path2 = Inr fs'"
    and sv: "Node_save mid n True = (Inl e, s')"
    by (simp_all add: mid_def)
  from sv have s': "s' = mid" by (rule Node_save_failure)
  have cls: "n_class (heap mid n) \<noteq> CNoteBook"
    using assms(2) by (simp add: mid_def Node_set_basename_def set_attr_raw_def node_upd_def)
  have tr: "rename_try s n path path2 title = (Inl e, mid)"
    using r sv s' cls by (simp add: rename_try_def save_method_def mid_def [symmetric])
  have res: "snd (Node_rename s n title) = mid \<and> (\<exists>e'. fst (Node_rename s n title) = Inl e')"
    using assms tr by (auto simp: Node_rename_def)
  have t: "map_of (n_attr (heap mid n)) ''title'' = Some (VText title)"
    by (simp add: mid_def Node_set_basename_def set_attr_raw_def node_upd_def update_Some_unfold)
  have b: "n_basename (heap mid n) = os_path_basename path2"
    using assms(1) by (auto simp: mid_def Node_set_basename_def set_attr_raw_def node_upd_def)
  from res show "\<exists>e'. fst (Node_rename s n title) = Inl e'" by simp
  from res show "snd (Node_rename s n title)
      = Node_set_basename (set_attr_raw (s\<lparr>files := fs'\<rparr>) n ''title'' (VText title)) n path2"
    by (simp add: mid_def)
  from res t show "map_of (n_attr (heap (snd (Node_rename s n title)) n)) ''title''
      = Some (VText title)" by simp
  from res b show "n_basename (heap (snd (Node_rename s n title)) n) = os_path_basename path2"
    by simp
qed

lemma save_denied_facts:
  "n_parent (heap save_denied_state 3) \<noteq> None
   \<and> n_class (heap save_denied_state 3) \<noteq> CNoteBook
   \<and> map_of (n_attr (heap save_denied_state 3)) ''title'' = Some (VText ''A'')
   \<and> \<not> py_eq (VText ''z'') (VText ''A'')
   \<and> n_basename (heap save_denied_state 3) = ''a''"
  by (simp add: save_denied_state_def example_state_def example_heap_def example_node_def
      clear_attr_def py_eq_def py_key_def)

lemma save_denied_path: "get_path save_denied_state 3 = Inr ''nb/proj/a''"
  by code_simp

lemma save_denied_path2:
  "get_valid_unique_filename (files save_denied_state) (os_path_dirname ''nb/proj/a'') ''z'' []
     '' '' 2 = Inr ''nb/proj/z''"
  by code_simp

lemma save_denied_rename:
  "os_rename (files save_denied_state) ''nb/proj/a'' ''nb/proj/z''
   = Inr \<lparr>entries =
            [(''nb'', EDir),
             (''nb/notebook.nbk'', EPref (Some 2) (Some DEFAULT_FONT)),
             (''nb/proj'', EDir),
             (''nb/__TRASH__'', EDir),
             (''nb/proj/z'', EDir),
             (''nb/proj/b'', EDir),
             (''nb/proj/c'', EDir)],
          denied = [''nb/proj/z/node.xml'']\<rparr>"
  by code_simp

lemma save_denied_result:
  "fst (Node_rename save_denied_state 3 ''z'')
   = Inl (NoteBookError (rename_message ''nb/proj/a'' ''nb/proj/z'')
            (Some (NoteBookError ''Cannot write meta data'' (Some IOError))))"
  by code_simp

lemma save_denied_save:
  "fst (Node_save
          (Node_set_basename
             (set_attr_raw
                (save_denied_state\<lparr>files :=
                   \<lparr>entries =
                      [(''nb'', EDir),
                       (''nb/notebook.nbk'', EPref (Some 2) (Some DEFAULT_FONT)),
                       (''nb/proj'', EDir),
                       (''nb/__TRASH__'', EDir),
                       (''nb/proj/z'', EDir),
                       (''nb/proj/b'', EDir),
                       (''nb/proj/c'', EDir)],
                    denied = [''nb/proj/z/node.xml'']\<rparr>\<rparr>)
                3 ''title'' (VText ''z''))
             3 ''nb/proj/z'')
          3 True)
   = Inl (NoteBookError ''Cannot write meta data'' (Some IOError))"
  by code_simp

lemma rename_denied_facts:
  "n_parent (heap rename_denied_state 3) \<noteq> None
   \<and> n_class (heap rename_denied_state 3) \<noteq> CNoteBook
   \<and> map_of (n_attr (heap rename_denied_state 3)) ''title'' = Some (VText ''A'')
   \<and> \<not> py_eq (VText ''z'') (VText ''A'')"
  by (simp add: rename_denied_state_def example_state_def example_heap_def example_node_def
      clear_attr_def py_eq_def py_key_def)

lemma rename_denied_path: "get_path rename_denied_state 3 = Inr ''nb/proj/a''"
  by code_simp

lemma rename_denied_path2:
  "get_valid_unique_filename (files rename_denied_state) (os_path_dirname ''nb/proj/a'') ''z'' []
     '' '' 2 = Inr ''nb/proj/z''"
  by code_simp

lemma rename_denied_rename:
  "os_rename (files rename_denied_state) ''nb/proj/a'' ''nb/proj/z'' = Inl OSError"
  by code_simp

theorem rename_failure_witness:
  "Node_rename rename_denied_state 3 ''z''
   = (Inl (NoteBookError (rename_message ''nb/proj/a'' ''nb/proj/z'') (Some OSError)),
      rename_denied_state)
   \<and> map_of (n_attr (heap (snd (Node_rename save_denied_state 3 ''z'')) 3)) ''title''
       = Some (VText ''z'')
   \<and> n_basename (heap (snd (Node_rename save_denied_state 3 ''z'')) 3) = ''z''"
proof -
  have a: "Node_rename rename_denied_state 3 ''z''
      = (Inl (NoteBookError (rename_message ''nb/proj/a'' ''nb/proj/z'') (Some OSError)),
         rename_denied_state)"
    using rename_failure [of rename_denied_state 3 "VText ''A''" "''z''" "''nb/proj/a''"
        "''nb/proj/z''" OSError]
      rename_denied_facts rename_denied_path rename_denied_path2 rename_denied_rename
    by simp
  have sv: "Node_save
          (Node_set_basename
             (set_attr_raw
                (save_denied_state\<lparr>files :=
                   \<lparr>entries =
                      [(''nb'', EDir),
                       (''nb/notebook.nbk'', EPref (Some 2) (Some DEFAULT_FONT)),
                       (''nb/proj'', EDir),
                       (''nb/__TRASH__'', EDir),
                       (''nb/proj/z'', EDir),
                       (''nb/proj/b'', EDir),
                       (''nb/proj/c'', EDir)],
                    denied = [''nb/proj/z/node.xml'']\<rparr>\<rparr>)
                3 ''title'' (VText ''z''))
             3 ''nb/proj/z'')
          3 True
      = (Inl (NoteBookError ''Cannot write meta data'' (Some IOError)),
         snd (Node_save
          (Node_set_basename
             (set_attr_raw
                (save_denied_state\<lparr>files :=
                   \<lparr>entries =
                      [(''nb'', EDir),
                       (''nb/notebook.nbk'', EPref (Some 2) (Some DEFAULT_FONT)),
                       (''nb/proj'', EDir),
                       (''nb/__TRASH__'', EDir),
                       (''nb/proj/z'', EDir),
                       (''nb/proj/b'', EDir),
                       (''nb/proj/c'', EDir)],
                    denied = [''nb/proj/z/node.xml'']\<rparr>\<rparr>)
                3 ''title'' (VText ''z''))
             3 ''nb/proj/z'')
          3 True))"
    using save_denied_save by (simp add: prod_eq_iff)
  have b: "map_of (n_attr (heap (snd (Node_rename save_denied_state 3 ''z'')) 3)) ''title''
             = Some (VText ''z'')
           \<and> n_basename (heap (snd (Node_rename save_denied_state 3 ''z'')) 3)
             = os_path_basename ''nb/proj/z''"
    using rename_failure [of save_denied_state 3 "VText ''A''" "''z''" "''nb/proj/a''"
        "''nb/proj/z''", OF _ _ _ _ save_denied_path save_denied_path2]
      save_denied_facts save_denied_rename sv
    by blast
  have "os_path_basename ''nb/proj/z'' = ''z''" by code_simp
  with a b show ?thesis by simp
qed

text \<open>
  C2 as stated fails: on a file system that lets the directory be renamed and refuses
  the write of the meta file, \<^verbatim>\<open>rename("z")\<close> of the page \<^verbatim>\<open>a\<close> raises the rename
  error, and the title and the basename of the node are no longer \<^verbatim>\<open>A\<close> and
  \<^verbatim>\<open>a\<close>.
\<close>

theorem rename_failure_counterexample:
  "(let r = Node_rename save_denied_state 3 ''z'' in
      fst r = Inl (NoteBookError (rename_message ''nb/proj/a'' ''nb/proj/z'')
                     (Some (NoteBookError ''Cannot write meta data'' (Some IOError))))
      \<and> n_parent (heap save_denied_state 3) = Some 1
      \<and> map_of (n_attr (heap save_denied_state 3)) ''title'' = Some (VText ''A'')
      \<and> n_basename (heap save_denied_state 3) = ''a''
      \<and> map_of (n_attr (heap (snd r) 3)) ''title'' = Some (VText ''z'')
      \<and> n_basename (heap (snd r) 3) = ''z'')"
  by code_simp

lemma digit_char_in: "d < 10 \<Longrightarrow> digit_char d \<in> digit_chars"
proof -
  assume "d < 10"
  then have "d \<in> {0, 1, 2, 3, 4, 5, 6, 7, 8, 9}" by auto
  then show ?thesis by (auto simp: digit_char_def digit_chars_def)
qed

lemma digit_val_digit_char: "d < 10 \<Longrightarrow> digit_val (digit_char d) = Some d"
proof -
  assume "d < 10"
  then have "d \<in> {0, 1, 2, 3, 4, 5, 6, 7, 8, 9}" by auto
  then show ?thesis by (auto simp: digit_char_def digit_val_def)
qed

lemma str_nat_nonempty: "str_nat n \<noteq> []"
  by (subst str_nat.simps) simp

lemma str_nat_digits: "set (str_nat n) \<subseteq> digit_chars"
proof (induction n rule: str_nat.induct)
  case (1 n)
  show ?case
  proof (cases "n < 10")
    case True
    then show ?thesis by (subst str_nat.simps) (simp add: digit_char_in)
  next
    case False
    with 1 have "set (str_nat (n div 10)) \<subseteq> digit_chars" by simp
    moreover have "digit_char (n mod 10) \<in> digit_chars" by (simp add: digit_char_in)
    ultimately show ?thesis using False by (subst str_nat.simps) simp
  qed
qed

lemma digits_val_append:
  "digits_val (xs @ ys) acc
   = (case digits_val xs acc of None \<Rightarrow> None | Some a \<Rightarrow> digits_val ys a)"
  by (induction xs arbitrary: acc) (auto split: option.splits)

lemma digits_val_str_nat: "digits_val (str_nat n) 0 = Some n"
proof (induction n rule: str_nat.induct)
  case (1 n)
  show ?case
  proof (cases "n < 10")
    case True
    then show ?thesis by (subst str_nat.simps) (simp add: digit_val_digit_char)
  next
    case False
    with 1 have "digits_val (str_nat (n div 10)) 0 = Some (n div 10)" by simp
    then show ?thesis
      using False
      by (subst str_nat.simps) (simp add: digits_val_append digit_val_digit_char)
  qed
qed

lemma strip_id: "\<forall>c \<in> set s. c \<notin> set chars \<Longrightarrow> strip chars s = s"
proof -
  assume a: "\<forall>c \<in> set s. c \<notin> set chars"
  then have "dropWhile (\<lambda>c. c \<in> set chars) s = s"
    by (cases s) auto
  moreover from a have "dropWhile (\<lambda>c. c \<in> set chars) (rev s) = rev s"
    by (cases "rev s") (auto simp: dropWhile_eq_self_iff)
  ultimately show ?thesis by (simp add: strip_def)
qed

lemma digit_chars_not_space: "c \<in> digit_chars \<Longrightarrow> c \<notin> set whitespace"
  by (auto simp: digit_chars_def whitespace_def)

lemma digit_chars_not_sign: "c \<in> digit_chars \<Longrightarrow> c \<noteq> CHR ''-'' \<and> c \<noteq> CHR ''+''"
  by (auto simp: digit_chars_def)

lemma int_of_string_str_int: "int_of_string (str_int i) = Inr i"
proof (cases "i < 0")
  case True
  have s: "str_int i = CHR ''-'' # str_nat (nat (- i))" using True by (simp add: str_int_def)
  have "\<forall>c \<in> set (str_int i). c \<notin> set whitespace"
    using str_nat_digits [of "nat (- i)"] digit_chars_not_space
    by (auto simp: s whitespace_def)
  then have "strip whitespace (str_int i) = CHR ''-'' # str_nat (nat (- i))"
    using s by (simp add: strip_id)
  then show ?thesis
    using True by (simp add: int_of_string_def str_nat_nonempty digits_val_str_nat)
next
  case False
  have s: "str_int i = str_nat (nat i)" using False by (simp add: str_int_def)
  obtain c cs where cs: "str_nat (nat i) = c # cs"
    using str_nat_nonempty [of "nat i"] by (cases "str_nat (nat i)") auto
  have "\<forall>c \<in> set (str_int i). c \<notin> set whitespace"
    using str_nat_digits [of "nat i"] digit_chars_not_space by (auto simp: s)
  then have st: "strip whitespace (str_int i) = c # cs"
    using s cs by (simp add: strip_id)
  have "c \<in> digit_chars" using str_nat_digits [of "nat i"] cs by auto
  then have "c \<noteq> CHR ''-'' \<and> c \<noteq> CHR ''+''" by (rule digit_chars_not_sign)
  moreover have "digits_val (c # cs) 0 = Some (nat i)"
    using digits_val_str_nat [of "nat i"] cs by simp
  ultimately show ?thesis
    using False st by (simp add: int_of_string_def)
qed

subsection \<open>Escaped text and the parser\<close>

lemma split_on_append: "c \<notin> set a \<Longrightarrow> split_on c (a @ c # b) = Some (a, b)"
  by (induction a) auto

lemma escape_Cons: "escape (c # cs) = escape_char c @ escape cs"
  by (simp add: escape_def)

lemma escape_Nil: "escape [] = []"
  by (simp add: escape_def)

lemma escape_no_lt: "CHR ''<'' \<notin> set (escape w)"
  by (induction w) (auto simp: escape_def escape_char_def)

lemma escape_empty: "escape w = [] \<longleftrightarrow> w = []"
  by (cases w) (auto simp: escape_def escape_char_def)

lemma xml_newlines_empty: "xml_newlines w = [] \<longleftrightarrow> w = []"
  by (cases w) (auto split: list.splits)

lemma chardata_amp: "xml_chardata (''&amp;'' @ r) = map_option (Cons (CHR ''&'')) (xml_chardata r)"
  by (simp add: xml_entity_def)

lemma chardata_gt: "xml_chardata (''&gt;'' @ r) = map_option (Cons (CHR ''>'')) (xml_chardata r)"
  by (simp add: xml_entity_def)

lemma chardata_lt: "xml_chardata (''&lt;'' @ r) = map_option (Cons (CHR ''<'')) (xml_chardata r)"
  by (simp add: xml_entity_def)

lemma chardata_plain:
  "c \<noteq> CHR ''&'' \<Longrightarrow> c \<noteq> CHR 0x0D \<Longrightarrow> xml_char_ok c \<Longrightarrow>
   xml_chardata (c # r) = map_option (Cons c) (xml_chardata r)"
  by simp

lemma chardata_escape_char:
  "c \<noteq> CHR 0x0D \<Longrightarrow> xml_char_ok c \<Longrightarrow>
   xml_chardata (escape_char c @ r) = map_option (Cons c) (xml_chardata r)"
  using chardata_amp [of r] chardata_gt [of r] chardata_lt [of r]
  by (auto simp: escape_char_def)

lemma escape_char_head: "d \<noteq> newline \<Longrightarrow> \<exists>x xs. escape_char d = x # xs \<and> x \<noteq> newline"
  by (auto simp: escape_char_def newline_def)

lemma chardata_escape:
  "list_all xml_char_ok w \<Longrightarrow> xml_chardata (escape w) = Some (xml_newlines w)"
proof (induction w rule: xml_newlines.induct)
  case 1
  then show ?case by (simp add: escape_Nil)
next
  case (2 c cs)
  show ?case
  proof (cases "c = CHR 0x0D")
    case False
    with 2 show ?thesis
      by (simp add: escape_Cons chardata_escape_char)
  next
    case True
    then have ec: "escape (c # cs) = CHR 0x0D # escape cs"
      by (simp add: escape_Cons escape_char_def)
    show ?thesis
    proof (cases cs)
      case Nil
      with True ec show ?thesis by (simp add: escape_Nil)
    next
      case (Cons d ds)
      show ?thesis
      proof (cases "d = newline")
        case dn: True
        then have "escape cs = newline # escape ds"
          using Cons by (simp add: escape_Cons escape_char_def newline_def)
        moreover have "xml_chardata (escape ds) = Some (xml_newlines ds)"
          using 2 True Cons dn by simp
        ultimately show ?thesis using True ec Cons dn by simp
      next
        case dn: False
        then obtain x xs where x: "escape_char d = x # xs" "x \<noteq> newline"
          using escape_char_head by blast
        then have e: "escape cs = x # (xs @ escape ds)"
          using Cons by (simp add: escape_Cons)
        have ih: "xml_chardata (escape cs) = Some (xml_newlines cs)"
          using 2 True Cons dn by simp
        show ?thesis
          using True ec Cons dn x(2) ih unfolding e by simp
      qed
    qed
  qed
qed

lemma xml_newlines_id: "CHR 0x0D \<notin> set w \<Longrightarrow> xml_newlines w = w"
  by (induction w rule: xml_newlines.induct) auto

lemma chardata_id:
  "\<forall>c \<in> set s. xml_char_ok c \<and> c \<noteq> CHR ''&'' \<and> c \<noteq> CHR 0x0D \<Longrightarrow> xml_chardata s = Some s"
  by (induction s) auto

lemma attvalue_name: "list_all xml_name_char k \<Longrightarrow> xml_attvalue k = Some k"
proof (induction k)
  case Nil
  then show ?case by simp
next
  case (Cons c k)
  then have "xml_name_char c" by simp
  then have "c \<noteq> CHR ''&'' \<and> c \<noteq> CHR ''<'' \<and> c \<noteq> CHR 0x0D \<and> c \<noteq> CHR 0x0A \<and> c \<noteq> CHR 0x09
      \<and> xml_char_ok c"
    by (auto simp: xml_name_char_def xml_char_ok_def Let_def)
  with Cons show ?case by simp
qed

lemma name_char_plain:
  "xml_name_char c \<Longrightarrow> c \<noteq> dquote \<and> c \<noteq> CHR 0x27 \<and> c \<noteq> CHR ''<'' \<and> c \<noteq> CHR ''>''"
  by (auto simp: xml_name_char_def dquote_def Let_def)

subsection \<open>The tokens of a written document\<close>

lemma prepend_prepend: "prepend a (prepend b r) = prepend (a @ b) r"
  by (simp add: prepend_def)

lemma prepend_Nil: "prepend [] r = r"
  by (simp add: prepend_def)

lemma scan_in_quote:
  "\<forall>c \<in> set k. c \<noteq> q \<and> c \<noteq> CHR ''<'' \<Longrightarrow>
   scan_tag (k @ rest) (Some q)
   = (case scan_tag rest (Some q) of None \<Rightarrow> None | Some (a, b) \<Rightarrow> Some (k @ a, b))"
  by (induction k) (auto split: option.splits)

lemma scan_tag_attr:
  assumes "list_all xml_name_char k"
  shows "scan_tag (''attr key='' @ [dquote] @ k @ [dquote] @ ''>'' @ r) None
         = Some (''attr key='' @ [dquote] @ k @ [dquote], r)"
proof -
  have q: "\<forall>c \<in> set k. c \<noteq> dquote \<and> c \<noteq> CHR ''<''"
    using assms name_char_plain by (auto simp: list_all_iff)
  have "scan_tag (k @ ([dquote] @ ''>'' @ r)) (Some dquote) = Some (k @ [dquote], r)"
    by (subst scan_in_quote [OF q]) (simp add: dquote_def)
  then show ?thesis by (simp add: dquote_def)
qed

lemma parse_attr1_key:
  assumes "list_all xml_name_char k"
  shows "parse_attr1 ('' key='' @ [dquote] @ k @ [dquote]) = Some ((''key'', k), [])"
proof -
  have q: "dquote \<notin> set k"
    using assms name_char_plain by (auto simp: list_all_iff)
  have n: "xml_name_ok ''key''"
    by (simp add: xml_name_ok_def xml_name_char_def digit_val_def)
  have s: "split_on dquote (k @ [dquote]) = Some (k, [])"
    using split_on_append [OF q, of "[]"] by simp
  show ?thesis
    using n s attvalue_name [OF assms]
    by (simp add: parse_attr1_def xml_space_def Let_def dquote_def)
qed

lemma parse_tag_start:
  assumes "body = c # cs"
    and "c \<noteq> CHR ''?''" and "c \<noteq> CHR ''!''" and "c \<noteq> CHR ''/''"
    and "last body \<noteq> CHR ''/''"
    and "takeWhile (\<lambda>x. x \<notin> set xml_space) body = name"
    and "dropWhile (\<lambda>x. x \<notin> set xml_space) body = rest"
    and "xml_name_ok name"
    and "parse_attrs rest = Some attrs"
    and "distinct (map fst attrs)"
  shows "parse_tag body = Some [StartElement name attrs]"
  using assms unfolding parse_tag_def by (auto simp: Let_def)

lemma parse_tag_attr:
  assumes "list_all xml_name_char k"
  shows "parse_tag (''attr key='' @ [dquote] @ k @ [dquote])
         = Some [StartElement ''attr'' [(''key'', k)]]"
proof (rule parse_tag_start)
  show "''attr key='' @ [dquote] @ k @ [dquote]
        = CHR ''a'' # (''ttr key='' @ [dquote] @ k @ [dquote])" by simp
  show "last (''attr key='' @ [dquote] @ k @ [dquote]) \<noteq> CHR ''/''"
    by (simp add: dquote_def)
  show "takeWhile (\<lambda>x. x \<notin> set xml_space) (''attr key='' @ [dquote] @ k @ [dquote]) = ''attr''"
    by (simp add: xml_space_def)
  show "dropWhile (\<lambda>x. x \<notin> set xml_space) (''attr key='' @ [dquote] @ k @ [dquote])
            = '' key='' @ [dquote] @ k @ [dquote]"
    by (simp add: xml_space_def)
  show "xml_name_ok ''attr''"
    by (simp add: xml_name_ok_def xml_name_char_def digit_val_def)
  show "parse_attrs ('' key='' @ [dquote] @ k @ [dquote]) = Some [(''key'', k)]"
    using parse_attr1_key [OF assms]
    by (subst parse_attrs.simps) (simp add: xml_space_def parse_attrs.simps [of "[]"])
  show "distinct (map fst [(''key'', k)])" by simp
qed simp_all

lemma parse_tag_end_attr: "parse_tag ''/attr'' = Some [EndElement ''attr'']"
  by code_simp

lemma scan_tag_end_attr: "scan_tag (''/attr>'' @ rest) None = Some (''/attr'', rest)"
  by (simp add: dquote_def)

lemma tokens_tag:
  "scan_tag s None = Some (body, rest) \<Longrightarrow> parse_tag body = Some evs \<Longrightarrow>
   expat_tokens (CHR ''<'' # s) = prepend evs (expat_tokens rest)"
  by (simp add: expat_tokens.simps)

lemma tokens_text:
  assumes "t \<noteq> []" and "CHR ''<'' \<notin> set t" and "xml_chardata t = Some d"
  shows "expat_tokens (t @ CHR ''<'' # r)
         = prepend [CharacterData d] (expat_tokens (CHR ''<'' # r))"
proof -
  obtain c cs where t: "t = c # cs" using assms(1) by (cases t) auto
  have c: "c \<noteq> CHR ''<''" and cs: "\<forall>x \<in> set cs. x \<noteq> CHR ''<''"
    using assms(2) t by auto
  have tw: "takeWhile (\<lambda>x. x \<noteq> CHR ''<'') (c # cs @ CHR ''<'' # r) = c # cs"
    using c cs by (simp add: takeWhile_append2)
  have dw: "dropWhile (\<lambda>x. x \<noteq> CHR ''<'') (cs @ CHR ''<'' # r) = CHR ''<'' # r"
    using cs by (simp add: dropWhile_append2)
  show ?thesis
    using assms(3) c unfolding t
    by (simp add: expat_tokens.simps tw dw
        del: takeWhile.simps dropWhile.simps xml_chardata.simps)
qed

lemma tokens_text_end:
  assumes "t \<noteq> []" and "CHR ''<'' \<notin> set t" and "xml_chardata t = Some d"
  shows "expat_tokens t = ([CharacterData d], True)"
proof -
  obtain c cs where t: "t = c # cs" using assms(1) by (cases t) auto
  have c: "c \<noteq> CHR ''<''" and cs: "\<forall>x \<in> set cs. x \<noteq> CHR ''<''"
    using assms(2) t by auto
  have tw: "takeWhile (\<lambda>x. x \<noteq> CHR ''<'') (c # cs) = c # cs"
    using c cs by simp
  have dw: "dropWhile (\<lambda>x. x \<noteq> CHR ''<'') cs = []"
    using cs by simp
  show ?thesis
    using assms(3) c unfolding t
    by (simp add: expat_tokens.simps prepend_def tw dw
        del: takeWhile.simps dropWhile.simps xml_chardata.simps)
qed

lemma tokens_attr_line:
  assumes "list_all xml_name_char k" and "list_all xml_char_ok w"
  shows "expat_tokens (attr_line k (escape w) @ CHR ''<'' # r)
         = prepend (line_events (k, xml_newlines w)) (expat_tokens (CHR ''<'' # r))"
proof -
  have nl: "expat_tokens ([newline] @ CHR ''<'' # r)
            = prepend [CharacterData [newline]] (expat_tokens (CHR ''<'' # r))"
    by (rule tokens_text) (simp_all add: newline_def xml_char_ok_def)
  have en: "expat_tokens (''</attr>'' @ [newline] @ CHR ''<'' # r)
            = prepend [EndElement ''attr'', CharacterData [newline]] (expat_tokens (CHR ''<'' # r))"
    using tokens_tag [OF scan_tag_end_attr parse_tag_end_attr, of "[newline] @ CHR ''<'' # r"] nl
    by (simp add: prepend_prepend)
  have tx: "expat_tokens (escape w @ ''</attr>'' @ [newline] @ CHR ''<'' # r)
            = prepend ((if w = [] then [] else [CharacterData (xml_newlines w)])
                       @ [EndElement ''attr'', CharacterData [newline]])
                (expat_tokens (CHR ''<'' # r))"
  proof (cases "w = []")
    case True
    then show ?thesis using en by (simp add: escape_Nil)
  next
    case False
    have "expat_tokens (escape w @ CHR ''<'' # (''/attr>'' @ [newline] @ CHR ''<'' # r))
          = prepend [CharacterData (xml_newlines w)]
              (expat_tokens (CHR ''<'' # (''/attr>'' @ [newline] @ CHR ''<'' # r)))"
      by (rule tokens_text) (simp_all add: False escape_empty escape_no_lt chardata_escape assms(2))
    then show ?thesis using en False by (simp add: prepend_prepend)
  qed
  have "expat_tokens (CHR ''<'' # (''attr key='' @ [dquote] @ k @ [dquote] @ ''>''
                        @ (escape w @ ''</attr>'' @ [newline] @ CHR ''<'' # r)))
        = prepend [StartElement ''attr'' [(''key'', k)]]
            (expat_tokens (escape w @ ''</attr>'' @ [newline] @ CHR ''<'' # r))"
    by (rule tokens_tag [OF scan_tag_attr [OF assms(1)] parse_tag_attr [OF assms(1)]])
  then show ?thesis
    using tx by (simp add: attr_line_def line_events_def prepend_prepend xml_newlines_empty)
qed

subsection \<open>Writing registered attributes\<close>

lemma attr_write_typed:
  "value_of_type (attr_datatype a) v \<Longrightarrow> attr_write a v = Inr (written_text v)"
  by (cases "attr_datatype a"; cases v)
     (auto simp: attr_write_def written_text_def py_int_def py_unicode_def)

lemma write_attrs_registered:
  "\<forall>kv \<in> set attrs. registered schema (fst kv) (snd kv) \<Longrightarrow>
   write_attrs schema attrs
   = Inr (body_text (map (\<lambda>kv. (fst kv, written_text (snd kv))) attrs))"
proof (induction attrs)
  case Nil
  then show ?case by (simp add: body_text_def)
next
  case (Cons kv attrs)
  obtain k v where kv: "kv = (k, v)" by (cases kv)
  from Cons.prems obtain a where a: "map_of schema k = Some a"
    and t: "value_of_type (attr_datatype a) v"
    by (auto simp: kv registered_def split: option.splits)
  from Cons have ih: "write_attrs schema attrs
      = Inr (body_text (map (\<lambda>kv. (fst kv, written_text (snd kv))) attrs))" by simp
  show ?case
    using a ih attr_write_typed [OF t] by (simp add: kv body_text_def)
qed

lemma str_int_chars: "c \<in> set (str_int i) \<Longrightarrow> c \<in> digit_chars \<or> c = CHR ''-''"
  using str_nat_digits by (auto simp: str_int_def split: if_splits)

lemma str_int_nonempty: "str_int i \<noteq> []"
  by (simp add: str_int_def str_nat_nonempty)

lemma digit_chars_ok:
  "c \<in> digit_chars \<or> c = CHR ''-'' \<Longrightarrow>
   xml_char_ok c \<and> c \<noteq> CHR ''&'' \<and> c \<noteq> CHR 0x0D \<and> c \<noteq> CHR ''<''"
  by (auto simp: digit_chars_def xml_char_ok_def)

lemma str_int_plain:
  "\<forall>c \<in> set (str_int i). xml_char_ok c \<and> c \<noteq> CHR ''&'' \<and> c \<noteq> CHR 0x0D \<and> c \<noteq> CHR ''<''"
  using str_int_chars digit_chars_ok by blast

lemma written_text_ok:
  "value_of_type t v \<Longrightarrow> list_all xml_char_ok (written_text v)"
  using str_int_plain
  by (cases t; cases v) (auto simp: written_text_def list_all_iff)

lemma str_int_newlines: "xml_newlines (str_int i) = str_int i"
  using str_int_plain by (intro xml_newlines_id) blast

lemma attr_read_typed:
  "value_of_type (attr_datatype a) v \<Longrightarrow>
   attr_read a (xml_newlines (written_text v)) = Inr (xml_value v)"
  by (cases "attr_datatype a"; cases v)
     (auto simp: attr_read_def written_text_def xml_value_def str_int_newlines
        int_of_string_str_int)

lemma xml_value_id: "no_carriage_return v \<Longrightarrow> xml_value v = v"
  by (cases v) (auto simp: xml_value_def no_carriage_return_def xml_newlines_id)

lemma xml_value_not_None: "value_of_type t v \<Longrightarrow> xml_value v \<noteq> VNone"
  by (cases t; cases v) (auto simp: xml_value_def)

subsection \<open>The events of a written document\<close>

lemma attr_line_starts: "\<exists>r'. attr_line k t @ r = CHR ''<'' # r'"
  by (simp add: attr_line_def)

lemma body_text_starts: "\<exists>r'. body_text L @ CHR ''<'' # r = CHR ''<'' # r'"
  by (cases L) (auto simp: body_text_def attr_line_def)

lemma body_text_Cons:
  "body_text (kw # L) = attr_line (fst kw) (escape (snd kw)) @ body_text L"
  by (simp add: body_text_def)

lemma tokens_lines:
  "\<forall>kw \<in> set L. list_all xml_name_char (fst kw) \<and> list_all xml_char_ok (snd kw) \<Longrightarrow>
   expat_tokens (body_text L @ CHR ''<'' # r)
   = prepend (concat (map (\<lambda>kw. line_events (fst kw, xml_newlines (snd kw))) L))
       (expat_tokens (CHR ''<'' # r))"
proof (induction L)
  case Nil
  then show ?case by (simp add: body_text_def prepend_Nil)
next
  case (Cons kw L)
  obtain r' where r': "body_text L @ CHR ''<'' # r = CHR ''<'' # r'"
    using body_text_starts by blast
  have k: "list_all xml_name_char (fst kw)" and w: "list_all xml_char_ok (snd kw)"
    using Cons.prems by simp_all
  have "expat_tokens (body_text (kw # L) @ CHR ''<'' # r)
        = expat_tokens (attr_line (fst kw) (escape (snd kw)) @ CHR ''<'' # r')"
    by (simp add: body_text_Cons r')
  also have "\<dots> = prepend (line_events (fst kw, xml_newlines (snd kw)))
                      (expat_tokens (CHR ''<'' # r'))"
    by (rule tokens_attr_line [OF k w])
  also have "expat_tokens (CHR ''<'' # r') = expat_tokens (body_text L @ CHR ''<'' # r)"
    by (simp add: r')
  also have "\<dots> = prepend (concat (map (\<lambda>kw. line_events (fst kw, xml_newlines (snd kw))) L))
                      (expat_tokens (CHR ''<'' # r))"
    using Cons by simp
  finally show ?case by (simp add: prepend_prepend)
qed

lemma XML_HEADER_tag: "XML_HEADER = CHR ''<'' # header_tag @ ''>'' @ [newline]"
  by (simp add: XML_HEADER_def header_tag_def)

lemma scan_header: "scan_tag (header_tag @ ''>'' @ rest) None = Some (header_tag, rest)"
  by (simp add: header_tag_def dquote_def)

lemma parse_header: "parse_tag header_tag = Some []"
  by code_simp

lemma scan_node: "scan_tag (''node>'' @ rest) None = Some (''node'', rest)"
  by (simp add: dquote_def)

lemma parse_node: "parse_tag ''node'' = Some [StartElement ''node'' []]"
  by code_simp

lemma scan_version: "scan_tag (''version>'' @ rest) None = Some (''version'', rest)"
  by (simp add: dquote_def)

lemma parse_version: "parse_tag ''version'' = Some [StartElement ''version'' []]"
  by code_simp

lemma scan_end_version: "scan_tag (''/version>'' @ rest) None = Some (''/version'', rest)"
  by (simp add: dquote_def)

lemma parse_end_version: "parse_tag ''/version'' = Some [EndElement ''version'']"
  by code_simp

lemma scan_end_node: "scan_tag (''/node>'' @ rest) None = Some (''/node'', rest)"
  by (simp add: dquote_def)

lemma parse_end_node: "parse_tag ''/node'' = Some [EndElement ''node'']"
  by code_simp

lemma tokens_newline:
  "expat_tokens (newline # CHR ''<'' # r)
   = prepend [CharacterData [newline]] (expat_tokens (CHR ''<'' # r))"
  using tokens_text [of "[newline]" "[newline]" r]
  by (simp add: newline_def xml_char_ok_def)

lemma tokens_newline_end: "expat_tokens [newline] = ([CharacterData [newline]], True)"
  using tokens_text_end [of "[newline]" "[newline]"]
  by (simp add: newline_def xml_char_ok_def)

lemma tokens_number:
  "expat_tokens (str_int i @ CHR ''<'' # r)
   = prepend [CharacterData (str_int i)] (expat_tokens (CHR ''<'' # r))"
proof (rule tokens_text)
  show "str_int i \<noteq> []" by (rule str_int_nonempty)
  show "CHR ''<'' \<notin> set (str_int i)" using str_int_plain by blast
  show "xml_chardata (str_int i) = Some (str_int i)"
    using str_int_plain by (intro chardata_id) blast
qed

lemma tokens_document:
  assumes "\<forall>kw \<in> set L. list_all xml_name_char (fst kw) \<and> list_all xml_char_ok (snd kw)"
  shows "expat_tokens (meta_document (VInt ver) (body_text L))
         = (document_tokens ver (map (\<lambda>kw. (fst kw, xml_newlines (snd kw))) L), True)"
proof -
  have e: "expat_tokens (CHR ''<'' # ''/node>'' @ [newline])
           = ([EndElement ''node'', CharacterData [newline]], True)"
    using tokens_tag [OF scan_end_node parse_end_node, of "[newline]"] tokens_newline_end
    by (simp add: prepend_def)
  have l: "expat_tokens (body_text L @ CHR ''<'' # ''/node>'' @ [newline])
           = prepend (concat (map (\<lambda>kw. line_events (fst kw, xml_newlines (snd kw))) L))
               ([EndElement ''node'', CharacterData [newline]], True)"
    using tokens_lines [OF assms, of "''/node>'' @ [newline]"] e by simp
  obtain r1 where r1: "body_text L @ CHR ''<'' # ''/node>'' @ [newline] = CHR ''<'' # r1"
    using body_text_starts by blast
  have v3: "expat_tokens (newline # body_text L @ CHR ''<'' # ''/node>'' @ [newline])
            = prepend [CharacterData [newline]]
                (expat_tokens (body_text L @ CHR ''<'' # ''/node>'' @ [newline]))"
    unfolding r1 by (rule tokens_newline)
  have v2: "expat_tokens (CHR ''<'' # ''/version>'' @ newline
                # body_text L @ CHR ''<'' # ''/node>'' @ [newline])
            = prepend [EndElement ''version'']
                (expat_tokens (newline # body_text L @ CHR ''<'' # ''/node>'' @ [newline]))"
    using tokens_tag [OF scan_end_version parse_end_version,
        of "newline # body_text L @ CHR ''<'' # ''/node>'' @ [newline]"]
    by simp
  have v1: "expat_tokens (str_int ver @ CHR ''<'' # ''/version>'' @ newline
                # body_text L @ CHR ''<'' # ''/node>'' @ [newline])
            = prepend [CharacterData (str_int ver)]
                (expat_tokens (CHR ''<'' # ''/version>'' @ newline
                   # body_text L @ CHR ''<'' # ''/node>'' @ [newline]))"
    by (rule tokens_number)
  have v0: "expat_tokens (CHR ''<'' # ''version>'' @ str_int ver @ CHR ''<'' # ''/version>''
                @ newline # body_text L @ CHR ''<'' # ''/node>'' @ [newline])
            = prepend [StartElement ''version'' []]
                (expat_tokens (str_int ver @ CHR ''<'' # ''/version>'' @ newline
                   # body_text L @ CHR ''<'' # ''/node>'' @ [newline]))"
    using tokens_tag [OF scan_version parse_version,
        of "str_int ver @ CHR ''<'' # ''/version>'' @ newline
              # body_text L @ CHR ''<'' # ''/node>'' @ [newline]"]
    by simp
  have n1: "expat_tokens (newline # CHR ''<'' # ''version>'' @ str_int ver
                @ CHR ''<'' # ''/version>''
                @ newline # body_text L @ CHR ''<'' # ''/node>'' @ [newline])
            = prepend [CharacterData [newline]]
                (expat_tokens (CHR ''<'' # ''version>'' @ str_int ver @ CHR ''<'' # ''/version>''
                   @ newline # body_text L @ CHR ''<'' # ''/node>'' @ [newline]))"
    by (rule tokens_newline)
  have n0: "expat_tokens (CHR ''<'' # ''node>'' @ newline # CHR ''<'' # ''version>''
                @ str_int ver @ CHR ''<'' # ''/version>''
                @ newline # body_text L @ CHR ''<'' # ''/node>'' @ [newline])
            = prepend [StartElement ''node'' []]
                (expat_tokens (newline # CHR ''<'' # ''version>'' @ str_int ver
                   @ CHR ''<'' # ''/version>''
                   @ newline # body_text L @ CHR ''<'' # ''/node>'' @ [newline]))"
    using tokens_tag [OF scan_node parse_node,
        of "newline # CHR ''<'' # ''version>'' @ str_int ver @ CHR ''<'' # ''/version>''
              @ newline # body_text L @ CHR ''<'' # ''/node>'' @ [newline]"]
    by simp
  have h1: "expat_tokens (newline # CHR ''<'' # ''node>'' @ newline # CHR ''<'' # ''version>''
                @ str_int ver @ CHR ''<'' # ''/version>''
                @ newline # body_text L @ CHR ''<'' # ''/node>'' @ [newline])
            = prepend [CharacterData [newline]]
                (expat_tokens (CHR ''<'' # ''node>'' @ newline # CHR ''<'' # ''version>''
                   @ str_int ver @ CHR ''<'' # ''/version>''
                   @ newline # body_text L @ CHR ''<'' # ''/node>'' @ [newline]))"
    by (rule tokens_newline)
  have h0: "expat_tokens (CHR ''<'' # header_tag @ ''>'' @ newline # CHR ''<'' # ''node>''
                @ newline # CHR ''<'' # ''version>''
                @ str_int ver @ CHR ''<'' # ''/version>''
                @ newline # body_text L @ CHR ''<'' # ''/node>'' @ [newline])
            = expat_tokens (newline # CHR ''<'' # ''node>'' @ newline # CHR ''<'' # ''version>''
                @ str_int ver @ CHR ''<'' # ''/version>''
                @ newline # body_text L @ CHR ''<'' # ''/node>'' @ [newline])"
    using tokens_tag [OF scan_header parse_header,
        of "newline # CHR ''<'' # ''node>'' @ newline # CHR ''<'' # ''version>''
                @ str_int ver @ CHR ''<'' # ''/version>''
                @ newline # body_text L @ CHR ''<'' # ''/node>'' @ [newline]"]
    by (simp add: prepend_Nil)
  have doc: "meta_document (VInt ver) (body_text L)
             = CHR ''<'' # header_tag @ ''>'' @ newline # CHR ''<'' # ''node>''
                @ newline # CHR ''<'' # ''version>''
                @ str_int ver @ CHR ''<'' # ''/version>''
                @ newline # body_text L @ CHR ''<'' # ''/node>'' @ [newline]"
    by (simp add: meta_document_def XML_HEADER_tag py_unicode_def)
  show ?thesis
    unfolding doc h0 h1 n0 n1 v0 v1 v2 v3 l
    by (simp add: prepend_def document_tokens_def comp_def)
qed

lemma nesting_lines:
  "expat_nesting (concat (map line_events M) @ rest) [''node''] closed
   = prepend (concat (map line_events M)) (expat_nesting rest [''node''] closed)"
proof (induction M)
  case Nil
  then show ?case by (simp add: prepend_Nil)
next
  case (Cons kt M)
  then show ?case
    by (simp add: line_events_def prepend_def)
qed

lemma nesting_document:
  "expat_nesting (document_tokens ver M) [] False = (document_events ver M, True)"
proof -
  have w: "list_all (\<lambda>x. x \<in> set xml_space) [newline]"
    by (simp add: xml_space_def newline_def)
  have e: "expat_nesting [EndElement ''node'', CharacterData [newline]] [''node''] False
           = ([EndElement ''node''], True)"
    using w by (simp add: prepend_def)
  show ?thesis
    using w nesting_lines [of M "[EndElement ''node'', CharacterData [newline]]" False] e
    by (simp add: document_tokens_def document_events_def prepend_def)
qed

lemma parse_document:
  assumes "\<forall>kw \<in> set L. list_all xml_name_char (fst kw) \<and> list_all xml_char_ok (snd kw)"
  shows "expat_parse (meta_document (VInt ver) (body_text L))
         = (document_events ver (map (\<lambda>kw. (fst kw, xml_newlines (snd kw))) L), True)"
  using tokens_document [OF assms] nesting_document
  by (simp add: expat_parse_def Let_def)

subsection \<open>The handlers on a written document\<close>

lemma attr_not_node: "''attr'' \<noteq> ''node''" "''attr'' \<noteq> ''version''" "''version'' \<noteq> ''node''"
  by simp_all

lemma events_line:
  assumes "map_of schema k = Some a" and "attr_read a t = Inr v"
  shows "meta_events schema (meta_open A) (line_events (k, t) @ rest)
         = meta_events schema (meta_open (AList.update k v A)) rest"
  using assms
  by (cases "t = []")
     (simp_all add: line_events_def meta_open_def meta_start_element_def meta_char_data_def
      meta_end_element_def Let_def)

lemma events_lines:
  assumes "\<forall>kv \<in> set attrs. registered schema (fst kv) (snd kv)"
  shows "meta_events schema (meta_open A)
           (concat (map line_events
              (map (\<lambda>kv. (fst kv, xml_newlines (written_text (snd kv)))) attrs)) @ rest)
         = meta_events schema
             (meta_open (fold (\<lambda>kv. AList.update (fst kv) (xml_value (snd kv))) attrs A)) rest"
  using assms
proof (induction attrs arbitrary: A)
  case Nil
  then show ?case by simp
next
  case (Cons kv attrs)
  obtain k v where kv: "kv = (k, v)" by (cases kv)
  from Cons.prems obtain a where a: "map_of schema k = Some a"
    and t: "value_of_type (attr_datatype a) v"
    by (auto simp: kv registered_def split: option.splits)
  have r: "attr_read a (xml_newlines (written_text v)) = Inr (xml_value v)"
    by (rule attr_read_typed [OF t])
  show ?case
    using Cons events_line [OF a r] by (simp add: kv)
qed

lemma events_document:
  assumes "\<forall>kv \<in> set attrs. registered schema (fst kv) (snd kv)"
  shows "meta_events schema
           \<lparr>meta_root = False, meta_data = None, meta_tag = None, meta_attr = None, attr = A\<rparr>
           (document_events ver
              (map (\<lambda>kv. (fst kv, xml_newlines (written_text (snd kv)))) attrs))
         = Inr ((meta_open
                   (fold (\<lambda>kv. AList.update (fst kv) (xml_value (snd kv))) attrs
                      (AList.update ''version'' (VInt ver) A)))\<lparr>meta_root := False\<rparr>)"
proof -
  have v: "meta_events schema
             \<lparr>meta_root = False, meta_data = None, meta_tag = None, meta_attr = None, attr = A\<rparr>
             ([StartElement ''node'' [], CharacterData [newline],
               StartElement ''version'' [], CharacterData (str_int ver), EndElement ''version'',
               CharacterData [newline]] @ rest)
           = meta_events schema (meta_open (AList.update ''version'' (VInt ver) A)) rest" for rest
    by (simp add: meta_open_def meta_start_element_def meta_char_data_def
        meta_end_element_def Let_def int_of_string_str_int)
  have e: "meta_events schema (meta_open B) [EndElement ''node'']
           = Inr ((meta_open B)\<lparr>meta_root := False\<rparr>)" for B
    by (simp add: meta_open_def meta_end_element_def Let_def)
  show ?thesis
    unfolding document_events_def v events_lines [OF assms] e ..
qed

subsection \<open>Dictionaries\<close>

lemma fold_update_other:
  "k \<notin> fst ` set L \<Longrightarrow>
   map_of (fold (\<lambda>kv. AList.update (fst kv) (f (snd kv))) L A) k = map_of A k"
  by (induction L arbitrary: A) (auto simp: update_conv')

lemma fold_update_member:
  "distinct (map fst L) \<Longrightarrow> (k, v) \<in> set L \<Longrightarrow>
   map_of (fold (\<lambda>kv. AList.update (fst kv) (f (snd kv))) L A) k = Some (f v)"
proof (induction L arbitrary: A)
  case Nil
  then show ?case by simp
next
  case (Cons kv L)
  show ?case
  proof (cases "kv = (k, v)")
    case True
    then have "k \<notin> fst ` set L" using Cons.prems(1) by auto
    then show ?thesis using True by (simp add: fold_update_other update_conv')
  next
    case False
    then show ?thesis using Cons by auto
  qed
qed

lemma meta_defaults_keeps:
  "map_of d k = Some v \<Longrightarrow> v \<noteq> VNone \<Longrightarrow> map_of (meta_defaults now d) k = Some v"
  by (auto simp: meta_defaults_def Let_def update_conv')

subsection \<open>Writing and reading meta data\<close>

lemma notebook_attrs_init_keys:
  "map fst notebook_attrs_init
   = [''title'', ''content_type'', ''order'', ''created_time'', ''modified_time'', ''expanded'',
      ''expanded2'', ''info_sort'', ''info_sort_dir'']"
  by code_simp

lemma registered_keys_ok:
  "\<forall>k \<in> set (map fst notebook_attrs_init). list_all xml_name_char k \<and> k \<noteq> ''version''"
  unfolding notebook_attrs_init_keys by code_simp

lemma registered_key:
  assumes "registered notebook_attrs_init k v"
  shows "list_all xml_name_char k \<and> k \<noteq> ''version''"
proof -
  from assms obtain a where "map_of notebook_attrs_init k = Some a"
    by (auto simp: registered_def split: option.splits)
  then have "k \<in> set (map fst notebook_attrs_init)"
    by (metis map_of_SomeD image_eqI fst_conv set_map)
  then show ?thesis using registered_keys_ok by blast
qed

lemma registered_text_ok:
  assumes "registered schema k v"
  shows "list_all xml_char_ok (written_text v)"
proof -
  from assms obtain a :: NoteBookAttr where "value_of_type (attr_datatype a) v"
    by (auto simp: registered_def split: option.splits)
  then show ?thesis by (rule written_text_ok)
qed

lemma write_registered:
  assumes "\<forall>kv \<in> set attrs. registered schema (fst kv) (snd kv)"
    and "MetaData_write fs filename (VInt ver) attrs schema = Inr fs'"
  shows "read_file fs' filename
         = Inr (meta_document (VInt ver)
                  (body_text (map (\<lambda>kv. (fst kv, written_text (snd kv))) attrs)))"
  using assms(2) write_attrs_registered [OF assms(1)]
  by (auto simp: MetaData_write_def safefile_write_def read_file_def update_conv'
      split: if_splits)

lemma write_succeeds:
  assumes "\<forall>kv \<in> set attrs. registered schema (fst kv) (snd kv)"
    and "safefile_openable fs filename"
  shows "\<exists>fs'. MetaData_write fs filename ver attrs schema = Inr fs'"
  using assms(2) write_attrs_registered [OF assms(1)]
  by (simp add: MetaData_write_def safefile_write_def)

lemma read_written:
  assumes "distinct (map fst attrs)"
    and "\<forall>kv \<in> set attrs. registered notebook_attrs_init (fst kv) (snd kv)"
    and "MetaData_write fs filename (VInt ver) attrs notebook_attrs_init = Inr fs'"
  shows "\<exists>d. MetaData_read fs' now filename notebook_attrs_init = Inr d
             \<and> (\<forall>kv \<in> set attrs. map_of d (fst kv) = Some (xml_value (snd kv)))"
proof -
  define L where "L = map (\<lambda>kv. (fst kv, written_text (snd kv))) attrs"
  define A where "A = fold (\<lambda>kv. AList.update (fst kv) (xml_value (snd kv))) attrs
      (AList.update ''version'' (VInt ver) [(''created_time'', VNone), (''modified_time'', VNone)])"
  have ok: "\<forall>kw \<in> set L. list_all xml_name_char (fst kw) \<and> list_all xml_char_ok (snd kw)"
    using assms(2) registered_key registered_text_ok by (auto simp: L_def)
  have fl: "read_file fs' filename = Inr (meta_document (VInt ver) (body_text L))"
    unfolding L_def by (rule write_registered [OF assms(2) assms(3)])
  have parse: "expat_parse (meta_document (VInt ver) (body_text L))
      = (document_events ver
           (map (\<lambda>kv. (fst kv, xml_newlines (written_text (snd kv)))) attrs), True)"
    using parse_document [OF ok, of ver] by (simp add: L_def comp_def)
  have ev: "meta_events notebook_attrs_init
             \<lparr>meta_root = False, meta_data = None, meta_tag = None, meta_attr = None,
              attr = [(''created_time'', VNone), (''modified_time'', VNone)]\<rparr>
             (document_events ver
                (map (\<lambda>kv. (fst kv, xml_newlines (written_text (snd kv)))) attrs))
           = Inr ((meta_open A)\<lparr>meta_root := False\<rparr>)"
    unfolding A_def by (rule events_document [OF assms(2)])
  have rd: "MetaData_read fs' now filename notebook_attrs_init = Inr (meta_defaults now A)"
    by (simp add: MetaData_read_def fl parse ev meta_open_def)
  have "map_of (meta_defaults now A) (fst kv) = Some (xml_value (snd kv))"
    if kv: "kv \<in> set attrs" for kv
  proof -
    have m: "(fst kv, snd kv) \<in> set attrs" using kv by simp
    have "map_of A (fst kv) = Some (xml_value (snd kv))"
      unfolding A_def by (rule fold_update_member [OF assms(1) m])
    moreover have "xml_value (snd kv) \<noteq> VNone"
      using assms(2) kv xml_value_not_None
      by (fastforce simp: registered_def split: option.splits)
    ultimately show ?thesis by (rule meta_defaults_keeps)
  qed
  with rd show ?thesis by blast
qed

text \<open>
  C8, as the code and the XML parser have it. Let the attributes of a node (a dictionary,
  so with distinct keys) all have entries in the schema of the notebook and values of
  the registered types, the texts made of characters that XML allows and free of
  carriage returns. If \<^verbatim>\<open>NoteBookNodeMetaData.write\<close> writes them (with an integer
  version), then \<^verbatim>\<open>NoteBookNodeMetaData.read\<close> of the file returns, and gives every
  attribute its original value: booleans come back through \<^verbatim>\<open>0\<close> and \<^verbatim>\<open>1\<close>, integers
  and timestamps through their numerals, and texts through the escaping of \<^verbatim>\<open>&\<close>,
  \<^verbatim>\<open><\<close> and \<^verbatim>\<open>>\<close>.
\<close>

theorem meta_data_round_trip:
  assumes "distinct (map fst attrs)"
    and "\<forall>kv \<in> set attrs. registered notebook_attrs_init (fst kv) (snd kv)
                          \<and> no_carriage_return (snd kv)"
    and "MetaData_write fs filename (VInt ver) attrs notebook_attrs_init = Inr fs'"
  shows "\<exists>d. MetaData_read fs' now filename notebook_attrs_init = Inr d
             \<and> (\<forall>kv \<in> set attrs. map_of d (fst kv) = Some (snd kv))"
proof -
  have r: "\<forall>kv \<in> set attrs. registered notebook_attrs_init (fst kv) (snd kv)"
    using assms(2) by blast
  obtain d where d: "MetaData_read fs' now filename notebook_attrs_init = Inr d"
    and v: "\<forall>kv \<in> set attrs. map_of d (fst kv) = Some (xml_value (snd kv))"
    using read_written [OF assms(1) r assms(3)] by blast
  have "\<forall>kv \<in> set attrs. map_of d (fst kv) = Some (snd kv)"
    using v assms(2) xml_value_id by auto
  with d show ?thesis by blast
qed

lemma markup_attrs_registered:
  "\<forall>kv \<in> set markup_attrs. registered notebook_attrs_init (fst kv) (snd kv)
                             \<and> no_carriage_return (snd kv)"
  by code_simp

lemma markup_attrs_distinct: "distinct (map fst markup_attrs)"
  by code_simp

lemma example_openable: "safefile_openable example_files ''nb/proj/a/node.xml''"
  by code_simp

theorem meta_data_round_trip_witness:
  "\<exists>fs' d. MetaData_write example_files ''nb/proj/a/node.xml'' (VInt 2) markup_attrs
              notebook_attrs_init = Inr fs'
     \<and> MetaData_read fs' 0 ''nb/proj/a/node.xml'' notebook_attrs_init = Inr d
     \<and> map_of d ''title'' = Some (VText ''Tom & Jerry <1>'')
     \<and> map_of d ''order'' = Some (VInt (- 3))
     \<and> map_of d ''created_time'' = Some (VInt 1000)
     \<and> map_of d ''expanded'' = Some (VBool True)
     \<and> map_of d ''expanded2'' = Some (VBool False)"
proof -
  have r: "\<forall>kv \<in> set markup_attrs. registered notebook_attrs_init (fst kv) (snd kv)"
    using markup_attrs_registered by blast
  obtain fs' where w: "MetaData_write example_files ''nb/proj/a/node.xml'' (VInt 2) markup_attrs
      notebook_attrs_init = Inr fs'"
    using write_succeeds [OF r example_openable] by blast
  obtain d where d: "MetaData_read fs' 0 ''nb/proj/a/node.xml'' notebook_attrs_init = Inr d"
    and v: "\<forall>kv \<in> set markup_attrs. map_of d (fst kv) = Some (snd kv)"
    using meta_data_round_trip [OF markup_attrs_distinct markup_attrs_registered w] by blast
  from v have "map_of d ''title'' = Some (VText ''Tom & Jerry <1>'')
     \<and> map_of d ''order'' = Some (VInt (- 3))
     \<and> map_of d ''created_time'' = Some (VInt 1000)
     \<and> map_of d ''expanded'' = Some (VBool True)
     \<and> map_of d ''expanded2'' = Some (VBool False)"
    by (simp add: markup_attrs_def)
  with w d show ?thesis by blast
qed

lemma cr_attrs_registered:
  "\<forall>kv \<in> set cr_attrs. registered notebook_attrs_init (fst kv) (snd kv)"
  by code_simp

text \<open>
  C8 as stated fails: a title with a carriage return is a text, the writer writes it
  as it is, and the reader returns the title with a line feed in its place.
\<close>

theorem meta_data_round_trip_counterexample:
  "distinct (map fst cr_attrs)
   \<and> list_all (\<lambda>kv. registered notebook_attrs_init (fst kv) (snd kv)) cr_attrs
   \<and> map_of cr_attrs ''title'' = Some (VText [CHR ''x'', CHR 0x0D, CHR ''y''])
   \<and> (\<exists>fs' d. MetaData_write example_files ''nb/proj/a/node.xml'' (VInt 2) cr_attrs
                 notebook_attrs_init = Inr fs'
        \<and> MetaData_read fs' 0 ''nb/proj/a/node.xml'' notebook_attrs_init = Inr d
        \<and> map_of d ''title'' = Some (VText [CHR ''x'', CHR 0x0A, CHR ''y''])
        \<and> map_of d ''title'' \<noteq> map_of cr_attrs ''title'')"
proof -
  have dist: "distinct (map fst cr_attrs)" by (simp add: cr_attrs_def)
  obtain fs' where w: "MetaData_write example_files ''nb/proj/a/node.xml'' (VInt 2) cr_attrs
      notebook_attrs_init = Inr fs'"
    using write_succeeds [OF cr_attrs_registered example_openable] by blast
  obtain d where d: "MetaData_read fs' 0 ''nb/proj/a/node.xml'' notebook_attrs_init = Inr d"
    and v: "\<forall>kv \<in> set cr_attrs. map_of d (fst kv) = Some (xml_value (snd kv))"
    using read_written [OF dist cr_attrs_registered w] by blast
  from v have t: "map_of d ''title'' = Some (VText [CHR ''x'', CHR 0x0A, CHR ''y''])"
    by (simp add: cr_attrs_def xml_value_def newline_def)
  have c: "map_of cr_attrs ''title'' = Some (VText [CHR ''x'', CHR 0x0D, CHR ''y''])"
    by (simp add: cr_attrs_def)
  have "list_all (\<lambda>kv. registered notebook_attrs_init (fst kv) (snd kv)) cr_attrs"
    using cr_attrs_registered by (simp add: list_all_iff)
  with dist c t w d show ?thesis by auto
qed

subsection \<open>Loading the children\<close>

lemma Node_load_children_read:
  "Node_load_children s n
   = then_do (read_children s n)
       (\<lambda>u s2. then_do (sort_children s2 n) (\<lambda>u s3. Node_set_child_order s3 n))"
  by (simp add: Node_load_children_def read_children_def Let_def split: sum.splits)

lemma dict_update_keeps: "map_of d k \<noteq> None \<Longrightarrow> map_of (dict_update d e) k \<noteq> None"
  unfolding dict_update_def
  by (induction e arbitrary: d) (simp_all add: update_conv')

lemma NoteBook_read_node_cases:
  assumes "NoteBook_read_node s nbk parent path = (r, s')"
  shows "((r = Inr None \<or> (\<exists>e. r = Inl e)) \<and> s' = s)
       \<or> (r = Inr (Some (next_id s))
          \<and> s' = s\<lparr>heap := (heap s)(next_id s := heap s' (next_id s)),
                   next_id := Suc (next_id s), nb_dirty := nb_dirty s'\<rparr>
          \<and> set (nb_dirty s')
              = (if n_class (heap s' (next_id s)) = CTrash
                 then insert (next_id s) (set (nb_dirty s)) else set (nb_dirty s))
          \<and> n_notebook (heap s' (next_id s)) = Some nbk
          \<and> map_of (n_attr (heap s' (next_id s))) ''order'' \<noteq> None)"
proof (cases "os_path_exists (files s) (get_node_meta_file path)")
  case False
  then show ?thesis using assms by (simp add: NoteBook_read_node_def Let_def)
next
  case ex: True
  show ?thesis
  proof (cases "MetaData_read (files s) (clock s) (get_node_meta_file path) (nb_notebook_attrs s)")
    case (Inl e)
    then show ?thesis using assms ex by (auto simp: NoteBook_read_node_def Let_def)
  next
    case (Inr a)
    define ct where "ct = (case map_of a ''content_type'' of None \<Rightarrow> VText CONTENT_TYPE_DIR | Some v \<Rightarrow> v)"
    have k: "map_of (dict_update (clear_attr t c) a) ''order'' \<noteq> None" for t c
      by (rule dict_update_keeps) (simp add: clear_attr_def)
    have k2: "map_of (dict_update (AList.update ''content_type'' v (clear_attr t c)) a) ''order'' \<noteq> None"
      for t c v
      by (rule dict_update_keeps) (simp add: clear_attr_def update_conv')
    consider (d) "ct = VText CONTENT_TYPE_DIR"
      | (p) "ct \<noteq> VText CONTENT_TYPE_DIR" "ct = VText CONTENT_TYPE_PAGE"
      | (t) "ct \<noteq> VText CONTENT_TYPE_DIR" "ct \<noteq> VText CONTENT_TYPE_PAGE" "ct = VText CONTENT_TYPE_TRASH"
      | (o) "ct \<noteq> VText CONTENT_TYPE_DIR" "ct \<noteq> VText CONTENT_TYPE_PAGE" "ct \<noteq> VText CONTENT_TYPE_TRASH"
      by blast
    then show ?thesis
    proof cases
      case d
      then show ?thesis using assms ex Inr k
        by (auto simp: NoteBook_read_node_def Let_def ct_def [symmetric] Node_init_def
            Node_set_meta_data_def node_upd_def)
    next
      case p
      then show ?thesis using assms ex Inr k
        by (auto simp: NoteBook_read_node_def Let_def ct_def [symmetric] Node_init_def
            Node_set_meta_data_def node_upd_def)
    next
      case t
      show ?thesis
      proof (cases "get_path s nbk")
        case (Inl e)
        then show ?thesis using assms ex Inr t
          by (auto simp: NoteBook_read_node_def Let_def ct_def [symmetric] Trash_init_def)
      next
        case gp: (Inr pth)
        show ?thesis
        proof (cases "next_id s \<in> set (nb_dirty s)")
          case True
          then show ?thesis using gp assms ex Inr t k2
            by (auto simp: NoteBook_read_node_def Let_def ct_def [symmetric] Trash_init_def
                Node_init_def Node_set_meta_data_def node_upd_def Node_set_attr_def
                Node_set_dirty_def NoteBook_set_dirty_node_def set_attr_raw_def)
        next
          case False
          then show ?thesis using gp assms ex Inr t k2
            by (auto simp: NoteBook_read_node_def Let_def ct_def [symmetric] Trash_init_def
                Node_init_def Node_set_meta_data_def node_upd_def Node_set_attr_def
                Node_set_dirty_def NoteBook_set_dirty_node_def set_attr_raw_def)
        qed
      qed
    next
      case o
      then show ?thesis using assms ex Inr
        by (auto simp: NoteBook_read_node_def Let_def ct_def [symmetric])
    qed
  qed
qed

lemma load_children_inv:
  assumes "load_children s n path fs = (Inr (), s2)"
    and "n_children (heap s n) = Some cs"
    and "n < b"
    and "b \<le> next_id s"
    and "distinct cs"
    and "\<forall>c\<in>set cs. b \<le> c \<and> c < next_id s \<and> n_notebook (heap s c) \<noteq> None
           \<and> map_of (n_attr (heap s c)) ''order'' \<noteq> None
           \<and> (c \<in> set (nb_dirty s) \<longleftrightarrow> n_class (heap s c) = CTrash)"
    and "\<forall>d\<in>set (nb_dirty s). d < next_id s"
  shows "\<exists>cs2. n_children (heap s2 n) = Some cs2 \<and> distinct cs2
           \<and> (\<forall>c\<in>set cs2. b \<le> c \<and> n_notebook (heap s2 c) \<noteq> None
                  \<and> map_of (n_attr (heap s2 c)) ''order'' \<noteq> None
                  \<and> (c \<in> set (nb_dirty s2) \<longleftrightarrow> n_class (heap s2 c) = CTrash))"
  using assms
proof (induction fs arbitrary: s cs)
  case Nil
  then show ?case by auto
next
  case (Cons f fs)
  note ld = Cons.prems(1) and ch = Cons.prems(2) and nb = Cons.prems(3) and bn = Cons.prems(4)
    and dist = Cons.prems(5) and kids = Cons.prems(6) and dirty = Cons.prems(7)
  obtain nbk where nbk: "n_notebook (heap s n) = Some nbk"
    using ld by (cases "n_notebook (heap s n)") simp_all
  obtain r s1 where rn: "NoteBook_read_node s nbk n (os_path_join path f) = (r, s1)"
    by (cases "NoteBook_read_node s nbk n (os_path_join path f)")
  from NoteBook_read_node_cases [OF rn]
  consider (same) "r = Inr None \<or> (\<exists>e. r = Inl e)" "s1 = s"
    | (new) "r = Inr (Some (next_id s))"
        "s1 = s\<lparr>heap := (heap s)(next_id s := heap s1 (next_id s)),
                 next_id := Suc (next_id s), nb_dirty := nb_dirty s1\<rparr>"
        "set (nb_dirty s1)
              = (if n_class (heap s1 (next_id s)) = CTrash
                 then insert (next_id s) (set (nb_dirty s)) else set (nb_dirty s))"
        "n_notebook (heap s1 (next_id s)) = Some nbk"
        "map_of (n_attr (heap s1 (next_id s))) ''order'' \<noteq> None"
    by blast
  then show ?case
  proof cases
    case same
    have "load_children s n path fs = (Inr (), s2)"
      using ld nbk rn same by (auto split: if_splits)
    from Cons.IH [OF this ch nb bn dist kids dirty] show ?thesis .
  next
    case new
    define c where "c = next_id s"
    define sA where "sA = append_child s1 n c"
    have h1: "heap s1 = (heap s)(c := heap s1 c)"
      using arg_cong [where f = heap, OF new(2)] by (simp add: c_def)
    have n1: "next_id s1 = Suc c"
      using arg_cong [where f = next_id, OF new(2)] by (simp add: c_def)
    have nc: "n \<noteq> c" using nb bn by (simp add: c_def)
    have cnew: "c \<notin> set cs" using kids by (auto simp: c_def)
    have cdirty: "c \<notin> set (nb_dirty s)" using dirty by (auto simp: c_def)
    have old: "heap s1 x = heap s x" if "x \<noteq> c" for x
      using h1 that by (metis fun_upd_apply)
    have chA: "n_children (heap sA n) = Some (cs @ [c])"
      using ch old [OF nc] by (simp add: sA_def append_child_def node_upd_def)
    have hA: "heap sA x = heap s1 x" if "x \<noteq> n" for x
      using that by (simp add: sA_def append_child_def node_upd_def)
    have nA: "next_id sA = Suc c" using n1 by (simp add: sA_def append_child_def node_upd_def)
    have dA: "nb_dirty sA = nb_dirty s1" by (simp add: sA_def append_child_def node_upd_def)
    have ldA: "load_children sA n path fs = (Inr (), s2)"
      using ld nbk rn new(1) by (simp add: sA_def c_def)
    have bA: "b \<le> next_id sA" using bn nA by (simp add: c_def)
    have distA: "distinct (cs @ [c])" using dist cnew by simp
    have dsub: "set (nb_dirty s1) \<subseteq> insert c (set (nb_dirty s))"
      using new(3) by (auto simp: c_def split: if_splits)
    have dirtyA: "\<forall>d\<in>set (nb_dirty sA). d < next_id sA"
    proof
      fix d assume "d \<in> set (nb_dirty sA)"
      then have "d = c \<or> d \<in> set (nb_dirty s)" using dsub by (auto simp: dA)
      then show "d < next_id sA" using dirty by (auto simp: nA c_def less_Suc_eq)
    qed
    have kid_old: "b \<le> x \<and> x < next_id sA \<and> n_notebook (heap sA x) \<noteq> None
           \<and> map_of (n_attr (heap sA x)) ''order'' \<noteq> None
           \<and> (x \<in> set (nb_dirty sA) \<longleftrightarrow> n_class (heap sA x) = CTrash)" if x: "x \<in> set cs" for x
    proof -
      have xc: "x \<noteq> c" using x cnew by auto
      have xn: "x \<noteq> n" using x kids nb by auto
      have hx: "heap sA x = heap s x" using hA [OF xn] old [OF xc] by simp
      have dx: "x \<in> set (nb_dirty sA) \<longleftrightarrow> x \<in> set (nb_dirty s)"
        using new(3) xc by (auto simp: dA c_def split: if_splits)
      show ?thesis using kids x by (auto simp: hx dx nA c_def)
    qed
    have kid_new: "b \<le> c \<and> c < next_id sA \<and> n_notebook (heap sA c) \<noteq> None
           \<and> map_of (n_attr (heap sA c)) ''order'' \<noteq> None
           \<and> (c \<in> set (nb_dirty sA) \<longleftrightarrow> n_class (heap sA c) = CTrash)"
    proof -
      have hc: "heap sA c = heap s1 c" using hA [of c] nc by simp
      have "c \<in> set (nb_dirty s1) \<longleftrightarrow> n_class (heap s1 c) = CTrash"
        using new(3) cdirty by (auto simp: c_def split: if_splits)
      moreover have "b \<le> c" using bn by (simp add: c_def)
      ultimately show ?thesis
        using new(4,5) [folded c_def] by (auto simp: hc dA nA)
    qed
    have kidsA: "\<forall>x\<in>set (cs @ [c]). b \<le> x \<and> x < next_id sA \<and> n_notebook (heap sA x) \<noteq> None
           \<and> map_of (n_attr (heap sA x)) ''order'' \<noteq> None
           \<and> (x \<in> set (nb_dirty sA) \<longleftrightarrow> n_class (heap sA x) = CTrash)"
      using kid_old kid_new by auto
    from Cons.IH [OF ldA chA nb bA distA kidsA dirtyA] show ?thesis .
  qed
qed

text \<open>
  C6, as the code has it. \<^verbatim>\<open>get_children\<close> on a node whose children are not loaded, when the
  loop over the directory listing ends and leaves the children \<open>cs\<close> as read (state
  \<open>s2\<close>): the call returns \<open>cs\<close> sorted by the stored orders (a stable sort), every child
  then has an order equal to its position, and a child is dirty afterwards exactly when
  its stored order differs from its position or it is a trash folder, which
  \<^verbatim>\<open>NoteBookTrash.__init__\<close> marks dirty by its \<^verbatim>\<open>set_attr\<close>. Orders are compared as
  Python compares them (\<open>py_key\<close>). Objects and dirty marks are taken to lie below
  \<open>next_id\<close>.
\<close>

theorem get_children_sorted_renumbered:
  assumes unl: "n_children (heap s n) = None"
    and nid: "n < next_id s"
    and dirty: "\<forall>d\<in>set (nb_dirty s). d < next_id s"
    and rd: "read_children s n = (Inr (), s2)"
  shows "\<exists>cs s'. n_children (heap s2 n) = Some cs
           \<and> Node_get_children s n = (Inr (Some (sort_key (order_key s2) cs)), s')
           \<and> sorted (map (order_key s2) (sort_key (order_key s2) cs))
           \<and> (\<forall>k<length cs.
                 order_key s' (sort_key (order_key s2) cs ! k) = py_key (VInt (int k))
                 \<and> (sort_key (order_key s2) cs ! k \<in> set (nb_dirty s') \<longleftrightarrow>
                      n_class (heap s' (sort_key (order_key s2) cs ! k)) = CTrash
                      \<or> order_key s2 (sort_key (order_key s2) cs ! k) \<noteq> py_key (VInt (int k))))"
proof -
  define s1 where "s1 = node_upd s n (\<lambda>x. x\<lparr>n_children := Some []\<rparr>)"
  obtain path fs where ld: "load_children s1 n path fs = (Inr (), s2)"
    using rd
    by (auto simp: read_children_def Let_def s1_def [symmetric] split: sum.splits)
  have ch1: "n_children (heap s1 n) = Some []" by (simp add: s1_def node_upd_def)
  have n1: "next_id s \<le> next_id s1" by (simp add: s1_def node_upd_def)
  have d1: "\<forall>d\<in>set (nb_dirty s1). d < next_id s1"
    using dirty by (simp add: s1_def node_upd_def)
  have "\<exists>cs2. n_children (heap s2 n) = Some cs2 \<and> distinct cs2
           \<and> (\<forall>c\<in>set cs2. next_id s \<le> c \<and> n_notebook (heap s2 c) \<noteq> None
                  \<and> map_of (n_attr (heap s2 c)) ''order'' \<noteq> None
                  \<and> (c \<in> set (nb_dirty s2) \<longleftrightarrow> n_class (heap s2 c) = CTrash))"
    by (rule load_children_inv [OF ld ch1 nid n1 _ _ d1]) simp_all
  then obtain cs where ch2: "n_children (heap s2 n) = Some cs"
    and dist: "distinct cs"
    and kids: "\<forall>c\<in>set cs. next_id s \<le> c \<and> n_notebook (heap s2 c) \<noteq> None
                  \<and> map_of (n_attr (heap s2 c)) ''order'' \<noteq> None
                  \<and> (c \<in> set (nb_dirty s2) \<longleftrightarrow> n_class (heap s2 c) = CTrash)"
    by blast
  define cs' where "cs' = sort_key (order_key s2) cs"
  define s3 where "s3 = node_upd s2 n (\<lambda>x. x\<lparr>n_children := Some cs'\<rparr>)"
  have set': "set cs' = set cs" and dist': "distinct cs'" and len: "length cs' = length cs"
    using dist by (simp_all add: cs'_def)
  have nn: "n \<notin> set cs" using kids nid by auto
  have srt: "sort_children s2 n = (Inr (), s3)"
    using ch2 kids by (auto simp: sort_children_def s3_def cs'_def list_ex_iff)
  have h3: "heap s3 c = heap s2 c" if "c \<in> set cs" for c
    using that nn by (auto simp: s3_def node_upd_def)
  have ok3: "order_key s3 c = order_key s2 c" if "c \<in> set cs" for c
    using h3 [OF that] by (simp add: order_key_def)
  have ch3: "n_children (heap s3 n) = Some cs'" by (simp add: s3_def node_upd_def)
  have d3: "nb_dirty s3 = nb_dirty s2" by (simp add: s3_def node_upd_def)
  have kids3: "\<forall>c\<in>set cs'. n_notebook (heap s3 c) \<noteq> None
                 \<and> map_of (n_attr (heap s3 c)) ''order'' \<noteq> None"
    using kids h3 by (simp add: set')
  from set_child_order_loop_renumber [OF dist' kids3, of 0] obtain h d where
    loop: "set_child_order_loop s3 cs' 0 = (Inr (), s3\<lparr>heap := h, nb_dirty := d\<rparr>)"
    and out: "\<forall>p. p \<notin> set cs' \<longrightarrow> h p = heap s3 p"
    and at: "\<forall>k<length cs'. h (cs' ! k)
          = (if order_key s3 (cs' ! k) = py_key (VInt (int k)) then heap s3 (cs' ! k)
             else (heap s3 (cs' ! k))\<lparr>n_attr := AList.update ''order'' (VInt (int k))
                                               (n_attr (heap s3 (cs' ! k)))\<rparr>)"
    and dd: "\<forall>p. p \<in> set d \<longleftrightarrow>
               p \<in> set (nb_dirty s3)
               \<or> (\<exists>k<length cs'. p = cs' ! k \<and> order_key s3 (cs' ! k) \<noteq> py_key (VInt (int k)))"
    by auto
  define s' where "s' = s3\<lparr>heap := h, nb_dirty := d\<rparr>"
  have sco: "Node_set_child_order s3 n = (Inr (), s')"
    using ch3 loop by (simp add: Node_set_child_order_def s'_def)
  have hn: "n_children (heap s' n) = Some cs'"
    using out nn ch3 by (simp add: s'_def set')
  have lc: "Node_load_children s n = (Inr (), s')"
    using rd srt sco by (simp add: Node_load_children_read)
  have gc: "Node_get_children s n = (Inr (Some cs'), s')"
    using unl lc hn by (simp add: Node_get_children_def)
  have each: "order_key s' (cs' ! k) = py_key (VInt (int k))
                 \<and> (cs' ! k \<in> set (nb_dirty s') \<longleftrightarrow>
                      n_class (heap s' (cs' ! k)) = CTrash
                      \<or> order_key s2 (cs' ! k) \<noteq> py_key (VInt (int k)))"
    if k: "k < length cs" for k
  proof -
    have kl: "k < length cs'" using k len by simp
    have mem: "cs' ! k \<in> set cs" using kl set' nth_mem by blast
    have hk: "h (cs' ! k)
          = (if order_key s2 (cs' ! k) = py_key (VInt (int k)) then heap s2 (cs' ! k)
             else (heap s2 (cs' ! k))\<lparr>n_attr := AList.update ''order'' (VInt (int k))
                                               (n_attr (heap s2 (cs' ! k)))\<rparr>)"
      using at kl by (simp add: ok3 [OF mem] h3 [OF mem])
    have hs: "heap s' = h" by (simp add: s'_def)
    have o: "order_key s' (cs' ! k) = py_key (VInt (int k))"
    proof (cases "order_key s2 (cs' ! k) = py_key (VInt (int k))")
      case True
      then have "h (cs' ! k) = heap s2 (cs' ! k)" using hk by simp
      then show ?thesis using True by (simp add: order_key_def hs)
    next
      case False
      then have "n_attr (h (cs' ! k))
                 = AList.update ''order'' (VInt (int k)) (n_attr (heap s2 (cs' ! k)))"
        using hk by simp
      then show ?thesis by (simp add: order_key_def hs update_conv')
    qed
    have cl: "n_class (heap s' (cs' ! k)) = n_class (heap s2 (cs' ! k))"
      by (simp add: s'_def hk)
    have uniq: "(\<exists>j<length cs'. cs' ! k = cs' ! j \<and> order_key s3 (cs' ! j) \<noteq> py_key (VInt (int j)))
                \<longleftrightarrow> order_key s2 (cs' ! k) \<noteq> py_key (VInt (int k))"
    proof
      assume "\<exists>j<length cs'. cs' ! k = cs' ! j \<and> order_key s3 (cs' ! j) \<noteq> py_key (VInt (int j))"
      then obtain j where j: "j < length cs'" "cs' ! k = cs' ! j"
        "order_key s3 (cs' ! j) \<noteq> py_key (VInt (int j))" by blast
      then have "j = k" using dist' kl by (simp add: nth_eq_iff_index_eq)
      then show "order_key s2 (cs' ! k) \<noteq> py_key (VInt (int k))"
        using j(3) ok3 [OF mem] by simp
    next
      assume "order_key s2 (cs' ! k) \<noteq> py_key (VInt (int k))"
      then show "\<exists>j<length cs'. cs' ! k = cs' ! j \<and> order_key s3 (cs' ! j) \<noteq> py_key (VInt (int j))"
        using kl ok3 [OF mem] by auto
    qed
    have "cs' ! k \<in> set (nb_dirty s') \<longleftrightarrow>
            cs' ! k \<in> set (nb_dirty s2)
            \<or> order_key s2 (cs' ! k) \<noteq> py_key (VInt (int k))"
      using dd uniq by (simp add: s'_def d3)
    then show ?thesis using o cl kids mem by auto
  qed
  have "sorted (map (order_key s2) cs')" by (simp add: cs'_def)
  then show ?thesis
    using ch2 gc each unfolding cs'_def by blast
qed

lemma read_document:
  assumes "\<forall>kv \<in> set attrs. registered notebook_attrs_init (fst kv) (snd kv)"
    and "read_file fs filename
         = Inr (meta_document (VInt ver)
                  (body_text (map (\<lambda>kv. (fst kv, written_text (snd kv))) attrs)))"
  shows "MetaData_read fs now filename notebook_attrs_init
         = Inr (meta_defaults now
                  (fold (\<lambda>kv. AList.update (fst kv) (xml_value (snd kv))) attrs
                     (AList.update ''version'' (VInt ver)
                        [(''created_time'', VNone), (''modified_time'', VNone)])))"
proof -
  define L where "L = map (\<lambda>kv. (fst kv, written_text (snd kv))) attrs"
  have ok: "\<forall>kw \<in> set L. list_all xml_name_char (fst kw) \<and> list_all xml_char_ok (snd kw)"
    using assms(1) registered_key registered_text_ok by (auto simp: L_def)
  have parse: "expat_parse (meta_document (VInt ver) (body_text L))
      = (document_events ver
           (map (\<lambda>kv. (fst kv, xml_newlines (written_text (snd kv)))) attrs), True)"
    using parse_document [OF ok, of ver] by (simp add: L_def comp_def)
  show ?thesis
    using assms(2) parse events_document [OF assms(1)]
    by (simp add: MetaData_read_def L_def meta_open_def)
qed

lemma registered_page: "registered notebook_attrs_init ''content_type'' (VText CONTENT_TYPE_PAGE)"
  by code_simp

lemma registered_trash: "registered notebook_attrs_init ''content_type'' (VText CONTENT_TYPE_TRASH)"
  by code_simp

lemma registered_order: "registered notebook_attrs_init ''order'' (VInt i)"
  by code_simp

lemma newlines_page: "xml_newlines CONTENT_TYPE_PAGE = CONTENT_TYPE_PAGE"
  by code_simp

lemma newlines_trash: "xml_newlines CONTENT_TYPE_TRASH = CONTENT_TYPE_TRASH"
  by code_simp

lemma read_stored_document:
  assumes "read_file fs filename = Inr (stored_document t order)"
    and "xml_newlines t = t"
    and "registered notebook_attrs_init ''content_type'' (VText t)"
  shows "MetaData_read fs now filename notebook_attrs_init
         = Inr [(''created_time'', VInt now), (''modified_time'', VInt now),
                (''version'', VInt 2), (''content_type'', VText t), (''order'', VInt order)]"
proof -
  have r: "\<forall>kv \<in> set (stored_attrs t order). registered notebook_attrs_init (fst kv) (snd kv)"
    using assms(3) by (simp add: stored_attrs_def registered_order)
  from read_document [OF r assms(1) [unfolded stored_document_def], of now]
  show ?thesis
    using assms(2) by (simp add: stored_attrs_def meta_defaults_def xml_value_def)
qed

lemma stored_listdir:
  "os_listdir (stored_files oa ob oc) ''nb/proj'' = Inr [''a'', ''b'', ''c'']"
  by (simp add: os_listdir_def stored_files_def os_path_isdir_def os_path_basename_def
      os_path_join_def)

lemma stored_exists:
  "os_path_exists (stored_files oa ob oc) ''nb/proj/a/node.xml''"
  "os_path_exists (stored_files oa ob oc) ''nb/proj/b/node.xml''"
  "os_path_exists (stored_files oa ob oc) ''nb/proj/c/node.xml''"
  by (simp_all add: os_path_exists_def stored_files_def)

lemma stored_read:
  "MetaData_read (stored_files oa ob oc) now ''nb/proj/a/node.xml'' notebook_attrs_init
   = Inr [(''created_time'', VInt now), (''modified_time'', VInt now),
          (''version'', VInt 2), (''content_type'', VText CONTENT_TYPE_PAGE),
          (''order'', VInt oa)]"
  "MetaData_read (stored_files oa ob oc) now ''nb/proj/b/node.xml'' notebook_attrs_init
   = Inr [(''created_time'', VInt now), (''modified_time'', VInt now),
          (''version'', VInt 2), (''content_type'', VText CONTENT_TYPE_PAGE),
          (''order'', VInt ob)]"
  "MetaData_read (stored_files oa ob oc) now ''nb/proj/c/node.xml'' notebook_attrs_init
   = Inr [(''created_time'', VInt now), (''modified_time'', VInt now),
          (''version'', VInt 2), (''content_type'', VText CONTENT_TYPE_PAGE),
          (''order'', VInt oc)]"
  by (rule read_stored_document [OF _ newlines_page registered_page],
      simp add: read_file_def stored_files_def)+

lemma trash_listdir: "os_listdir trash_files ''nb'' = Inr [''__TRASH__'']"
  by (simp add: os_listdir_def trash_files_def os_path_isdir_def os_path_basename_def
      os_path_join_def)

lemma trash_exists: "os_path_exists trash_files ''nb/__TRASH__/node.xml''"
  by (simp add: os_path_exists_def trash_files_def)

lemma trash_read:
  "MetaData_read trash_files now ''nb/__TRASH__/node.xml'' notebook_attrs_init
   = Inr [(''created_time'', VInt now), (''modified_time'', VInt now),
          (''version'', VInt 2), (''content_type'', VText CONTENT_TYPE_TRASH),
          (''order'', VInt 0)]"
  by (rule read_stored_document [OF _ newlines_trash registered_trash])
    (simp add: read_file_def trash_files_def)

lemmas load_defs =
  read_children_def Node_load_children_def Node_get_children_def NoteBook_get_children_def
  NoteBook_init_trash_def sort_children_def Node_set_child_order_def order_key_def
  NoteBook_read_node_def Trash_init_def Node_init_def Node_set_meta_data_def Node_set_attr_def
  Node_set_dirty_def NoteBook_set_dirty_node_def set_attr_raw_def node_upd_def append_child_def
  get_path_def get_node_meta_file_def get_trash_dir_def os_path_join_def os_path_basename_def
  NODE_META_FILE_def TRASH_DIR_def TRASH_NAME_def CONTENT_TYPE_DIR_def CONTENT_TYPE_PAGE_def
  CONTENT_TYPE_TRASH_def dict_update_def clear_attr_def example_node_def py_eq_def py_key_def
  Let_def

lemma unloaded_read:
  "fst (read_children unloaded_state 0) = Inr ()
   \<and> n_children (heap (snd (read_children unloaded_state 0)) 0) = Some [1]
   \<and> map_of (n_attr (heap (snd (read_children unloaded_state 0)) 1)) ''order'' = Some (VInt 0)"
  using trash_listdir trash_exists trash_read [of 1000]
  by (simp add: unloaded_state_def load_defs)

lemma unloaded_example:
  "(let r = NoteBook_get_children unloaded_state 0 in
      fst r = Inr (Some [1])
      \<and> n_class (heap (snd r) 1) = CTrash
      \<and> map_of (n_attr (heap (snd r) 1)) ''order'' = Some (VInt 0)
      \<and> nb_dirty (snd r) = [1])
   \<and> (let r = Node_get_children unloaded_state 0 in
      fst r = Inr (Some [1])
      \<and> n_class (heap (snd r) 1) = CTrash
      \<and> map_of (n_attr (heap (snd r) 1)) ''order'' = Some (VInt 0)
      \<and> nb_dirty (snd r) = [1])"
  using trash_listdir trash_exists trash_read [of 1000]
  by (simp add: unloaded_state_def load_defs eval_nat_numeral)

lemma stored_read_example:
  "fst (read_children (stored_state oa ob oc) 1) = Inr ()
   \<and> n_children (heap (snd (read_children (stored_state oa ob oc) 1)) 1) = Some [2, 3, 4]
   \<and> map (\<lambda>c. map_of (n_attr (heap (snd (read_children (stored_state oa ob oc) 1)) c)) ''order'')
        [2, 3, 4]
      = [Some (VInt oa), Some (VInt ob), Some (VInt oc)]"
  using stored_listdir [of oa ob oc] stored_exists [of oa ob oc] stored_read [of oa ob oc 1000]
  by (simp add: stored_state_def load_defs eval_nat_numeral)

lemma stored_example:
  "(let r = Node_get_children (stored_state 2 0 1) 1 in
      fst r = Inr (Some [3, 4, 2])
      \<and> map (\<lambda>c. map_of (n_attr (heap (snd r) c)) ''order'') [3, 4, 2]
          = [Some (VInt 0), Some (VInt 1), Some (VInt 2)]
      \<and> nb_dirty (snd r) = [])"
  using stored_listdir [of 2 0 1] stored_exists [of 2 0 1] stored_read [of 2 0 1 1000]
  by (simp add: stored_state_def load_defs eval_nat_numeral sort_key_def)

lemma stored_example_gap:
  "(let r = Node_get_children (stored_state 5 0 1) 1 in
      fst r = Inr (Some [3, 4, 2])
      \<and> map (\<lambda>c. map_of (n_attr (heap (snd r) c)) ''order'') [3, 4, 2]
          = [Some (VInt 0), Some (VInt 1), Some (VInt 2)]
      \<and> nb_dirty (snd r) = [2])"
  using stored_listdir [of 5 0 1] stored_exists [of 5 0 1] stored_read [of 5 0 1 1000]
  by (simp add: stored_state_def load_defs eval_nat_numeral sort_key_def)

theorem get_children_sorted_renumbered_witness:
  "(let s = stored_state 5 0 1; s2 = snd (read_children s 1) in
      n_children (heap s 1) = None \<and> 1 < next_id s
      \<and> (\<forall>d\<in>set (nb_dirty s). d < next_id s)
      \<and> read_children s 1 = (Inr (), s2)
      \<and> n_children (heap s2 1) = Some [2, 3, 4]
      \<and> map (order_key s2) [2, 3, 4] = [py_key (VInt 5), py_key (VInt 0), py_key (VInt 1)]
      \<and> (\<exists>s'. Node_get_children s 1 = (Inr (Some [3, 4, 2]), s')
            \<and> (\<forall>k<3. order_key s' ([3, 4, 2] ! k) = py_key (VInt (int k))
                  \<and> ([3, 4, 2] ! k \<in> set (nb_dirty s') \<longleftrightarrow>
                       n_class (heap s' ([3, 4, 2] ! k)) = CTrash
                       \<or> order_key s2 ([3, 4, 2] ! k) \<noteq> py_key (VInt (int k)))))
      \<and> nb_dirty (snd (Node_get_children s 1)) = [2])
   \<and> (let r = Node_get_children (stored_state 2 0 1) 1 in
        fst r = Inr (Some [3, 4, 2])
        \<and> map (\<lambda>c. map_of (n_attr (heap (snd r) c)) ''order'') [3, 4, 2]
            = [Some (VInt 0), Some (VInt 1), Some (VInt 2)]
        \<and> nb_dirty (snd r) = [])"
proof -
  define s where "s = stored_state 5 0 1"
  define s2 where "s2 = snd (read_children s 1)"
  have h1: "n_children (heap s 1) = None"
    by (simp add: s_def stored_state_def example_node_def)
  have h2: "1 < next_id s" by (simp add: s_def stored_state_def)
  have h3: "\<forall>d\<in>set (nb_dirty s). d < next_id s" by (simp add: s_def stored_state_def)
  have h4: "read_children s 1 = (Inr (), s2)"
    using stored_read_example [of 5 0 1] by (simp add: s_def s2_def prod_eq_iff)
  have c2: "n_children (heap s2 1) = Some [2, 3, 4]"
    using stored_read_example [of 5 0 1] by (simp add: s_def s2_def)
  have k2: "order_key s2 2 = py_key (VInt 5)" "order_key s2 3 = py_key (VInt 0)"
    "order_key s2 4 = py_key (VInt 1)"
    using stored_read_example [of 5 0 1] by (simp_all add: s_def s2_def order_key_def)
  have srt: "sort_key (order_key s2) [2, 3, 4] = [3, 4, 2]"
    by (simp add: sort_key_def k2 py_key_def)
  from get_children_sorted_renumbered [OF h1 h2 h3 h4] obtain cs s' where
    a: "n_children (heap s2 1) = Some cs"
    and b: "Node_get_children s 1 = (Inr (Some (sort_key (order_key s2) cs)), s')"
    and c: "\<forall>k<length cs.
                 order_key s' (sort_key (order_key s2) cs ! k) = py_key (VInt (int k))
                 \<and> (sort_key (order_key s2) cs ! k \<in> set (nb_dirty s') \<longleftrightarrow>
                      n_class (heap s' (sort_key (order_key s2) cs ! k)) = CTrash
                      \<or> order_key s2 (sort_key (order_key s2) cs ! k) \<noteq> py_key (VInt (int k)))"
    by blast
  have cs: "cs = [2, 3, 4]" using a c2 by simp
  have e: "\<exists>s'. Node_get_children s 1 = (Inr (Some [3, 4, 2]), s')
            \<and> (\<forall>k<3. order_key s' ([3, 4, 2] ! k) = py_key (VInt (int k))
                  \<and> ([3, 4, 2] ! k \<in> set (nb_dirty s') \<longleftrightarrow>
                       n_class (heap s' ([3, 4, 2] ! k)) = CTrash
                       \<or> order_key s2 ([3, 4, 2] ! k) \<noteq> py_key (VInt (int k))))"
    using b c unfolding cs srt by (intro exI [of _ s']) simp
  have d: "nb_dirty (snd (Node_get_children s 1)) = [2]"
    using stored_example_gap by (simp add: s_def Let_def)
  show ?thesis
    unfolding Let_def s_def [symmetric] s2_def [symmetric]
    using h1 h2 h3 h4 c2 k2 e d stored_example [unfolded Let_def] by simp
qed

text \<open>
  C6 as stated fails for a trash folder: the notebook directory holds the saved trash
  folder, with the order 0. \<^verbatim>\<open>get_children\<close> of the notebook returns it as the only
  child; its order is 0 before and after the renumbering, and it is dirty.
\<close>

theorem get_children_counterexample:
  "(let s2 = snd (read_children unloaded_state 0);
        r = NoteBook_get_children unloaded_state 0;
        r' = Node_get_children unloaded_state 0
    in fst r = Inr (Some [1]) \<and> fst r' = Inr (Some [1])
       \<and> n_class (heap (snd r) 1) = CTrash
       \<and> map_of (n_attr (heap s2 1)) ''order'' = Some (VInt 0)
       \<and> map_of (n_attr (heap (snd r) 1)) ''order'' = Some (VInt 0)
       \<and> map_of (n_attr (heap (snd r') 1)) ''order'' = Some (VInt 0)
       \<and> 1 \<in> set (nb_dirty (snd r)) \<and> 1 \<in> set (nb_dirty (snd r')))"
  using unloaded_read unloaded_example by (simp add: Let_def)

end
